theory Spec2Isabelle
  imports Main "HOL-Library.Sublist"
begin

section \<open>Time values\<close>

text \<open>
  A \<open>time.Time\<close> is modelled by the instant it denotes, in seconds since the Unix epoch
  plus nanoseconds within the second, together with the offset (seconds east of UTC) of
  the location it is presented in. \<open>time.Now()\<close> is an input of every operation that
  reads the clock.
\<close>

record gotime =
  unixSec :: int
  nanos :: int
  zoneOffset :: int

text \<open>\<open>t.UTC()\<close>: the same instant, presented in UTC.\<close>

definition UTC :: "gotime \<Rightarrow> gotime" where
  "UTC t = t\<lparr>zoneOffset := 0\<rparr>"

text \<open>\<open>t.After(u)\<close> compares instants, whatever the locations.\<close>

definition After :: "gotime \<Rightarrow> gotime \<Rightarrow> bool" where
  "After t u = (unixSec t > unixSec u \<or> (unixSec t = unixSec u \<and> nanos t > nanos u))"

text \<open>The zero value \<open>time.Time{}\<close> is January 1, year 1, 00:00:00 UTC.\<close>

definition zeroTime :: gotime where
  "zeroTime = \<lparr>unixSec = - 62135596800, nanos = 0, zoneOffset = 0\<rparr>"

text \<open>
  Durations (\<open>time.Duration\<close>) are numbers of nanoseconds. A difference of two times
  is taken exactly; Go saturates it at about 292 years.
\<close>

definition Second :: int where
  "Second = 1000000000"

definition Hour :: int where
  "Hour = 3600 * Second"

definition Add :: "gotime \<Rightarrow> int \<Rightarrow> gotime" where
  "Add t d = (let total = nanos t + d
              in t\<lparr>unixSec := unixSec t + total div Second, nanos := total mod Second\<rparr>)"

definition Sub :: "gotime \<Rightarrow> gotime \<Rightarrow> int" where
  "Sub t u = (unixSec t - unixSec u) * Second + (nanos t - nanos u)"

definition IsZero :: "gotime \<Rightarrow> bool" where
  "IsZero t = (unixSec t = - 62135596800 \<and> nanos t = 0)"

definition Before :: "gotime \<Rightarrow> gotime \<Rightarrow> bool" where
  "Before t u = After u t"

subsection \<open>Formatting (\<open>Time.Format\<close>)\<close>

text \<open>
  \<open>Format\<close> prints the date and clock of the instant as read in the time's location. The
  date of a day number (days since 1970-01-01) is its proleptic Gregorian date.
\<close>

definition civilFromDays :: "int \<Rightarrow> int \<times> int \<times> int" where
  "civilFromDays days =
     (let z = days + 719468;
          era = z div 146097;
          doe = z mod 146097;
          yoe = (doe - doe div 1460 + doe div 36524 - doe div 146096) div 365;
          y = yoe + era * 400;
          doy = doe - (365 * yoe + yoe div 4 - yoe div 100);
          mp = (5 * doy + 2) div 153;
          d = doy - (153 * mp + 2) div 5 + 1;
          m = (if mp < 10 then mp + 3 else mp - 9)
      in (if m \<le> 2 then y + 1 else y, m, d))"

definition localSec :: "gotime \<Rightarrow> int" where
  "localSec t = unixSec t + zoneOffset t"

definition Year :: "gotime \<Rightarrow> int" where
  "Year t = fst (civilFromDays (localSec t div 86400))"

definition Month :: "gotime \<Rightarrow> int" where
  "Month t = fst (snd (civilFromDays (localSec t div 86400)))"

definition Day :: "gotime \<Rightarrow> int" where
  "Day t = snd (snd (civilFromDays (localSec t div 86400)))"

definition HourOf :: "gotime \<Rightarrow> int" where
  "HourOf t = (localSec t mod 86400) div 3600"

definition Minute :: "gotime \<Rightarrow> int" where
  "Minute t = (localSec t mod 3600) div 60"

definition SecondOf :: "gotime \<Rightarrow> int" where
  "SecondOf t = localSec t mod 60"

text \<open>Decimal digits, and \<open>appendInt\<close>: a number padded with zeros to a width.\<close>

definition digit :: "int \<Rightarrow> char" where
  "digit n = char_of (48 + n)"

function digitsOf :: "int \<Rightarrow> string" where
  "digitsOf n = (if n < 10 then [digit n] else digitsOf (n div 10) @ [digit (n mod 10)])"
  by pat_completeness auto
termination
  by (relation "measure nat") auto

declare digitsOf.simps [simp del]

definition padded :: "nat \<Rightarrow> int \<Rightarrow> string" where
  "padded width n =
     (let ds = digitsOf n in replicate (width - length ds) (CHR ''0'') @ ds)"

definition appendInt :: "int \<Rightarrow> nat \<Rightarrow> string" where
  "appendInt x width = (if x < 0 then CHR ''-'' # padded width (- x) else padded width x)"

text \<open>
  The elements of a layout that the program's layouts contain: \<open>2006\<close>, \<open>01\<close>, \<open>02\<close>,
  \<open>15\<close>, \<open>04\<close>, \<open>05\<close>, \<open>.999999999\<close>, \<open>Z07:00\<close>, and literal text.
\<close>

datatype chunk =
    stdLongYear
  | stdZeroMonth
  | stdZeroDay
  | stdHour
  | stdZeroMinute
  | stdZeroSecond
  | stdFracSecond9
  | stdISO8601ColonTZ
  | Lit string

text \<open>
  \<open>.999999999\<close> prints nothing when the nanoseconds are zero, and otherwise a point and
  the nine digits with the trailing zeros removed.
\<close>

definition formatNano :: "int \<Rightarrow> string" where
  "formatNano n =
     (if n = 0 then []
      else CHR ''.'' # rev (dropWhile (\<lambda>c. c = CHR ''0'') (rev (padded 9 n))))"

text \<open>\<open>Z07:00\<close> prints \<open>Z\<close> when the offset is zero, and otherwise the signed offset.\<close>

definition formatZone :: "int \<Rightarrow> string" where
  "formatZone offset =
     (if offset = 0 then ''Z''
      else
        let zone = (if offset < 0 then - ((- offset) div 60) else offset div 60);
            absZone = (if zone < 0 then - zone else zone)
        in (if zone < 0 then CHR ''-'' else CHR ''+'') #
           appendInt (absZone div 60) 2 @ CHR '':'' # appendInt (absZone mod 60) 2)"

definition formatChunk :: "gotime \<Rightarrow> chunk \<Rightarrow> string" where
  "formatChunk t c = (case c of
      stdLongYear \<Rightarrow> appendInt (Year t) 4
    | stdZeroMonth \<Rightarrow> appendInt (Month t) 2
    | stdZeroDay \<Rightarrow> appendInt (Day t) 2
    | stdHour \<Rightarrow> appendInt (HourOf t) 2
    | stdZeroMinute \<Rightarrow> appendInt (Minute t) 2
    | stdZeroSecond \<Rightarrow> appendInt (SecondOf t) 2
    | stdFracSecond9 \<Rightarrow> formatNano (nanos t)
    | stdISO8601ColonTZ \<Rightarrow> formatZone (zoneOffset t)
    | Lit s \<Rightarrow> s)"

definition Format :: "chunk list \<Rightarrow> gotime \<Rightarrow> string" where
  "Format layout t = concat (map (formatChunk t) layout)"

text \<open>The common prefix \<open>2006-01-02T15:04:05\<close> of the three layouts.\<close>

definition dateTimeLayout :: "chunk list" where
  "dateTimeLayout =
     [stdLongYear, Lit ''-'', stdZeroMonth, Lit ''-'', stdZeroDay, Lit ''T'',
      stdHour, Lit '':'', stdZeroMinute, Lit '':'', stdZeroSecond]"

text \<open>\<open>time.RFC3339 = "2006-01-02T15:04:05Z07:00"\<close>.\<close>

definition RFC3339 :: "chunk list" where
  "RFC3339 = dateTimeLayout @ [stdISO8601ColonTZ]"

text \<open>
  \<open>time.RFC3339Nano = "2006-01-02T15:04:05.999999999Z07:00"\<close>, the layout of
  \<open>Time.MarshalJSON\<close>, which encodes a \<open>time.Time\<close> field such as \<open>LogEntry.Timestamp\<close>.
\<close>

definition RFC3339Nano :: "chunk list" where
  "RFC3339Nano = dateTimeLayout @ [stdFracSecond9, stdISO8601ColonTZ]"

text \<open>
  The layout \<open>"2006-01-02T15:04:05+00:00"\<close> written out in \<open>performThreePhaseSync\<close> and in
  \<open>ServiceInfo.GetData\<close>: no element of a layout starts with \<open>+\<close>, and \<open>00\<close> is none, so
  the suffix is literal text.
\<close>

definition plusZeroLayout :: "chunk list" where
  "plusZeroLayout = dateTimeLayout @ [Lit ''+00:00'']"

section \<open>The recent-logs ring (standard.RecentLogs)\<close>

datatype LogLevel = LevelError | LevelWarn | LevelInfo | LevelDebug

text \<open>
  A context is a Go \<open>map[string]interface{}\<close>: \<open>None\<close> is the nil map, \<open>Some kvs\<close> a map
  holding the bindings \<open>kvs\<close>. \<open>len\<close> counts the distinct keys.
\<close>

type_synonym 'v logContext = "(string \<times> 'v) list option"

definition len_context :: "'v logContext \<Rightarrow> nat" where
  "len_context ctx = (case ctx of None \<Rightarrow> 0 | Some kvs \<Rightarrow> length (remdups (map fst kvs)))"

record 'v LogEntry =
  Timestamp :: gotime
  Level :: LogLevel
  Message :: string
  Context :: "'v logContext"

text \<open>
  \<open>triggerFunc\<close> is \<open>None\<close> for the nil function value.
\<close>

record ('v, 'f) RecentLogs =
  entries :: "'v LogEntry list"
  maxEntries :: int
  triggerFunc :: "'f option"

datatype panic =
    PanicContextEmpty
  | PanicSliceBounds
  | PanicIndexOutOfRange
  | PanicNilMap
  | PanicInvalidInterval
  | PanicCloseOfClosedChannel
  | PanicNilPointer
  | PanicMakeSliceCap

text \<open>
  \<open>NewRecentLogs\<close> replaces a capacity that is not positive by 100 and then allocates the
  slice with \<open>make([]LogEntry, 0, maxEntries)\<close>. \<open>make\<close> panics (\<open>makeslice: cap out of
  range\<close>) when the capacity is more than the runtime can allocate. That limit depends on
  the platform (the size of the address space divided by the size of a \<open>LogEntry\<close>), so
  it is an input: \<open>maxCap\<close> is the largest capacity for which the allocation succeeds.
\<close>

definition NewRecentLogs :: "int \<Rightarrow> int \<Rightarrow> panic + ('v, 'f) RecentLogs" where
  "NewRecentLogs maxCap n =
     (let maxEntries' = (if n \<le> 0 then 100 else n)
      in if maxEntries' > maxCap then Inl PanicMakeSliceCap
         else Inr \<lparr>entries = [], maxEntries = maxEntries', triggerFunc = None\<rparr>)"

definition SetTriggerFunc :: "'f option \<Rightarrow> ('v, 'f) RecentLogs \<Rightarrow> ('v, 'f) RecentLogs" where
  "SetTriggerFunc fn r = r\<lparr>triggerFunc := fn\<rparr>"

text \<open>
  \<open>Log\<close>: the panic on an empty context comes before the lock is taken and before anything
  is written. The slice expression \<open>r.entries[len(r.entries)-r.maxEntries:]\<close> panics when
  its low bound is outside \<open>0..len\<close>. The copy of the entry written to the process log
  (\<open>log.Printf\<close>) is not part of the ring and is left out.
\<close>

definition Log ::
  "gotime \<Rightarrow> LogLevel \<Rightarrow> string \<Rightarrow> 'v logContext \<Rightarrow> ('v, 'f) RecentLogs
     \<Rightarrow> panic + ('v, 'f) RecentLogs" where
  "Log now level message ctx r =
     (if len_context ctx = 0 then Inl PanicContextEmpty
      else
        let entry = \<lparr>Timestamp = UTC now, Level = level, Message = message, Context = ctx\<rparr>;
            es = entries r @ [entry]
        in if int (length es) > maxEntries r
           then (let lo = int (length es) - maxEntries r
                 in if lo < 0 \<or> lo > int (length es) then Inl PanicSliceBounds
                    else Inr (r\<lparr>entries := drop (nat lo) es\<rparr>))
           else Inr (r\<lparr>entries := es\<rparr>))"

text \<open>
  \<open>Error\<close> and \<open>Warn\<close> log and then call \<open>triggerFunc\<close> when it is set: the second component
  of the result is the callback that was called, if any.
\<close>

definition Error ::
  "gotime \<Rightarrow> string \<Rightarrow> 'v logContext \<Rightarrow> ('v, 'f) RecentLogs
     \<Rightarrow> panic + (('v, 'f) RecentLogs \<times> 'f option)" where
  "Error now message ctx r =
     (case Log now LevelError message ctx r of
        Inl p \<Rightarrow> Inl p
      | Inr r' \<Rightarrow> Inr (r', triggerFunc r'))"

definition Warn ::
  "gotime \<Rightarrow> string \<Rightarrow> 'v logContext \<Rightarrow> ('v, 'f) RecentLogs
     \<Rightarrow> panic + (('v, 'f) RecentLogs \<times> 'f option)" where
  "Warn now message ctx r =
     (case Log now LevelWarn message ctx r of
        Inl p \<Rightarrow> Inl p
      | Inr r' \<Rightarrow> Inr (r', triggerFunc r'))"

definition Info ::
  "gotime \<Rightarrow> string \<Rightarrow> 'v logContext \<Rightarrow> ('v, 'f) RecentLogs \<Rightarrow> panic + ('v, 'f) RecentLogs" where
  "Info now message ctx r = Log now LevelInfo message ctx r"

definition Debug ::
  "gotime \<Rightarrow> string \<Rightarrow> 'v logContext \<Rightarrow> ('v, 'f) RecentLogs \<Rightarrow> panic + ('v, 'f) RecentLogs" where
  "Debug now message ctx r = Log now LevelDebug message ctx r"

definition WarnNoTrigger ::
  "gotime \<Rightarrow> string \<Rightarrow> 'v logContext \<Rightarrow> ('v, 'f) RecentLogs \<Rightarrow> panic + ('v, 'f) RecentLogs" where
  "WarnNoTrigger now message ctx r = Log now LevelWarn message ctx r"

definition ErrorNoTrigger ::
  "gotime \<Rightarrow> string \<Rightarrow> 'v logContext \<Rightarrow> ('v, 'f) RecentLogs \<Rightarrow> panic + ('v, 'f) RecentLogs" where
  "ErrorNoTrigger now message ctx r = Log now LevelError message ctx r"

text \<open>
  A sequence of logging calls. Each call names the method, the message, the context and
  the clock reading. A call that panics has changed nothing, so a caller that recovers
  goes on with the ring as it was.
\<close>

datatype logMethod =
  MError | MWarn | MInfo | MDebug | MWarnNoTrigger | MErrorNoTrigger

record 'v logCall =
  callMethod :: logMethod
  callMessage :: string
  callContext :: "'v logContext"
  callTime :: gotime

definition levelOf :: "logMethod \<Rightarrow> LogLevel" where
  "levelOf m = (case m of
      MError \<Rightarrow> LevelError | MWarn \<Rightarrow> LevelWarn | MInfo \<Rightarrow> LevelInfo
    | MDebug \<Rightarrow> LevelDebug | MWarnNoTrigger \<Rightarrow> LevelWarn
    | MErrorNoTrigger \<Rightarrow> LevelError)"

definition callLog :: "'v logCall \<Rightarrow> ('v, 'f) RecentLogs \<Rightarrow> panic + ('v, 'f) RecentLogs" where
  "callLog c r = (case callMethod c of
      MError \<Rightarrow> map_sum id fst (Error (callTime c) (callMessage c) (callContext c) r)
    | MWarn \<Rightarrow> map_sum id fst (Warn (callTime c) (callMessage c) (callContext c) r)
    | MInfo \<Rightarrow> Info (callTime c) (callMessage c) (callContext c) r
    | MDebug \<Rightarrow> Debug (callTime c) (callMessage c) (callContext c) r
    | MWarnNoTrigger \<Rightarrow> WarnNoTrigger (callTime c) (callMessage c) (callContext c) r
    | MErrorNoTrigger \<Rightarrow> ErrorNoTrigger (callTime c) (callMessage c) (callContext c) r)"

fun callLogs :: "'v logCall list \<Rightarrow> ('v, 'f) RecentLogs \<Rightarrow> ('v, 'f) RecentLogs" where
  "callLogs [] r = r"
| "callLogs (c # cs) r =
     (case callLog c r of Inl p \<Rightarrow> callLogs cs r | Inr r' \<Rightarrow> callLogs cs r')"

text \<open>The entry a call records, and the calls that record one.\<close>

definition entryOf :: "'v logCall \<Rightarrow> 'v LogEntry" where
  "entryOf c =
     \<lparr>Timestamp = UTC (callTime c), Level = levelOf (callMethod c), Message = callMessage c, Context = callContext c\<rparr>"

definition accepted :: "'v logCall \<Rightarrow> bool" where
  "accepted c = (len_context (callContext c) \<noteq> 0)"

definition lastN :: "nat \<Rightarrow> 'a list \<Rightarrow> 'a list" where
  "lastN k xs = drop (length xs - k) xs"


section \<open>Update intervals (update.Interval)\<close>

text \<open>\<open>Interval\<close> is an integer type with three named values; any other value is invalid.\<close>

type_synonym Interval = int

definition Fast :: Interval where "Fast = 5"
definition Medium :: Interval where "Medium = 23"
definition Slow :: Interval where "Slow = 59"

definition Seconds :: "Interval \<Rightarrow> panic + int" where
  "Seconds i =
     (if i = Fast then Inr 5
      else if i = Medium then Inr 23
      else if i = Slow then Inr 59
      else Inl PanicInvalidInterval)"

section \<open>Components and the registry (component.Component, registry.Registry)\<close>

text \<open>
  The \<open>Data\<close> field of a component is an \<open>interface{}\<close>. The library puts two kinds of
  value there: the serialised bytes of a provider's value (\<open>json.RawMessage\<close>) and, for the
  heartbeat, a map from strings to strings.
\<close>

datatype componentData = RawMessage string | StringMap "(string \<times> string) list"

record Component =
  ID :: string
  Type :: string
  Checksum :: string
  Data :: componentData

text \<open>
  A provider is a Go function value of type \<open>func() interface{}\<close>. The model keeps
  providers as values of a type \<open>'p\<close>; what a call of the provider returns at the moment of
  the call, the JSON encoder and the hash function are inputs of the operations:
  \<^item> \<open>invoke p\<close> is the value \<open>p()\<close> returns now;
  \<^item> \<open>jsonMarshal d\<close> is \<open>json.Marshal(d)\<close>, \<open>None\<close> when it returns an error;
  \<^item> \<open>jsonMarshalData\<close> is \<open>json.Marshal\<close> on a component's \<open>Data\<close>;
  \<^item> \<open>sha256hex b\<close> is \<open>hex.EncodeToString(sha256.Sum256(b))\<close>.
\<close>

record ('p, 'd) env =
  invoke :: "'p \<Rightarrow> 'd"
  jsonMarshal :: "'d \<Rightarrow> string option"
  jsonMarshalData :: "componentData \<Rightarrow> string option"
  sha256hex :: "string \<Rightarrow> string"

record 'p ComponentConfig =
  provider :: 'p
  updateInterval :: "Interval option"

record CachedComponent =
  lastRawJSON :: string
  lastChecksum :: string
  lastComponent :: Component
  lastSync :: gotime
  lastUpdate :: gotime

record 'p Registry =
  ownEntityID :: string
  configs :: "string \<rightharpoonup> (string \<rightharpoonup> 'p ComponentConfig)"
  cache :: "string \<rightharpoonup> (string \<rightharpoonup> CachedComponent)"

datatype error =
    ErrEntityIDRequired
  | ErrComponentIDRequired
  | ErrProviderRequired
  | ErrAlreadyRegistered string string
  | ErrNotRegistered string string
  | ErrMarshal
  | ErrCollect string string error
  | ErrAlreadyRunning
  | ErrChecksumPhase error
  | ErrDataPhase error
  | ErrHTTPRequest string
  | ErrHTTPStatus int string
  | ErrDecode
  | ErrRequired string
  | ErrLoadKeyPair
  | ErrReadCA
  | ErrParseCA

text \<open>\<open>registry.New\<close> panics on an empty entity id.\<close>

datatype registryPanic = OwnEntityIDRequired

definition New :: "string \<Rightarrow> registryPanic + 'p Registry" where
  "New own =
     (if own = [] then Inl OwnEntityIDRequired
      else Inr \<lparr>ownEntityID = own, configs = Map.empty, cache = Map.empty\<rparr>)"

text \<open>
  \<open>m[e][c]\<close> on a nested map: reading through a missing (nil) inner map yields nil.
\<close>

definition lookup2 :: "('a \<rightharpoonup> ('b \<rightharpoonup> 'c)) \<Rightarrow> 'a \<Rightarrow> 'b \<Rightarrow> 'c option" where
  "lookup2 m e c = (case m e of None \<Rightarrow> None | Some inner \<Rightarrow> inner c)"

text \<open>
  \<open>RegisterForEntity\<close>. The provider argument is \<open>None\<close> for a nil function; the variadic
  \<open>updateInterval\<close> is the list of the values passed. The two inner maps of the entity are
  created, when missing, before the duplicate check, so they are created also when the
  call then fails on a duplicate.
\<close>

definition RegisterForEntity ::
  "string \<Rightarrow> string \<Rightarrow> 'p option \<Rightarrow> Interval list \<Rightarrow> 'p Registry
     \<Rightarrow> error option \<times> 'p Registry" where
  "RegisterForEntity entityID componentID prov intervals r =
     (if entityID = [] then (Some ErrEntityIDRequired, r)
      else if componentID = [] then (Some ErrComponentIDRequired, r)
      else case prov of
        None \<Rightarrow> (Some ErrProviderRequired, r)
      | Some p \<Rightarrow>
          let entityConfigs = (case configs r entityID of None \<Rightarrow> Map.empty | Some m \<Rightarrow> m);
              entityCache = (case cache r entityID of None \<Rightarrow> Map.empty | Some m \<Rightarrow> m);
              r' = r\<lparr>configs := (configs r)(entityID \<mapsto> entityConfigs),
                      cache := (cache r)(entityID \<mapsto> entityCache)\<rparr>
          in if entityConfigs componentID \<noteq> None
             then (Some (ErrAlreadyRegistered componentID entityID), r')
             else
               let intervalPtr = (case intervals of [] \<Rightarrow> None | i # _ \<Rightarrow> Some i)
               in (None,
                   r'\<lparr>configs := (configs r')(entityID \<mapsto>
                         entityConfigs(componentID \<mapsto>
                           \<lparr>provider = p, updateInterval = intervalPtr\<rparr>))\<rparr>))"

definition Register ::
  "string \<Rightarrow> 'p option \<Rightarrow> Interval list \<Rightarrow> 'p Registry \<Rightarrow> error option \<times> 'p Registry" where
  "Register componentID prov intervals r =
     RegisterForEntity (ownEntityID r) componentID prov intervals r"

text \<open>
  \<open>Collect\<close> (named \<open>Collect_component\<close> here). The result holds what is returned (an error or the component), the registry
  afterwards, and the byte strings that were given to SHA-256 during the call, in order.
  When the entity has no inner cache map, the cached entry reads as nil and the assignment
  \<open>r.cache[entityID][componentID] = ...\<close> panics.
\<close>

record 'p collected =
  returned :: "error + Component"
  registryAfter :: "'p Registry"
  hashed :: "string list"

text \<open>The branch of \<open>Collect\<close> taken when the data changed (or was never cached).\<close>

definition recompute ::
  "('p, 'd) env \<Rightarrow> gotime \<Rightarrow> string \<Rightarrow> string \<Rightarrow> string \<Rightarrow> gotime \<Rightarrow> 'p Registry
     \<Rightarrow> (string \<rightharpoonup> CachedComponent) \<Rightarrow> 'p collected" where
  "recompute E now entityID componentID jsonData keptSync r entityCache =
     (let checksum = sha256hex E jsonData;
          comp = \<lparr>ID = componentID, Type = componentID, Checksum = checksum,
                  Data = RawMessage jsonData\<rparr>
      in \<lparr>returned = Inr comp,
          registryAfter = r\<lparr>cache := (cache r)(entityID \<mapsto>
            entityCache(componentID \<mapsto>
              \<lparr>lastRawJSON = jsonData, lastChecksum = checksum, lastComponent = comp,
               lastSync = keptSync, lastUpdate = now\<rparr>))\<rparr>,
          hashed = [jsonData]\<rparr>)"

definition Collect_component ::
  "('p, 'd) env \<Rightarrow> gotime \<Rightarrow> string \<Rightarrow> string \<Rightarrow> 'p Registry \<Rightarrow> panic + 'p collected" where
  "Collect_component E now entityID componentID r =
     (case lookup2 (configs r) entityID componentID of
        None \<Rightarrow>
          Inr \<lparr>returned = Inl (ErrNotRegistered componentID entityID),
               registryAfter = r, hashed = []\<rparr>
      | Some config \<Rightarrow>
          let data = invoke E (provider config)
          in (case jsonMarshal E data of
            None \<Rightarrow> Inr \<lparr>returned = Inl ErrMarshal, registryAfter = r, hashed = []\<rparr>
          | Some jsonData \<Rightarrow>
              (case cache r entityID of
                 None \<Rightarrow> Inl PanicNilMap
               | Some entityCache \<Rightarrow>
                   (case entityCache componentID of
                      None \<Rightarrow>
                        Inr (recompute E now entityID componentID jsonData zeroTime r entityCache)
                    | Some cached \<Rightarrow>
                        if lastRawJSON cached = jsonData
                        then Inr \<lparr>returned = Inr (lastComponent cached),
                                  registryAfter = r\<lparr>cache := (cache r)(entityID \<mapsto>
                                    entityCache(componentID \<mapsto> cached\<lparr>lastUpdate := now\<rparr>))\<rparr>,
                                  hashed = []\<rparr>
                        else Inr (recompute E now entityID componentID jsonData
                                    (lastSync cached) r entityCache)))))"

text \<open>
  Every inner config map has its inner cache map: \<open>RegisterForEntity\<close> creates both, and
  nothing removes either.
\<close>

definition wfRegistry :: "'p Registry \<Rightarrow> bool" where
  "wfRegistry r = (\<forall>e. configs r e \<noteq> None \<longrightarrow> cache r e \<noteq> None)"


text \<open>
  \<open>GetDueComponents\<close>, \<open>GetNextUpdateTime\<close> and \<open>GetAllRegistered\<close> range over the
  registry's maps, in an order Go leaves unspecified. The model takes the order of the
  visit as an input: \<open>keys\<close> lists the (entity, component) pairs in the order visited.
  \<open>Seconds\<close> is called for every pair that has an interval, before the cache is looked at.
\<close>

fun GetDueComponents ::
  "gotime \<Rightarrow> (string \<times> string) list \<Rightarrow> 'p Registry \<Rightarrow> panic + (string \<times> string) list" where
  "GetDueComponents now [] r = Inr []"
| "GetDueComponents now ((entityID, componentID) # keys) r =
     (case lookup2 (configs r) entityID componentID of
        None \<Rightarrow> GetDueComponents now keys r
      | Some config \<Rightarrow>
          (case updateInterval config of
             None \<Rightarrow> GetDueComponents now keys r
           | Some i \<Rightarrow>
               (case Seconds i of
                  Inl p \<Rightarrow> Inl p
                | Inr secs \<Rightarrow>
                    let maxAge = secs * Second;
                        due = (case lookup2 (cache r) entityID componentID of
                                 None \<Rightarrow> True
                               | Some cached \<Rightarrow> Sub now (lastUpdate cached) \<ge> maxAge)
                    in (case GetDueComponents now keys r of
                          Inl p \<Rightarrow> Inl p
                        | Inr rest \<Rightarrow>
                            Inr (if due then (entityID, componentID) # rest else rest)))))"

fun nextUpdateFrom ::
  "gotime \<Rightarrow> (string \<times> string) list \<Rightarrow> 'p Registry \<Rightarrow> gotime \<Rightarrow> panic + gotime" where
  "nextUpdateFrom now [] r nextUpdate = Inr nextUpdate"
| "nextUpdateFrom now ((entityID, componentID) # keys) r nextUpdate =
     (case lookup2 (configs r) entityID componentID of
        None \<Rightarrow> nextUpdateFrom now keys r nextUpdate
      | Some config \<Rightarrow>
          (case updateInterval config of
             None \<Rightarrow> nextUpdateFrom now keys r nextUpdate
           | Some i \<Rightarrow>
               (case Seconds i of
                  Inl p \<Rightarrow> Inl p
                | Inr secs \<Rightarrow>
                    let maxAge = secs * Second;
                        componentNextUpdate =
                          (case lookup2 (cache r) entityID componentID of
                             None \<Rightarrow> now
                           | Some cached \<Rightarrow>
                               if IsZero (lastUpdate cached) then now
                               else Add (lastUpdate cached) maxAge)
                    in nextUpdateFrom now keys r
                         (if IsZero nextUpdate \<or> Before componentNextUpdate nextUpdate
                          then componentNextUpdate else nextUpdate))))"

definition GetNextUpdateTime ::
  "gotime \<Rightarrow> (string \<times> string) list \<Rightarrow> 'p Registry \<Rightarrow> panic + gotime" where
  "GetNextUpdateTime now keys r = nextUpdateFrom now keys r zeroTime"

section \<open>The connectivity tracker (standard.ConnectivityTracker)\<close>

record ConnectionCall =
  CallTimestamp :: gotime
  CallSuccess :: bool
  CallLatency :: int
  CallErrorText :: string

record Connection =
  connService :: string
  connURL :: string
  calls :: "ConnectionCall list"

record ConnectivityTracker =
  connections :: "string \<rightharpoonup> Connection"

definition NewConnectivityTracker :: ConnectivityTracker where
  "NewConnectivityTracker = \<lparr>connections = Map.empty\<rparr>"

definition getOrCreateConnection ::
  "string \<Rightarrow> string \<Rightarrow> ConnectivityTracker \<Rightarrow> Connection \<times> ConnectivityTracker" where
  "getOrCreateConnection service url t =
     (case connections t service of
        Some conn \<Rightarrow> (conn, t)
      | None \<Rightarrow>
          let conn = \<lparr>connService = service, connURL = url, calls = []\<rparr>
          in (conn, t\<lparr>connections := (connections t)(service \<mapsto> conn)\<rparr>))"

text \<open>
  \<open>pruneOldCalls\<close> keeps the calls from the first one that is younger than an hour on.
\<close>

definition pruneOldCalls :: "gotime \<Rightarrow> ConnectionCall list \<Rightarrow> ConnectionCall list" where
  "pruneOldCalls now cs =
     (let oneHourAgo = Add now (- 1 * Hour)
      in dropWhile (\<lambda>call. \<not> After (CallTimestamp call) oneHourAgo) cs)"

definition TrackSuccess ::
  "gotime \<Rightarrow> string \<Rightarrow> string \<Rightarrow> int \<Rightarrow> ConnectivityTracker \<Rightarrow> ConnectivityTracker" where
  "TrackSuccess now service url latency t =
     (let (conn, t') = getOrCreateConnection service url t;
          cs = calls conn @
                 [\<lparr>CallTimestamp = UTC now, CallSuccess = True, CallLatency = latency,
                   CallErrorText = []\<rparr>]
      in t'\<lparr>connections := (connections t')(service \<mapsto> conn\<lparr>calls := pruneOldCalls now cs\<rparr>)\<rparr>)"

definition TrackFailure ::
  "gotime \<Rightarrow> string \<Rightarrow> string \<Rightarrow> int \<Rightarrow> string \<Rightarrow> ConnectivityTracker
     \<Rightarrow> ConnectivityTracker" where
  "TrackFailure now service url latency errorMsg t =
     (let (conn, t') = getOrCreateConnection service url t;
          cs = calls conn @
                 [\<lparr>CallTimestamp = UTC now, CallSuccess = False, CallLatency = latency,
                   CallErrorText = errorMsg\<rparr>]
      in t'\<lparr>connections := (connections t')(service \<mapsto> conn\<lparr>calls := pruneOldCalls now cs\<rparr>)\<rparr>)"

text \<open>
  \<open>GetData\<close> builds one map per connection that has calls. The model gives the fields of
  that map that are strings and counts; the success rate, the latency percentiles and
  the status derived from them are floating-point values and are left out.
\<close>

record connectionData =
  service_field :: string
  url_field :: string
  last_call :: string
  total_calls_1h :: int
  recent_errors :: "string list"

definition lastCallOf :: "ConnectionCall list \<Rightarrow> gotime" where
  "lastCallOf cs =
     foldl (\<lambda>lastCall call.
              if After (CallTimestamp call) lastCall then CallTimestamp call else lastCall)
       zeroTime cs"

definition recentErrorsOf :: "ConnectionCall list \<Rightarrow> string list" where
  "recentErrorsOf cs =
     foldl (\<lambda>recentErrors call.
              if CallSuccess call then recentErrors
              else if length recentErrors < 5 then recentErrors @ [CallErrorText call]
              else recentErrors)
       [] cs"

definition connectionGetData :: "Connection \<Rightarrow> connectionData option" where
  "connectionGetData conn =
     (if length (calls conn) = 0 then None
      else Some \<lparr>service_field = connService conn,
                 url_field = connURL conn,
                 last_call = Format RFC3339 (lastCallOf (calls conn)),
                 total_calls_1h = int (length (calls conn)),
                 recent_errors = recentErrorsOf (calls conn)\<rparr>)"

section \<open>The certificate monitor (standard.CertificateMonitor)\<close>

record CertificateInfo =
  Path :: string
  Purpose :: string
  Subject :: string
  Issuer :: string
  ValidFrom :: gotime
  ValidUntil :: gotime
  DaysUntilExpiry :: int
  SANs :: "string list"
  IsExpired :: bool
  ExpiryWarning :: bool

text \<open>The map \<open>GetData\<close> builds for one certificate.\<close>

record certificateData =
  path_field :: string
  purpose_field :: string
  subject_field :: string
  issuer_field :: string
  valid_from :: string
  valid_until :: string
  days_until_expiry :: int
  sans_field :: "string list"
  is_expired :: bool
  expiry_warning :: bool

definition certificateGetData :: "CertificateInfo \<Rightarrow> certificateData" where
  "certificateGetData info =
     \<lparr>path_field = Path info,
      purpose_field = Purpose info,
      subject_field = Subject info,
      issuer_field = Issuer info,
      valid_from = Format RFC3339 (ValidFrom info),
      valid_until = Format RFC3339 (ValidUntil info),
      days_until_expiry = DaysUntilExpiry info,
      sans_field = SANs info,
      is_expired = IsExpired info,
      expiry_warning = ExpiryWarning info\<rparr>"

text \<open>
  A log entry reaches the wire through \<open>json.Marshal\<close> of the value \<open>RecentLogs.GetData\<close>
  returns; its \<open>Timestamp\<close> field is a \<open>time.Time\<close>, which \<open>Time.MarshalJSON\<close> encodes.
\<close>

definition logEntryTimestampJSON :: "'v LogEntry \<Rightarrow> string" where
  "logEntryTimestampJSON e = Format RFC3339Nano (Timestamp e)"

section \<open>The transport (transport.BuildHTTP2Client)\<close>

text \<open>
  The file system and the parsers of the standard library are inputs:
  \<^item> \<open>statOK p\<close>: \<open>os.Stat(p)\<close> returns no error;
  \<^item> \<open>readFile p\<close>: the contents \<open>os.ReadFile(p)\<close> returns, \<open>None\<close> on an error;
  \<^item> \<open>loadX509KeyPair c k\<close>: the certificate \<open>tls.LoadX509KeyPair\<close> returns;
  \<^item> \<open>appendCertsFromPEM b\<close>: the pool that holds the certificates parsed from \<open>b\<close>,
    \<open>None\<close> when \<open>AppendCertsFromPEM\<close> returns false.
\<close>

record ('k, 'pool) filesystem =
  statOK :: "string \<Rightarrow> bool"
  readFile :: "string \<Rightarrow> string option"
  loadX509KeyPair :: "string \<Rightarrow> string \<Rightarrow> 'k option"
  appendCertsFromPEM :: "string \<Rightarrow> 'pool option"

definition VersionTLS13 :: int where
  "VersionTLS13 = 772"

record ('k, 'pool) httpClient =
  Certificates :: "'k list"
  RootCAs :: "'pool"
  MinVersion :: int
  MaxVersion :: int

definition BuildHTTP2Client ::
  "('k, 'pool) filesystem \<Rightarrow> string \<Rightarrow> string \<Rightarrow> string \<Rightarrow> error + ('k, 'pool) httpClient" where
  "BuildHTTP2Client fs certPath keyPath caPath =
     (if certPath = [] then Inl (ErrRequired ''certPath'')
      else if keyPath = [] then Inl (ErrRequired ''keyPath'')
      else if caPath = [] then Inl (ErrRequired ''caPath'')
      else
        let caDir = ''/certs'';
            caChainPath = caDir @ ''/ca-chain.cert.pem'';
            actualCAPath = (if statOK fs caChainPath then caChainPath else caPath)
        in (case loadX509KeyPair fs certPath keyPath of
              None \<Rightarrow> Inl ErrLoadKeyPair
            | Some clientCert \<Rightarrow>
                (case readFile fs actualCAPath of
                   None \<Rightarrow> Inl ErrReadCA
                 | Some caCert \<Rightarrow>
                     (case appendCertsFromPEM fs caCert of
                        None \<Rightarrow> Inl ErrParseCA
                      | Some caCertPool \<Rightarrow>
                          Inr \<lparr>Certificates = [clientCert], RootCAs = caCertPool,
                               MinVersion = VersionTLS13, MaxVersion = VersionTLS13\<rparr>))))"

section \<open>Configuration (introspection.Config)\<close>

record Config =
  ServiceName :: string
  Version :: string
  Port :: int
  Server :: string
  IntrospectionURL :: string
  CertPath :: string
  KeyPath :: string
  CAPath :: string
  CertDir :: string

definition Validate :: "Config \<Rightarrow> error option" where
  "Validate c =
     (if ServiceName c = [] then Some (ErrRequired ''ServiceName'')
      else if Version c = [] then Some (ErrRequired ''Version'')
      else if Port c \<le> 0 then Some (ErrRequired ''Port'')
      else if Server c = [] then Some (ErrRequired ''Server'')
      else if IntrospectionURL c = [] then Some (ErrRequired ''IntrospectionURL'')
      else if CertPath c = [] then Some (ErrRequired ''CertPath'')
      else if KeyPath c = [] then Some (ErrRequired ''KeyPath'')
      else if CAPath c = [] then Some (ErrRequired ''CAPath'')
      else if CertDir c = [] then Some (ErrRequired ''CertDir'')
      else None)"

text \<open>
  The transport that \<open>introspection.New\<close> builds for a configuration: the call passes the
  certificate, key and CA paths.
\<close>

definition transportOf ::
  "('k, 'pool) filesystem \<Rightarrow> Config \<Rightarrow> error + ('k, 'pool) httpClient" where
  "transportOf fs c = BuildHTTP2Client fs (CertPath c) (KeyPath c) (CAPath c)"


section \<open>The client engine (introspection.Client)\<close>

definition HeartbeatIntervalSec :: int where
  "HeartbeatIntervalSec = 59"

text \<open>The values the library puts into the context of its own log entries.\<close>

datatype logValue = LString string | LInt int | LError error | LDuration int

text \<open>
  The providers of the four standard components are closures over the client's parts;
  \<open>Custom\<close> is a provider registered by the service. The closure registered for
  \<open>certificates\<close> scans the certificate directory before it returns the monitor's data,
  and logs with \<open>c.logs.Warn\<close> when the scan fails: one more \<open>Warn\<close> of the client's own
  that calls the logs' callback. \<open>invoke\<close> gives the data a provider returns; the runs
  below are ones in which the scan succeeds.
\<close>

datatype 'q provider =
    ServiceInfoGetData
  | RecentLogsGetData
  | ConnectivityGetData
  | CertificatesScanGetData
  | Custom 'q

text \<open>
  A \<open>*time.Timer\<close> is armed with the instant at which it fires, or idle (stopped, or
  fired and not reset). The pointer is \<open>None\<close> while nil.
\<close>

datatype timer = Armed gotime | Idle

text \<open>
  \<open>triggerSync\<close> and \<open>triggerSyncFromLogs\<close> run on goroutines of their own (\<open>go ...\<close>) or
  at the end of one; an operation that starts one records it in \<open>launched\<close>. A run of
  the client (\<open>runClient\<close>, below) runs the body of every \<open>triggerSyncFromLogs\<close> that a
  step has launched; the sync that a launched \<open>triggerSync\<close> starts needs the inputs of its
  attempts and is a step of the run.
\<close>

datatype launch = TriggerSync string | TriggerSyncFromLogs

record post =
  postURL :: string
  postBody :: string

text \<open>
  The client. Beside the fields of the Go struct, the record keeps what the client has
  done to the outside: the goroutines launched, the HTTP POSTs issued and the durations
  slept, each in order. \<open>stopChanClosed\<close> tells whether \<open>stopChan\<close> has been closed.
\<close>

record 'q Client =
  config :: Config
  entityID :: string
  registry :: "'q provider Registry"
  http :: "(string, string) httpClient"
  logs :: "(logValue, unit) RecentLogs"
  connectivity :: ConnectivityTracker
  certMonitorDir :: string
  running :: bool
  stopChanClosed :: bool
  idleSince :: gotime
  heartbeatTimer :: "timer option"
  updateTimer :: "timer option"
  backoffIndex :: int
  syncPending :: bool
  launched :: "launch list"
  posts :: "post list"
  slept :: "int list"

definition launchIt :: "launch \<Rightarrow> 'q Client \<Rightarrow> 'q Client" where
  "launchIt g c = c\<lparr>launched := launched c @ [g]\<rparr>"

text \<open>
  \<open>registerStandardComponents\<close>: four registrations, and the trigger callback of the logs,
  which is \<open>func() { go c.triggerSyncFromLogs() }\<close>.
\<close>

definition registerStandardComponents :: "'q Client \<Rightarrow> error option \<times> 'q Client" where
  "registerStandardComponents c =
     (case Register ''service-info'' (Some ServiceInfoGetData) [] (registry c) of
        (Some err, r1) \<Rightarrow> (Some err, c\<lparr>registry := r1\<rparr>)
      | (None, r1) \<Rightarrow>
     (case Register ''recent-logs'' (Some RecentLogsGetData) [Slow] r1 of
        (Some err, r2) \<Rightarrow> (Some err, c\<lparr>registry := r2\<rparr>)
      | (None, r2) \<Rightarrow>
     (let l = SetTriggerFunc (Some ()) (logs c)
      in case Register ''inter-service-connectivity'' (Some ConnectivityGetData) [Slow] r2 of
        (Some err, r3) \<Rightarrow> (Some err, c\<lparr>registry := r3, logs := l\<rparr>)
      | (None, r3) \<Rightarrow>
     (case Register ''certificates'' (Some CertificatesScanGetData) [] r3 of
        (Some err, r4) \<Rightarrow> (Some err, c\<lparr>registry := r4, logs := l\<rparr>)
      | (None, r4) \<Rightarrow> (None, c\<lparr>registry := r4, logs := l\<rparr>)))))"

text \<open>
  \<open>introspection.New\<close>, named \<open>NewClient\<close> here (\<open>New\<close> is the registry's). It can panic in
  the registry's constructor and in the allocation of the ring of logs (\<open>maxCap\<close> is the
  limit of that allocation), so the panic it returns is one of the two kinds.
\<close>

definition NewClient ::
  "int \<Rightarrow> (string, string) filesystem \<Rightarrow> gotime \<Rightarrow> Config
     \<Rightarrow> (registryPanic + panic) + (error + 'q Client)" where
  "NewClient maxCap fs now cfg =
     (case Validate cfg of
        Some err \<Rightarrow> Inr (Inl err)
      | None \<Rightarrow>
          let ident = ServiceName cfg @ ''-'' @ Server cfg
          in (case New ident of
                Inl p \<Rightarrow> Inl (Inl p)
              | Inr reg \<Rightarrow>
                  (case BuildHTTP2Client fs (CertPath cfg) (KeyPath cfg) (CAPath cfg) of
                     Inl err \<Rightarrow> Inr (Inl err)
                   | Inr httpClient \<Rightarrow>
                       (case NewRecentLogs maxCap 100 of
                          Inl p \<Rightarrow> Inl (Inr p)
                        | Inr ring \<Rightarrow>
                            let client =
                              \<lparr>config = cfg, entityID = ident, registry = reg, http = httpClient,
                               logs = ring, connectivity = NewConnectivityTracker,
                               certMonitorDir = CertDir cfg, running = False,
                               stopChanClosed = False, idleSince = now, heartbeatTimer = None,
                               updateTimer = None, backoffIndex = 0, syncPending = False,
                               launched = [], posts = [], slept = []\<rparr>
                            in (case registerStandardComponents client of
                                  (Some err, c') \<Rightarrow> Inr (Inl err)
                                | (None, c') \<Rightarrow> Inr (Inr c'))))))"

subsection \<open>Heartbeat system\<close>

definition resetHeartbeatTimer :: "gotime \<Rightarrow> 'q Client \<Rightarrow> 'q Client" where
  "resetHeartbeatTimer now c =
     (let interval = HeartbeatIntervalSec * Second
      in case heartbeatTimer c of
           None \<Rightarrow> c
         | Some t \<Rightarrow> c\<lparr>heartbeatTimer := Some (Armed (Add now interval))\<rparr>)"

definition triggerSyncFromLogs :: "gotime \<Rightarrow> 'q Client \<Rightarrow> 'q Client" where
  "triggerSyncFromLogs now c =
     launchIt (TriggerSync ''logs:error-or-warn'')
       (resetHeartbeatTimer now (c\<lparr>idleSince := now\<rparr>))"

definition TriggerUpdateForEntity ::
  "('q provider, 'd) env \<Rightarrow> gotime \<Rightarrow> string \<Rightarrow> string \<Rightarrow> 'q Client
     \<Rightarrow> panic + (error option \<times> 'q Client)" where
  "TriggerUpdateForEntity E now ent componentID c =
     (case Collect_component E now ent componentID (registry c) of
        Inl p \<Rightarrow> Inl p
      | Inr res \<Rightarrow>
          let c1 = c\<lparr>registry := registryAfter res\<rparr>
          in (case returned res of
                Inl err \<Rightarrow> Inr (Some (ErrCollect ent componentID err), c1)
              | Inr collected \<Rightarrow>
                  Inr (None,
                       launchIt (TriggerSync (''trigger:'' @ componentID))
                         (resetHeartbeatTimer now (c1\<lparr>idleSince := now\<rparr>)))))"

definition TriggerUpdate ::
  "('q provider, 'd) env \<Rightarrow> gotime \<Rightarrow> string \<Rightarrow> 'q Client
     \<Rightarrow> panic + (error option \<times> 'q Client)" where
  "TriggerUpdate E now componentID c = TriggerUpdateForEntity E now (entityID c) componentID c"

text \<open>
  \<open>onHeartbeatFire\<close>: the comment in the source says that the heartbeat does not reset
  \<open>idle_since\<close>. \<open>Reset\<close> on a nil timer dereferences a nil pointer.
\<close>

definition onHeartbeatFire :: "gotime \<Rightarrow> 'q Client \<Rightarrow> panic + 'q Client" where
  "onHeartbeatFire now c =
     (if \<not> running c then Inr c
      else
        let c1 = launchIt (TriggerSync ''heartbeat-timer'') c;
            interval = HeartbeatIntervalSec * Second
        in (case heartbeatTimer c1 of
              None \<Rightarrow> Inl PanicNilPointer
            | Some t \<Rightarrow> Inr (c1\<lparr>heartbeatTimer := Some (Armed (Add now interval))\<rparr>)))"

subsection \<open>Update system\<close>

definition scheduleNextUpdate ::
  "gotime \<Rightarrow> (string \<times> string) list \<Rightarrow> 'q Client \<Rightarrow> panic + 'q Client" where
  "scheduleNextUpdate now keys c =
     (case GetNextUpdateTime now keys (registry c) of
        Inl p \<Rightarrow> Inl p
      | Inr nextUpdate \<Rightarrow>
          if IsZero nextUpdate then Inr c
          else
            let duration = Sub nextUpdate now;
                duration' = (if duration < 0 then 0 else duration)
            in Inr (c\<lparr>updateTimer := Some (Armed (Add now duration'))\<rparr>))"

text \<open>The loop of \<open>onUpdateTimerFire\<close> over the due components; a failed collect is only
  printed.\<close>

fun collectDue ::
  "('p, 'd) env \<Rightarrow> gotime \<Rightarrow> (string \<times> string) list \<Rightarrow> 'p Registry \<Rightarrow> panic + 'p Registry" where
  "collectDue E now [] r = Inr r"
| "collectDue E now ((ent, componentID) # due) r =
     (case Collect_component E now ent componentID r of
        Inl p \<Rightarrow> Inl p
      | Inr res \<Rightarrow> collectDue E now due (registryAfter res))"

definition onUpdateTimerFire ::
  "('q provider, 'd) env \<Rightarrow> gotime \<Rightarrow> (string \<times> string) list \<Rightarrow> 'q Client
     \<Rightarrow> panic + 'q Client" where
  "onUpdateTimerFire E now keys c =
     (if \<not> running c then Inr c
      else
        case GetDueComponents now keys (registry c) of
          Inl p \<Rightarrow> Inl p
        | Inr dueComponents \<Rightarrow>
            if length dueComponents > 0
            then (case collectDue E now dueComponents (registry c) of
                    Inl p \<Rightarrow> Inl p
                  | Inr r' \<Rightarrow>
                      scheduleNextUpdate now keys
                        (launchIt (TriggerSync ''update-timer'') (c\<lparr>registry := r'\<rparr>)))
            else scheduleNextUpdate now keys c)"

subsection \<open>Start and stop\<close>

definition Start ::
  "gotime \<Rightarrow> (string \<times> string) list \<Rightarrow> 'q Client \<Rightarrow> panic + (error option \<times> 'q Client)" where
  "Start now keys c =
     (if running c then Inr (Some ErrAlreadyRunning, c)
      else
        let c1 = c\<lparr>running := True\<rparr>;
            interval = HeartbeatIntervalSec * Second;
            c2 = c1\<lparr>heartbeatTimer := Some (Armed (Add now interval))\<rparr>
        in (case scheduleNextUpdate now keys c2 of
              Inl p \<Rightarrow> Inl p
            | Inr c3 \<Rightarrow>
                (case Info now ''Introspection client started''
                        (Some [(''heartbeat_interval_sec'', LInt HeartbeatIntervalSec)]) (logs c3) of
                   Inl p \<Rightarrow> Inl p
                 | Inr l \<Rightarrow> Inr (None, c3\<lparr>logs := l\<rparr>))))"

definition stopTimer :: "timer option \<Rightarrow> timer option" where
  "stopTimer t = (case t of None \<Rightarrow> None | Some x \<Rightarrow> Some Idle)"

definition Stop :: "gotime \<Rightarrow> 'q Client \<Rightarrow> panic + 'q Client" where
  "Stop now c =
     (if \<not> running c then Inr c
      else
        let c1 = c\<lparr>running := False\<rparr>
        in if stopChanClosed c1 then Inl PanicCloseOfClosedChannel
           else
             let c2 = c1\<lparr>stopChanClosed := True,
                        heartbeatTimer := stopTimer (heartbeatTimer c1),
                        updateTimer := stopTimer (updateTimer c1)\<rparr>
             in (case Info now ''Introspection client stopped''
                        (Some [(''entity_id'', LString (entityID c2))]) (logs c2) of
                   Inl p \<Rightarrow> Inl p
                 | Inr l \<Rightarrow> Inr (c2\<lparr>logs := l\<rparr>)))"


subsection \<open>Three-phase sync\<close>

text \<open>
  The registrar and the JSON codec of the payloads are inputs of a sync attempt:
  \<^item> \<open>marshalChecksums\<close> and \<open>marshalComponents\<close> are \<open>json.Marshal\<close> on the two payloads
    (service, server, and the checksums or the components), \<open>None\<close> on an error;
  \<^item> \<open>httpPost url body\<close> is what \<open>c.http.Post\<close> yields, with the latency measured;
  \<^item> \<open>decodeNeeded body\<close> is the \<open>needed\<close> map the response body decodes to, as the list
    of its bindings in the order the data phase visits them, \<open>None\<close> when decoding fails.
\<close>

datatype httpResult = TransportError string | Response int string

type_synonym checksumTable = "string \<rightharpoonup> (string \<rightharpoonup> string)"

record wire =
  marshalChecksums :: "string \<times> string \<times> checksumTable \<Rightarrow> string option"
  marshalComponents :: "string \<times> string \<times> (string \<rightharpoonup> Component list) \<Rightarrow> string option"
  httpPost :: "string \<Rightarrow> string \<Rightarrow> httpResult \<times> int"
  decodeNeeded :: "string \<Rightarrow> (string \<times> string list) list option"

definition StatusOK :: int where
  "StatusOK = 200"

text \<open>\<open>c.logs.Warn\<close> from inside the client: the callback, when set, starts
  \<open>triggerSyncFromLogs\<close> on a goroutine.\<close>

definition logsWarn ::
  "gotime \<Rightarrow> string \<Rightarrow> logValue logContext \<Rightarrow> 'q Client \<Rightarrow> panic + 'q Client" where
  "logsWarn now msg ctx c =
     (case Warn now msg ctx (logs c) of
        Inl p \<Rightarrow> Inl p
      | Inr (l, called) \<Rightarrow>
          Inr (case called of
                 None \<Rightarrow> c\<lparr>logs := l\<rparr>
               | Some f \<Rightarrow> launchIt TriggerSyncFromLogs (c\<lparr>logs := l\<rparr>)))"

definition logsErrorNoTrigger ::
  "gotime \<Rightarrow> string \<Rightarrow> logValue logContext \<Rightarrow> 'q Client \<Rightarrow> panic + 'q Client" where
  "logsErrorNoTrigger now msg ctx c =
     (case ErrorNoTrigger now msg ctx (logs c) of
        Inl p \<Rightarrow> Inl p
      | Inr l \<Rightarrow> Inr (c\<lparr>logs := l\<rparr>))"

text \<open>\<open>component.New\<close>: the error of \<open>json.Marshal\<close> is dropped, the bytes are then nil.\<close>

definition NewComponent :: "('p, 'd) env \<Rightarrow> string \<Rightarrow> componentData \<Rightarrow> Component" where
  "NewComponent E componentType d =
     (let jsonData = (case jsonMarshalData E d of None \<Rightarrow> [] | Some b \<Rightarrow> b);
          checksum = sha256hex E jsonData
      in \<lparr>ID = componentType, Type = componentType, Checksum = checksum, Data = d\<rparr>)"

text \<open>Phase 1, inner loop: the components of one entity, into that entity's fresh map.\<close>

fun collectChecksums ::
  "('q provider, 'd) env \<Rightarrow> gotime \<Rightarrow> string \<Rightarrow> string list \<Rightarrow> 'q Client
     \<Rightarrow> (string \<rightharpoonup> string) \<Rightarrow> panic + ('q Client \<times> (string \<rightharpoonup> string))" where
  "collectChecksums E now ent [] c sums = Inr (c, sums)"
| "collectChecksums E now ent (componentID # componentIDs) c sums =
     (case Collect_component E now ent componentID (registry c) of
        Inl p \<Rightarrow> Inl p
      | Inr res \<Rightarrow>
          let c1 = c\<lparr>registry := registryAfter res\<rparr>
          in (case returned res of
                Inl err \<Rightarrow>
                  (case logsWarn now ''Failed to collect component for update check''
                          (Some [(''entity_id'', LString ent),
                                 (''component_id'', LString componentID),
                                 (''error'', LError err)]) c1 of
                     Inl p \<Rightarrow> Inl p
                   | Inr c2 \<Rightarrow> collectChecksums E now ent componentIDs c2 sums)
              | Inr collected \<Rightarrow>
                  collectChecksums E now ent componentIDs c1
                    (sums(componentID \<mapsto> Checksum collected))))"

text \<open>Phase 1, outer loop, over the entities \<open>GetAllRegistered\<close> returns.\<close>

fun collectAllChecksums ::
  "('q provider, 'd) env \<Rightarrow> gotime \<Rightarrow> (string \<times> string list) list \<Rightarrow> 'q Client
     \<Rightarrow> checksumTable \<Rightarrow> panic + ('q Client \<times> checksumTable)" where
  "collectAllChecksums E now [] c checksums = Inr (c, checksums)"
| "collectAllChecksums E now ((ent, componentIDs) # rest) c checksums =
     (case collectChecksums E now ent componentIDs c Map.empty of
        Inl p \<Rightarrow> Inl p
      | Inr (c1, sums) \<Rightarrow> collectAllChecksums E now rest c1 (checksums(ent \<mapsto> sums)))"

definition showInt :: "int \<Rightarrow> string" where
  "showInt n = appendInt n 0"

text \<open>
  \<open>sendChecksums\<close>. Every POST that is issued is appended to \<open>posts\<close>. The clock readings
  within one sync attempt are all taken as the instant \<open>now\<close> of the attempt.
\<close>

definition sendChecksums ::
  "wire \<Rightarrow> gotime \<Rightarrow> string \<times> string \<times> checksumTable \<Rightarrow> 'q Client
     \<Rightarrow> panic + ((error + (string \<times> string list) list) \<times> 'q Client)" where
  "sendChecksums W now payload c =
     (let url = IntrospectionURL (config c) @ ''/sync/checksums''
      in case marshalChecksums W payload of
        None \<Rightarrow> Inr (Inl ErrMarshal, c)
      | Some jsonData \<Rightarrow>
          let (resp, latency) = httpPost W url jsonData;
              c1 = c\<lparr>posts := posts c @ [\<lparr>postURL = url, postBody = jsonData\<rparr>]\<rparr>
          in (case resp of
                TransportError e \<Rightarrow>
                  let c2 = c1\<lparr>connectivity := TrackFailure now ''introspection''
                             (IntrospectionURL (config c1)) latency e (connectivity c1)\<rparr>
                  in (case logsErrorNoTrigger now ''Introspection sync failed''
                            (Some [(''phase'', LString ''checksums''), (''error'', LString e),
                                   (''latency_ms'', LInt (latency div 1000000))]) c2 of
                        Inl p \<Rightarrow> Inl p
                      | Inr c3 \<Rightarrow> Inr (Inl (ErrHTTPRequest e), c3))
              | Response status body \<Rightarrow>
                  if status \<noteq> StatusOK
                  then
                    let errorMsg = ''HTTP '' @ showInt status @ '': '' @ body;
                        c2 = c1\<lparr>connectivity := TrackFailure now ''introspection''
                               (IntrospectionURL (config c1)) latency errorMsg (connectivity c1)\<rparr>
                    in (case logsErrorNoTrigger now ''Introspection sync failed''
                              (Some [(''phase'', LString ''checksums''), (''status'', LInt status),
                                     (''error'', LString body),
                                     (''latency_ms'', LInt (latency div 1000000))]) c2 of
                          Inl p \<Rightarrow> Inl p
                        | Inr c3 \<Rightarrow> Inr (Inl (ErrHTTPStatus status body), c3))
                  else
                    (case decodeNeeded W body of
                       None \<Rightarrow>
                         let c2 = c1\<lparr>connectivity := TrackSuccess now ''introspection''
                                    (IntrospectionURL (config c1)) latency (connectivity c1)\<rparr>
                         in (case logsErrorNoTrigger now ''Failed to decode introspection response''
                                   (Some [(''phase'', LString ''checksums''), (''error'', LError ErrDecode),
                                          (''latency_ms'', LInt (latency div 1000000))]) c2 of
                               Inl p \<Rightarrow> Inl p
                             | Inr c3 \<Rightarrow> Inr (Inl ErrDecode, c3))
                     | Some needed \<Rightarrow>
                         Inr (Inr needed,
                              c1\<lparr>connectivity := TrackSuccess now ''introspection''
                                   (IntrospectionURL (config c1)) latency (connectivity c1)\<rparr>))))"

definition sendComponents ::
  "wire \<Rightarrow> gotime \<Rightarrow> (string \<rightharpoonup> Component list) \<Rightarrow> 'q Client
     \<Rightarrow> panic + (error option \<times> 'q Client)" where
  "sendComponents W now components c =
     (let url = IntrospectionURL (config c) @ ''/sync/components'';
          payload = (ServiceName (config c), Server (config c), components)
      in case marshalComponents W payload of
        None \<Rightarrow> Inr (Some ErrMarshal, c)
      | Some jsonData \<Rightarrow>
          let (resp, latency) = httpPost W url jsonData;
              c1 = c\<lparr>posts := posts c @ [\<lparr>postURL = url, postBody = jsonData\<rparr>]\<rparr>
          in (case resp of
                TransportError e \<Rightarrow>
                  let c2 = c1\<lparr>connectivity := TrackFailure now ''introspection''
                             (IntrospectionURL (config c1)) latency e (connectivity c1)\<rparr>
                  in (case logsErrorNoTrigger now ''Introspection sync failed''
                            (Some [(''phase'', LString ''components''), (''error'', LString e),
                                   (''latency_ms'', LInt (latency div 1000000))]) c2 of
                        Inl p \<Rightarrow> Inl p
                      | Inr c3 \<Rightarrow> Inr (Some (ErrHTTPRequest e), c3))
              | Response status body \<Rightarrow>
                  if status \<noteq> StatusOK
                  then
                    let errorMsg = ''HTTP '' @ showInt status @ '': '' @ body;
                        c2 = c1\<lparr>connectivity := TrackFailure now ''introspection''
                               (IntrospectionURL (config c1)) latency errorMsg (connectivity c1)\<rparr>
                    in (case logsErrorNoTrigger now ''Introspection sync failed''
                              (Some [(''phase'', LString ''components''), (''status'', LInt status),
                                     (''error'', LString body),
                                     (''latency_ms'', LInt (latency div 1000000))]) c2 of
                          Inl p \<Rightarrow> Inl p
                        | Inr c3 \<Rightarrow> Inr (Some (ErrHTTPStatus status body), c3))
                  else
                    Inr (None,
                         c1\<lparr>connectivity := TrackSuccess now ''introspection''
                              (IntrospectionURL (config c1)) latency (connectivity c1)\<rparr>)))"

text \<open>Phase 3, inner loop: the needed components of one entity.\<close>

fun gatherComponents ::
  "('q provider, 'd) env \<Rightarrow> gotime \<Rightarrow> Component \<Rightarrow> string \<Rightarrow> string list \<Rightarrow> 'q Client
     \<Rightarrow> (string \<rightharpoonup> Component list) \<Rightarrow> panic + ('q Client \<times> (string \<rightharpoonup> Component list))" where
  "gatherComponents E now heartbeatComp ent [] c toSend = Inr (c, toSend)"
| "gatherComponents E now heartbeatComp ent (componentID # componentIDs) c toSend =
     (let append = (\<lambda>co. toSend(ent \<mapsto> (case toSend ent of None \<Rightarrow> [] | Some cs \<Rightarrow> cs) @ [co]))
      in if componentID = ''heartbeat'' \<and> ent = entityID c
         then gatherComponents E now heartbeatComp ent componentIDs c (append heartbeatComp)
         else
           (case Collect_component E now ent componentID (registry c) of
              Inl p \<Rightarrow> Inl p
            | Inr res \<Rightarrow>
                let c1 = c\<lparr>registry := registryAfter res\<rparr>
                in (case returned res of
                      Inl err \<Rightarrow>
                        (case logsWarn now ''Failed to collect component for sync''
                                (Some [(''entity_id'', LString ent),
                                       (''component_id'', LString componentID),
                                       (''error'', LError err)]) c1 of
                           Inl p \<Rightarrow> Inl p
                         | Inr c2 \<Rightarrow>
                             gatherComponents E now heartbeatComp ent componentIDs c2 toSend)
                    | Inr collected \<Rightarrow>
                        gatherComponents E now heartbeatComp ent componentIDs c1
                          (append collected))))"

fun gatherAllComponents ::
  "('q provider, 'd) env \<Rightarrow> gotime \<Rightarrow> Component \<Rightarrow> (string \<times> string list) list \<Rightarrow> 'q Client
     \<Rightarrow> (string \<rightharpoonup> Component list) \<Rightarrow> panic + ('q Client \<times> (string \<rightharpoonup> Component list))" where
  "gatherAllComponents E now heartbeatComp [] c toSend = Inr (c, toSend)"
| "gatherAllComponents E now heartbeatComp ((ent, componentIDs) # rest) c toSend =
     (case gatherComponents E now heartbeatComp ent componentIDs c toSend of
        Inl p \<Rightarrow> Inl p
      | Inr (c1, toSend1) \<Rightarrow> gatherAllComponents E now heartbeatComp rest c1 toSend1)"

text \<open>
  \<open>performThreePhaseSync\<close>. \<open>allRegistered\<close> is what \<open>GetAllRegistered\<close> returns, in the
  order phase 1 visits it.
\<close>

definition performThreePhaseSync ::
  "('q provider, 'd) env \<Rightarrow> wire \<Rightarrow> gotime \<Rightarrow> (string \<times> string list) list \<Rightarrow> 'q Client
     \<Rightarrow> panic + (error option \<times> 'q Client)" where
  "performThreePhaseSync E W time allRegistered c =
     (case collectAllChecksums E time allRegistered c Map.empty of
        Inl p \<Rightarrow> Inl p
      | Inr (c1, checksums) \<Rightarrow>
          let idle = idleSince c1;
              now = UTC time;
              heartbeatData = StringMap
                [(''heartbeat'', Format plusZeroLayout now),
                 (''idle_since'', Format plusZeroLayout idle)];
              heartbeatComp = NewComponent E ''heartbeat'' heartbeatData;
              own = (case checksums (entityID c1) of None \<Rightarrow> Map.empty | Some m \<Rightarrow> m);
              checksums' = checksums(entityID c1 \<mapsto> own(''heartbeat'' \<mapsto> Checksum heartbeatComp));
              payload = (ServiceName (config c1), Server (config c1), checksums')
          in (case sendChecksums W time payload c1 of
                Inl p \<Rightarrow> Inl p
              | Inr (Inl err, c2) \<Rightarrow> Inr (Some (ErrChecksumPhase err), c2)
              | Inr (Inr neededComponents, c2) \<Rightarrow>
                  if length neededComponents > 0
                  then
                    (case gatherAllComponents E time heartbeatComp neededComponents c2 Map.empty of
                       Inl p \<Rightarrow> Inl p
                     | Inr (c3, componentsToSend) \<Rightarrow>
                         (case sendComponents W time componentsToSend c3 of
                            Inl p \<Rightarrow> Inl p
                          | Inr (Some err, c4) \<Rightarrow> Inr (Some (ErrDataPhase err), c4)
                          | Inr (None, c4) \<Rightarrow> Inr (None, c4)))
                  else Inr (None, c2)))"

subsection \<open>Backoff system\<close>

definition backoffPrimes :: "int list" where
  "backoffPrimes = [1, 2, 3, 5, 11, 23, 47, 61]"

text \<open>\<open>getBackoffDuration\<close>; indexing the slice with a negative index panics.\<close>

definition getBackoffDuration :: "'q Client \<Rightarrow> panic + int" where
  "getBackoffDuration c =
     (let maxBackoff = HeartbeatIntervalSec;
          index = backoffIndex c
      in if index \<ge> int (length backoffPrimes) then Inr (maxBackoff * Second)
         else if index < 0 then Inl PanicIndexOutOfRange
         else
           let backoffSec = backoffPrimes ! nat index;
               backoffSec' = (if backoffSec > maxBackoff then maxBackoff else backoffSec)
           in Inr (backoffSec' * Second))"

text \<open>
  \<open>executeSync\<close> retries until an attempt succeeds. Each attempt has its own inputs (the
  providers' values, the registrar's answers, the clock, the order of the registry's
  maps); the model runs the loop over the list of the attempts' inputs and returns
  \<open>False\<close> with the state reached when all of them have failed, the loop then being
  about to make a further attempt, and \<open>True\<close> when \<open>executeSync\<close> has returned. The
  sleep is recorded in \<open>slept\<close>.

  \<open>backoffIndex\<close> is a Go \<open>int\<close>, taken here at 64 bits: \<open>c.backoffIndex++\<close> wraps from
  \<open>2^63 - 1\<close> to \<open>- 2^63\<close>, and the next \<open>getBackoffDuration\<close> then indexes the slice
  with a negative index. (With an \<open>int\<close> of 32 bits the same happens at \<open>2^31 - 1\<close>.)
\<close>

definition wrapInt :: "int \<Rightarrow> int" where
  "wrapInt x = (x + 2 ^ 63) mod 2 ^ 64 - 2 ^ 63"

record ('p, 'd) attempt =
  attemptEnv :: "('p, 'd) env"
  attemptWire :: wire
  attemptTime :: gotime
  attemptRegistered :: "(string \<times> string list) list"

fun executeSync ::
  "string \<Rightarrow> ('q provider, 'd) attempt list \<Rightarrow> 'q Client \<Rightarrow> panic + (bool \<times> 'q Client)" where
  "executeSync source [] c = Inr (False, c)"
| "executeSync source (a # attempts) c =
     (case performThreePhaseSync (attemptEnv a) (attemptWire a) (attemptTime a)
             (attemptRegistered a) c of
        Inl p \<Rightarrow> Inl p
      | Inr (None, c1) \<Rightarrow> Inr (True, c1\<lparr>backoffIndex := 0\<rparr>)
      | Inr (Some err, c1) \<Rightarrow>
          (case getBackoffDuration c1 of
             Inl p \<Rightarrow> Inl p
           | Inr backoffDuration \<Rightarrow>
               let c2 = c1\<lparr>backoffIndex := wrapInt (backoffIndex c1 + 1)\<rparr>
               in (case logsErrorNoTrigger (attemptTime a) ''Sync failed, retrying with backoff''
                         (Some [(''source'', LString source), (''error'', LError err),
                                (''backoff_sec'', LDuration backoffDuration),
                                (''retry_in'', LDuration backoffDuration)]) c2 of
                     Inl p \<Rightarrow> Inl p
                   | Inr c3 \<Rightarrow>
                       executeSync source attempts (c3\<lparr>slept := slept c3 @ [backoffDuration]\<rparr>))))"


subsection \<open>Runs of the client\<close>

text \<open>
  What happens to a client, one operation at a time: the calls of its API, the firing of
  its two timers, a logging call of the service on \<open>GetLogs()\<close>, and \<open>executeSync\<close> (the
  body of a sync, with its retries).
\<close>

datatype ('q, 'd) event =
    EvRegisterForEntity string string "'q provider option" "Interval list"
  | EvTriggerUpdate string
  | EvTriggerUpdateForEntity string string
  | EvStart "(string \<times> string) list"
  | EvStop
  | EvHeartbeatFire
  | EvUpdateTimerFire "(string \<times> string) list"
  | EvLog "logValue logCall"
  | EvExecuteSync string "('q provider, 'd) attempt list"

record ('q, 'd) occurrence =
  occEnv :: "('q provider, 'd) env"
  occTime :: gotime
  occEvent :: "('q, 'd) event"

definition serviceLog :: "logValue logCall \<Rightarrow> 'q Client \<Rightarrow> panic + 'q Client" where
  "serviceLog lc c = (case callMethod lc of
      MError \<Rightarrow>
        (case Error (callTime lc) (callMessage lc) (callContext lc) (logs c) of
           Inl p \<Rightarrow> Inl p
         | Inr (l, called) \<Rightarrow>
             Inr (case called of
                    None \<Rightarrow> c\<lparr>logs := l\<rparr>
                  | Some f \<Rightarrow> launchIt TriggerSyncFromLogs (c\<lparr>logs := l\<rparr>)))
    | MWarn \<Rightarrow> logsWarn (callTime lc) (callMessage lc) (callContext lc) c
    | _ \<Rightarrow> (case callLog lc (logs c) of Inl p \<Rightarrow> Inl p | Inr l \<Rightarrow> Inr (c\<lparr>logs := l\<rparr>)))"

definition clientStep :: "('q, 'd) occurrence \<Rightarrow> 'q Client \<Rightarrow> panic + 'q Client" where
  "clientStep occ c = (case occEvent occ of
      EvRegisterForEntity ent componentID prov intervals \<Rightarrow>
        Inr (c\<lparr>registry := snd (RegisterForEntity ent componentID prov intervals (registry c))\<rparr>)
    | EvTriggerUpdate componentID \<Rightarrow>
        map_sum id snd (TriggerUpdate (occEnv occ) (occTime occ) componentID c)
    | EvTriggerUpdateForEntity ent componentID \<Rightarrow>
        map_sum id snd (TriggerUpdateForEntity (occEnv occ) (occTime occ) ent componentID c)
    | EvStart keys \<Rightarrow> map_sum id snd (Start (occTime occ) keys c)
    | EvStop \<Rightarrow> Stop (occTime occ) c
    | EvHeartbeatFire \<Rightarrow> onHeartbeatFire (occTime occ) c
    | EvUpdateTimerFire keys \<Rightarrow> onUpdateTimerFire (occEnv occ) (occTime occ) keys c
    | EvLog lc \<Rightarrow> serviceLog lc c
    | EvExecuteSync source attempts \<Rightarrow> map_sum id snd (executeSync source attempts c))"

text \<open>
  The callback of the logs is \<open>func() { go c.triggerSyncFromLogs() }\<close>: every \<open>Error\<close> and
  \<open>Warn\<close> on the client's logs, by the service or by the client itself, starts a goroutine
  that runs \<open>triggerSyncFromLogs\<close>. \<open>runCallbacks\<close> runs the bodies of the goroutines a
  step has launched, in the order of their launch; \<open>now\<close> is the clock reading they take.
\<close>

fun runCallbacks :: "gotime \<Rightarrow> launch list \<Rightarrow> 'q Client \<Rightarrow> 'q Client" where
  "runCallbacks now [] c = c"
| "runCallbacks now (TriggerSyncFromLogs # gs) c = runCallbacks now gs (triggerSyncFromLogs now c)"
| "runCallbacks now (TriggerSync source # gs) c = runCallbacks now gs c"

text \<open>
  A run: each step is followed by the callbacks it has launched (the goroutines added to
  \<open>launched\<close> by the step), which read the clock as \<open>occTime\<close> of the occurrence.
\<close>

fun runClient :: "('q, 'd) occurrence list \<Rightarrow> 'q Client \<Rightarrow> panic + 'q Client" where
  "runClient [] c = Inr c"
| "runClient (occ # occs) c =
     (case clientStep occ c of
        Inl p \<Rightarrow> Inl p
      | Inr c' \<Rightarrow>
          runClient occs
            (runCallbacks (occTime occ) (drop (length (launched c)) (launched c')) c'))"

section \<open>The goroutines of the sync system\<close>

text \<open>
  \<open>triggerSync\<close> and \<open>executeSyncLoop\<close> run on several goroutines at once, over the shared
  \<open>syncMu\<close> and \<open>syncPending\<close>. Each goroutine is at one statement of the two functions;
  a step runs one statement of one goroutine. \<open>syncMu\<close> holds the goroutine that has
  locked it; \<open>Lock\<close> cannot step while another goroutine holds it.
\<close>

datatype pc =
    TriggerLock
  | TriggerCheck
  | TriggerUnlockReturn
  | TriggerSetPending
  | TriggerUnlock
  | LoopLock
  | LoopCheck
  | LoopUnlockReturn
  | LoopClearPending
  | LoopUnlock
  | InExecuteSync
  | Returned

record syncSystem =
  syncMu :: "nat option"
  pending :: bool
  goroutines :: "pc list"

definition setPc :: "nat \<Rightarrow> pc \<Rightarrow> syncSystem \<Rightarrow> syncSystem" where
  "setPc i p s = s\<lparr>goroutines := (goroutines s)[i := p]\<rparr>"

definition stepGoroutine :: "nat \<Rightarrow> syncSystem \<Rightarrow> syncSystem option" where
  "stepGoroutine i s =
     (if i \<ge> length (goroutines s) then None
      else case goroutines s ! i of
        TriggerLock \<Rightarrow>
          (if syncMu s = None then Some (setPc i TriggerCheck (s\<lparr>syncMu := Some i\<rparr>)) else None)
      | TriggerCheck \<Rightarrow>
          Some (setPc i (if pending s then TriggerUnlockReturn else TriggerSetPending) s)
      | TriggerUnlockReturn \<Rightarrow> Some (setPc i Returned (s\<lparr>syncMu := None\<rparr>))
      | TriggerSetPending \<Rightarrow> Some (setPc i TriggerUnlock (s\<lparr>pending := True\<rparr>))
      | TriggerUnlock \<Rightarrow> Some (setPc i LoopLock (s\<lparr>syncMu := None\<rparr>))
      | LoopLock \<Rightarrow>
          (if syncMu s = None then Some (setPc i LoopCheck (s\<lparr>syncMu := Some i\<rparr>)) else None)
      | LoopCheck \<Rightarrow>
          Some (setPc i (if \<not> pending s then LoopUnlockReturn else LoopClearPending) s)
      | LoopUnlockReturn \<Rightarrow> Some (setPc i Returned (s\<lparr>syncMu := None\<rparr>))
      | LoopClearPending \<Rightarrow> Some (setPc i LoopUnlock (s\<lparr>pending := False\<rparr>))
      | LoopUnlock \<Rightarrow> Some (setPc i InExecuteSync (s\<lparr>syncMu := None\<rparr>))
      | InExecuteSync \<Rightarrow> Some (setPc i LoopLock s)
      | Returned \<Rightarrow> None)"

text \<open>A schedule names the goroutine of each step; it stops where a step cannot be made.\<close>

fun schedule :: "nat list \<Rightarrow> syncSystem \<Rightarrow> syncSystem option" where
  "schedule [] s = Some s"
| "schedule (i # is) s =
     (case stepGoroutine i s of None \<Rightarrow> None | Some s' \<Rightarrow> schedule is s')"

text \<open>\<open>n\<close> goroutines that have each just been started with \<open>triggerSync\<close>.\<close>

definition triggered :: "nat \<Rightarrow> syncSystem" where
  "triggered n = \<lparr>syncMu = None, pending = False, goroutines = replicate n TriggerLock\<rparr>"

definition executing :: "syncSystem \<Rightarrow> nat" where
  "executing s = length (filter (\<lambda>p. p = InExecuteSync) (goroutines s))"

section \<open>Concrete inputs\<close>

text \<open>2024-01-01 00:00:00 UTC.\<close>

definition exampleTime :: gotime where
  "exampleTime = \<lparr>unixSec = 1704067200, nanos = 0, zoneOffset = 0\<rparr>"

text \<open>
  The registry after a registration that succeeds, written as one update (used to state
  and prove the properties of \<open>RegisterForEntity\<close>).
\<close>

definition withConfig ::
  "string \<Rightarrow> string \<Rightarrow> 'p ComponentConfig \<Rightarrow> 'p Registry \<Rightarrow> 'p Registry" where
  "withConfig e c cfg r =
     r\<lparr>configs := (configs r)(e \<mapsto> (case configs r e of None \<Rightarrow> Map.empty | Some m \<Rightarrow> m)(c \<mapsto> cfg)),
       cache := (cache r)(e \<mapsto> (case cache r e of None \<Rightarrow> Map.empty | Some m \<Rightarrow> m))\<rparr>"

definition intervalOf :: "Interval list \<Rightarrow> Interval option" where
  "intervalOf intervals = (case intervals of [] \<Rightarrow> None | i # _ \<Rightarrow> Some i)"

text \<open>A registry as \<open>registry.New\<close> returns it, and an environment for it.\<close>

definition exampleRegistry :: "nat Registry" where
  "exampleRegistry = \<lparr>ownEntityID = ''svc-staging'', configs = Map.empty, cache = Map.empty\<rparr>"

text \<open>
  Provider \<open>n\<close> returns the number \<open>n\<close>; the encoder writes it in decimal; the stand-in for
  the hash reverses the bytes.
\<close>

definition exampleEnv :: "(nat, nat) env" where
  "exampleEnv = \<lparr>invoke = (\<lambda>p. p), jsonMarshal = (\<lambda>d. Some (digitsOf (int d))),
                  jsonMarshalData = (\<lambda>d. Some ''{}''), sha256hex = rev\<rparr>"

text \<open>
  What the operations keep true of a client: its registry is as the registry's
  operations make it, and the capacity of its log ring is positive.
\<close>

definition wfClient :: "'q Client \<Rightarrow> bool" where
  "wfClient c = (wfRegistry (registry c) \<and> 0 < maxEntries (logs c))"

text \<open>The fields of the client that a sync attempt only reads.\<close>

definition engineUntouched :: "'q Client \<Rightarrow> 'q Client \<Rightarrow> bool" where
  "engineUntouched c c' =
     (config c' = config c \<and> entityID c' = entityID c \<and> idleSince c' = idleSince c \<and>
      backoffIndex c' = backoffIndex c \<and> slept c' = slept c \<and> running c' = running c \<and>
      heartbeatTimer c' = heartbeatTimer c \<and> updateTimer c' = updateTimer c)"

text \<open>
  A sync attempt whose inputs make it fail, and one whose inputs make it succeed,
  whatever the state of the client: the registrar is down, or answers as it should.
\<close>

definition attemptFails :: "('q provider, 'd) attempt \<Rightarrow> bool" where
  "attemptFails a =
     (\<forall>c. wfClient c \<longrightarrow>
        (\<exists>err c1. performThreePhaseSync (attemptEnv a) (attemptWire a) (attemptTime a)
                     (attemptRegistered a) c = Inr (Some err, c1)))"

definition attemptSucceeds :: "('q provider, 'd) attempt \<Rightarrow> bool" where
  "attemptSucceeds a =
     (\<forall>c. wfClient c \<longrightarrow>
        (\<exists>c1. performThreePhaseSync (attemptEnv a) (attemptWire a) (attemptTime a)
                 (attemptRegistered a) c = Inr (None, c1)))"

text \<open>A file system given by the files it holds, and a configuration over it.\<close>

definition fsOf :: "(string \<times> string) list \<Rightarrow> (string, string) filesystem" where
  "fsOf files =
     \<lparr>statOK = (\<lambda>p. map_of files p \<noteq> None),
      readFile = map_of files,
      loadX509KeyPair = (\<lambda>c k. case map_of files c of
                                   None \<Rightarrow> None
                                 | Some a \<Rightarrow> (case map_of files k of
                                                None \<Rightarrow> None
                                              | Some b \<Rightarrow> Some (a @ b))),
      appendCertsFromPEM = (\<lambda>b. if b = [] then None else Some b)\<rparr>"

definition exampleConfig :: Config where
  "exampleConfig =
     \<lparr>ServiceName = ''svc'', Version = ''1.0.0'', Port = 8443, Server = ''staging'',
      IntrospectionURL = ''https://introspection:9080'',
      CertPath = ''/etc/pki/svc.cert.pem'', KeyPath = ''/etc/pki/svc.key.pem'',
      CAPath = ''/etc/pki/ca.cert.pem'', CertDir = ''/etc/pki''\<rparr>"

text \<open>
  The certificate directory \<open>/etc/pki\<close> holds a chain file; there is no \<open>/certs\<close>.
\<close>

definition pkiFiles :: "(string \<times> string) list" where
  "pkiFiles =
     [(''/etc/pki/ca-chain.cert.pem'', ''CHAIN''),
      (''/etc/pki/ca.cert.pem'', ''CA''),
      (''/etc/pki/svc.cert.pem'', ''CERT''),
      (''/etc/pki/svc.key.pem'', ''KEY'')]"

text \<open>The same files, and a chain file under \<open>/certs\<close> as well.\<close>

definition certsFiles :: "(string \<times> string) list" where
  "certsFiles = (''/certs/ca-chain.cert.pem'', ''CERTS-CHAIN'') # pkiFiles"

text \<open>
  The backoff sequence in the spec's words: the sleep before the \<open>k\<close>-th retry is the
  \<open>k\<close>-th element of the sequence 1, 2, 3, 5, 11, 23, 47, 61 seconds, clamped to 59
  seconds, and 59 seconds beyond the sequence (\<open>k\<close> counts from 1).
\<close>

definition specSequence :: "int list" where
  "specSequence = [1, 2, 3, 5, 11, 23, 47, 61]"

definition specBackoff :: "nat \<Rightarrow> int" where
  "specBackoff k =
     (if k \<le> length specSequence then min (specSequence ! (k - 1)) 59 else 59) * Second"

text \<open>
  An allocation limit: an address space of \<open>2^48\<close> bytes and entries of 64 bytes. The ring
  of the default capacity, as \<open>NewRecentLogs\<close> returns it there.
\<close>

definition exampleMaxCap :: int where
  "exampleMaxCap = 2 ^ 42"

definition defaultRing :: "('v, 'f) RecentLogs" where
  "defaultRing = \<lparr>entries = [], maxEntries = 100, triggerFunc = None\<rparr>"

text \<open>
  Four logging calls: the second has an empty context and panics.
\<close>

definition threeCalls :: "string logCall list" where
  "threeCalls =
     [\<lparr>callMethod = MInfo, callMessage = ''first'', callContext = Some [(''k'', ''v'')],
       callTime = exampleTime\<rparr>,
      \<lparr>callMethod = MWarn, callMessage = ''rejected'', callContext = Some [],
       callTime = exampleTime\<rparr>,
      \<lparr>callMethod = MError, callMessage = ''second'', callContext = Some [(''k'', ''v'')],
       callTime = exampleTime\<rparr>,
      \<lparr>callMethod = MDebug, callMessage = ''third'', callContext = Some [(''k'', ''v'')],
       callTime = exampleTime\<rparr>]"

text \<open>
  A running client of the service \<open>svc\<close> on \<open>staging\<close> with nothing registered, and
  registrars for it: one that answers every POST with 503, one that answers 200 and
  needs the heartbeat, and one that answers 200 and needs nothing.
\<close>

definition exampleClient :: "nat Client" where
  "exampleClient =
     \<lparr>config = exampleConfig, entityID = ''svc-staging'',
      registry = \<lparr>ownEntityID = ''svc-staging'', configs = Map.empty, cache = Map.empty\<rparr>,
      http = \<lparr>Certificates = [''CERTKEY''], RootCAs = ''CA'',
               MinVersion = VersionTLS13, MaxVersion = VersionTLS13\<rparr>,
      logs = SetTriggerFunc (Some ()) defaultRing,
      connectivity = NewConnectivityTracker,
      certMonitorDir = ''/etc/pki'', running = True, stopChanClosed = False,
      idleSince = exampleTime,
      heartbeatTimer = Some (Armed (Add exampleTime (HeartbeatIntervalSec * Second))),
      updateTimer = None, backoffIndex = 0, syncPending = False,
      launched = [], posts = [], slept = []\<rparr>"

definition exampleProviders :: "(nat provider, nat) env" where
  "exampleProviders =
     \<lparr>invoke = (\<lambda>p. case p of Custom n \<Rightarrow> n | _ \<Rightarrow> 0),
      jsonMarshal = (\<lambda>d. Some (digitsOf (int d))),
      jsonMarshalData = (\<lambda>d. Some ''{}''),
      sha256hex = rev\<rparr>"

definition registrarDown :: wire where
  "registrarDown =
     \<lparr>marshalChecksums = (\<lambda>p. Some ''checksums''),
      marshalComponents = (\<lambda>p. Some ''components''),
      httpPost = (\<lambda>url body. (Response 503 ''unavailable'', 1000000)),
      decodeNeeded = (\<lambda>b. None)\<rparr>"

definition registrarUp :: wire where
  "registrarUp =
     \<lparr>marshalChecksums = (\<lambda>p. Some ''checksums''),
      marshalComponents = (\<lambda>p. Some ''components''),
      httpPost = (\<lambda>url body. (Response 200 ''needed'', 1000000)),
      decodeNeeded = (\<lambda>b. Some [(''svc-staging'', [''heartbeat''])])\<rparr>"

definition registrarIdle :: wire where
  "registrarIdle =
     \<lparr>marshalChecksums = (\<lambda>p. Some ''checksums''),
      marshalComponents = (\<lambda>p. Some ''components''),
      httpPost = (\<lambda>url body. (Response 200 ''nothing'', 1000000)),
      decodeNeeded = (\<lambda>b. Some [])\<rparr>"

definition attemptWith :: "wire \<Rightarrow> (nat provider, nat) attempt" where
  "attemptWith W =
     \<lparr>attemptEnv = exampleProviders, attemptWire = W, attemptTime = exampleTime,
      attemptRegistered = []\<rparr>"

text \<open>An outage: four attempts meet a registrar that is down, the fifth one that is up.\<close>

definition fourFailures :: "(nat provider, nat) attempt list" where
  "fourFailures = [attemptWith registrarDown, attemptWith registrarDown,
                   attemptWith registrarDown, attemptWith registrarDown]"

definition outage :: "(nat provider, nat) attempt list" where
  "outage = fourFailures @ [attemptWith registrarUp]"

text \<open>
  The same client after the service has registered a component \<open>health\<close> (provider 42,
  interval \<open>Fast\<close>), and what \<open>GetAllRegistered\<close> returns for it.
\<close>

definition registeredClient :: "nat Client" where
  "registeredClient =
     exampleClient\<lparr>registry :=
       snd (RegisterForEntity ''svc-staging'' ''health'' (Some (Custom 42)) [Fast]
              (registry exampleClient))\<rparr>"

definition healthRegistered :: "(string \<times> string list) list" where
  "healthRegistered = [(''svc-staging'', [''health''])]"

text \<open>
  A registrar that answers 200 and needs the heartbeat and \<open>health\<close>. The two encoders
  write the checksums, and the components, of the entity \<open>svc-staging\<close>.
\<close>

definition checksumOf :: "checksumTable \<Rightarrow> string \<Rightarrow> string \<Rightarrow> string" where
  "checksumOf tab ent componentID =
     (case tab ent of
        None \<Rightarrow> ''-''
      | Some m \<Rightarrow> (case m componentID of None \<Rightarrow> ''-'' | Some h \<Rightarrow> h))"

definition registrarWants :: wire where
  "registrarWants =
     \<lparr>marshalChecksums = (\<lambda>(svc, srv, tab).
        Some (svc @ ''@'' @ srv @ '' health='' @ checksumOf tab ''svc-staging'' ''health'' @
              '' heartbeat='' @ checksumOf tab ''svc-staging'' ''heartbeat'')),
      marshalComponents = (\<lambda>(svc, srv, comps).
        Some (concat (map (\<lambda>co. ID co @ ''='' @ Checksum co @ '';'')
                (case comps ''svc-staging'' of None \<Rightarrow> [] | Some cs \<Rightarrow> cs)))),
      httpPost = (\<lambda>url body. (Response 200 ''needed'', 1000000)),
      decodeNeeded = (\<lambda>b. Some [(''svc-staging'', [''heartbeat'', ''health''])])\<rparr>"

definition atSecond :: "int \<Rightarrow> gotime" where
  "atSecond s = \<lparr>unixSec = 1704067200 + s, nanos = 0, zoneOffset = 0\<rparr>"

text \<open>
  A service from its start, at \<open>exampleTime\<close>: \<open>introspection.New\<close> on the example
  configuration (the client is the one \<open>NewClient\<close> returns), then \<open>Start\<close>, then the
  registration of a component \<open>health\<close> with provider 42. \<open>standardKeys\<close> and
  \<open>startedRegistered\<close> are the orders in which the registry's maps are visited.
\<close>

definition standardKeys :: "(string \<times> string) list" where
  "standardKeys =
     [(''svc-staging'', ''service-info''), (''svc-staging'', ''recent-logs''),
      (''svc-staging'', ''inter-service-connectivity''), (''svc-staging'', ''certificates'')]"

definition startedRegistered :: "(string \<times> string list) list" where
  "startedRegistered =
     [(''svc-staging'', [''service-info'', ''recent-logs'', ''inter-service-connectivity'',
                         ''certificates'', ''health''])]"

definition startup :: "(nat, nat) occurrence list" where
  "startup =
     [\<lparr>occEnv = exampleProviders, occTime = exampleTime, occEvent = EvStart standardKeys\<rparr>,
      \<lparr>occEnv = exampleProviders, occTime = exampleTime,
       occEvent = EvRegisterForEntity ''svc-staging'' ''health'' (Some (Custom 42)) [Fast]\<rparr>]"

text \<open>
  Then, 59 seconds later and with providers \<open>E\<close>: the heartbeat timer fires, and the sync
  it has started runs (one attempt, the registrar needing nothing). Nothing else happens:
  no trigger, no logging call of the service.
\<close>

definition heartbeatRunWith :: "(nat provider, nat) env \<Rightarrow> (nat, nat) occurrence list" where
  "heartbeatRunWith E =
     [\<lparr>occEnv = E, occTime = atSecond 59, occEvent = EvHeartbeatFire\<rparr>,
      \<lparr>occEnv = E, occTime = atSecond 59,
       occEvent = EvExecuteSync ''heartbeat-timer''
         [\<lparr>attemptEnv = E, attemptWire = registrarIdle, attemptTime = atSecond 59,
           attemptRegistered = startedRegistered\<rparr>]\<rparr>]"

text \<open>
  Providers as \<open>exampleProviders\<close>, except that \<open>json.Marshal\<close> rejects the value 42 that
  the provider of \<open>health\<close> returns (as it rejects a channel, a function or a NaN).
\<close>

definition unencodable :: "(nat provider, nat) env" where
  "unencodable =
     exampleProviders\<lparr>jsonMarshal := (\<lambda>d. if d = 42 then None else Some (digitsOf (int d)))\<rparr>"

text \<open>What \<open>ConnectivityTracker.GetData\<close> reports as \<open>last_call\<close> for a service.\<close>

definition lastCallReported :: "ConnectivityTracker \<Rightarrow> string \<Rightarrow> string option" where
  "lastCallReported t service =
     (case connections t service of
        None \<Rightarrow> None
      | Some conn \<Rightarrow> map_option last_call (connectionGetData conn))"

text \<open>A certificate valid for the year 2024, and a log entry made at \<open>exampleTime\<close> plus
  123.45 milliseconds.\<close>

definition exampleCertificate :: CertificateInfo where
  "exampleCertificate =
     \<lparr>Path = ''/etc/pki/svc.cert.pem'', Purpose = ''server'', Subject = ''CN=svc'',
      Issuer = ''CN=ca'', ValidFrom = exampleTime,
      ValidUntil = \<lparr>unixSec = 1735689599, nanos = 0, zoneOffset = 0\<rparr>,
      DaysUntilExpiry = 365, SANs = [''DNS:svc''], IsExpired = False, ExpiryWarning = False\<rparr>"

definition exampleLogged :: "(string, unit) RecentLogs" where
  "exampleLogged =
     callLogs [\<lparr>callMethod = MInfo, callMessage = ''started'',
                callContext = Some [(''k'', ''v'')],
                callTime = \<lparr>unixSec = 1704067200, nanos = 123450000, zoneOffset = 3600\<rparr>\<rparr>]
       defaultRing"

section \<open>The ring of recent logs: properties\<close>

lemma lastN_snoc:
  "0 < k \<Longrightarrow> lastN k (lastN k xs @ [e]) = lastN k (xs @ [e])"
proof (cases "length xs \<le> k")
  case True
  then show ?thesis by (simp add: lastN_def)
next
  case False
  assume "0 < k"
  with False have "Suc (length xs) - (length xs - k + k) + (length xs - k) = Suc (length xs) - k"
    by arith
  with False show ?thesis by (simp add: lastN_def)
qed

lemma length_lastN: "length (lastN k xs) \<le> k"
  by (simp add: lastN_def)

lemma Log_empty: "len_context c = 0 \<Longrightarrow> Log now l m c r = Inl PanicContextEmpty"
  by (simp add: Log_def)

lemma Log_nonempty:
  assumes "len_context c \<noteq> 0" "0 < maxEntries r" 
  shows "Log now l m c r =
     Inr (r\<lparr>entries := lastN (nat (maxEntries r))
        (entries r @ [\<lparr>Timestamp = UTC now, Level = l, Message = m, Context = c\<rparr>])\<rparr>)"
proof -
  have "nat (1 + int (length (entries r))) - nat (maxEntries r) =
        Suc (length (entries r)) - nat (maxEntries r)"
    by (simp add: nat_add_distrib)
  moreover have "maxEntries r < 1 + int (length (entries r)) \<Longrightarrow>
        nat (1 + int (length (entries r)) - maxEntries r) =
        Suc (length (entries r)) - nat (maxEntries r)"
    using assms(2) by arith
  ultimately show ?thesis
    using assms by (auto simp: Log_def Let_def lastN_def)
qed

lemma Log_triggerFunc: "Log now l m c r = Inr r' \<Longrightarrow> triggerFunc r' = triggerFunc r"
  by (auto simp: Log_def Let_def split: if_splits)

lemma callLog_rejected: "\<not> accepted c \<Longrightarrow> callLog c r = Inl PanicContextEmpty"
  by (cases "callMethod c")
     (simp_all add: callLog_def accepted_def Error_def Warn_def Info_def Debug_def
        WarnNoTrigger_def ErrorNoTrigger_def Log_empty)

lemma callLog_accepted:
  "accepted c \<Longrightarrow> 0 < maxEntries r \<Longrightarrow>
   callLog c r = Inr (r\<lparr>entries := lastN (nat (maxEntries r)) (entries r @ [entryOf c])\<rparr>)"
  by (cases "callMethod c")
     (simp_all add: callLog_def accepted_def Error_def Warn_def Info_def Debug_def
        WarnNoTrigger_def ErrorNoTrigger_def Log_nonempty entryOf_def levelOf_def)

lemma callLogs_ring:
  "0 < maxEntries r \<Longrightarrow> entries r = lastN (nat (maxEntries r)) hist \<Longrightarrow>
   callLogs cs r = r\<lparr>entries := lastN (nat (maxEntries r)) (hist @ map entryOf (filter accepted cs))\<rparr>"
proof (induction cs arbitrary: r hist)
  case Nil
  then show ?case by simp
next
  case (Cons c cs)
  show ?case
  proof (cases "accepted c")
    case False
    with Cons show ?thesis by (simp add: callLog_rejected)
  next
    case True
    let ?r' = "r\<lparr>entries := lastN (nat (maxEntries r)) (entries r @ [entryOf c])\<rparr>"
    have k: "0 < nat (maxEntries r)" using Cons.prems(1) by simp
    have e: "entries ?r' = lastN (nat (maxEntries ?r')) (hist @ [entryOf c])"
      using Cons.prems(2) lastN_snoc [OF k, of hist "entryOf c"] by simp
    have m: "0 < maxEntries ?r'" using Cons.prems(1) by simp
    from Cons.IH [OF m e] True Cons.prems(1) show ?thesis
      by (simp add: callLog_accepted)
  qed
qed


text \<open>
  C9. For each of \<open>Info\<close>, \<open>Warn\<close>, \<open>Error\<close> and \<open>Debug\<close>: a call with an empty or nil
  context panics, and a call with a non-empty context returns with the entry recorded
  as the newest entry of the ring (the ring's capacity being positive, as
  \<open>NewRecentLogs\<close> makes it). In particular \<open>Info("x", {})\<close> panics and records nothing.
\<close>

theorem Log_requires_context:
  fixes r :: "('v, 'f) RecentLogs"
  assumes "0 < maxEntries r"
  shows "(len_context c = 0 \<longrightarrow>
            Info now m c r = Inl PanicContextEmpty \<and> Warn now m c r = Inl PanicContextEmpty \<and>
            Error now m c r = Inl PanicContextEmpty \<and> Debug now m c r = Inl PanicContextEmpty) \<and>
         (len_context c \<noteq> 0 \<longrightarrow>
            (\<exists>r'. Info now m c r = Inr r' \<and> entries r' \<noteq> [] \<and>
               last (entries r') = \<lparr>Timestamp = UTC now, Level = LevelInfo, Message = m, Context = c\<rparr>) \<and>
            (\<exists>r' f. Warn now m c r = Inr (r', f) \<and> entries r' \<noteq> [] \<and>
               last (entries r') = \<lparr>Timestamp = UTC now, Level = LevelWarn, Message = m, Context = c\<rparr>) \<and>
            (\<exists>r' f. Error now m c r = Inr (r', f) \<and> entries r' \<noteq> [] \<and>
               last (entries r') = \<lparr>Timestamp = UTC now, Level = LevelError, Message = m, Context = c\<rparr>) \<and>
            (\<exists>r'. Debug now m c r = Inr r' \<and> entries r' \<noteq> [] \<and>
               last (entries r') = \<lparr>Timestamp = UTC now, Level = LevelDebug, Message = m, Context = c\<rparr>)) \<and>
         Info now ''x'' (Some []) r = Inl PanicContextEmpty \<and>
         Info now ''x'' None r = Inl PanicContextEmpty"
proof -
  have k: "0 < nat (maxEntries r)" using assms by simp
  have ne: "lastN (nat (maxEntries r)) (entries r @ [e]) \<noteq> []" for e
    using k by (simp add: lastN_def)
  have la: "last (lastN (nat (maxEntries r)) (entries r @ [e])) = e" for e
    using k by (simp add: lastN_def)
  have empty: "len_context c = 0 \<Longrightarrow>
      Info now m c r = Inl PanicContextEmpty \<and> Warn now m c r = Inl PanicContextEmpty \<and>
      Error now m c r = Inl PanicContextEmpty \<and> Debug now m c r = Inl PanicContextEmpty"
    by (simp add: Info_def Warn_def Error_def Debug_def Log_empty)
  have full: "len_context c \<noteq> 0 \<Longrightarrow>
      (\<exists>r'. Info now m c r = Inr r' \<and> entries r' \<noteq> [] \<and>
         last (entries r') = \<lparr>Timestamp = UTC now, Level = LevelInfo, Message = m, Context = c\<rparr>) \<and>
      (\<exists>r' f. Warn now m c r = Inr (r', f) \<and> entries r' \<noteq> [] \<and>
         last (entries r') = \<lparr>Timestamp = UTC now, Level = LevelWarn, Message = m, Context = c\<rparr>) \<and>
      (\<exists>r' f. Error now m c r = Inr (r', f) \<and> entries r' \<noteq> [] \<and>
         last (entries r') = \<lparr>Timestamp = UTC now, Level = LevelError, Message = m, Context = c\<rparr>) \<and>
      (\<exists>r'. Debug now m c r = Inr r' \<and> entries r' \<noteq> [] \<and>
         last (entries r') = \<lparr>Timestamp = UTC now, Level = LevelDebug, Message = m, Context = c\<rparr>)"
    using assms by (simp add: Info_def Warn_def Error_def Debug_def Log_nonempty ne la)
  have x: "Info now ''x'' (Some []) r = Inl PanicContextEmpty \<and>
           Info now ''x'' None r = Inl PanicContextEmpty"
    by (simp add: Info_def Log_empty len_context_def)
  from empty full x show ?thesis by blast
qed

theorem Log_requires_context_witness:
  "NewRecentLogs exampleMaxCap 0 = Inr (defaultRing :: (string, unit) RecentLogs) \<and>
   0 < maxEntries (defaultRing :: (string, unit) RecentLogs) \<and>
   len_context (Some [(''k'', ''v'')]) \<noteq> 0 \<and>
   len_context (Some ([] :: (string \<times> string) list)) = 0 \<and>
   Info exampleTime ''x'' (Some []) (defaultRing :: (string, unit) RecentLogs)
     = Inl PanicContextEmpty \<and>
   (\<exists>r'. Error exampleTime ''boom'' (Some [(''k'', ''v'')])
            (defaultRing :: (string, unit) RecentLogs) = Inr (r', None) \<and>
         last (entries r') =
           \<lparr>Timestamp = UTC exampleTime, Level = LevelError, Message = ''boom'',
            Context = Some [(''k'', ''v'')]\<rparr>)"
proof -
  have n: "NewRecentLogs exampleMaxCap 0 = Inr (defaultRing :: (string, unit) RecentLogs)"
    by (simp add: NewRecentLogs_def exampleMaxCap_def defaultRing_def)
  have h: "0 < maxEntries (defaultRing :: (string, unit) RecentLogs)"
    by (simp add: defaultRing_def)
  have a: "len_context (Some [(''k'', ''v'')]) \<noteq> 0" by (simp add: len_context_def)
  have b: "len_context (Some ([] :: (string \<times> string) list)) = 0" by (simp add: len_context_def)
  from Log_requires_context [OF h, of "Some [(''k'', ''v'')]" exampleTime "''boom''"] a
  obtain r' f where e: "Error exampleTime ''boom'' (Some [(''k'', ''v'')])
            (defaultRing :: (string, unit) RecentLogs) = Inr (r', f)"
     and l: "last (entries r') =
           \<lparr>Timestamp = UTC exampleTime, Level = LevelError, Message = ''boom'',
            Context = Some [(''k'', ''v'')]\<rparr>" by blast
  from e have "f = None" by (auto simp: Error_def defaultRing_def split: sum.splits dest!: Log_triggerFunc)
  with e l h a b n Log_requires_context [OF h, of "Some []" exampleTime "''x''"] show ?thesis by simp
qed

text \<open>
  C10. \<open>NewRecentLogs n\<close> returns a ring whenever the capacity it asks for (\<open>n\<close>, or 100
  when \<open>n\<close> is not positive) is within what the runtime can allocate, and panics
  otherwise. The capacity of the ring returned is that number: 100 when \<open>n\<close> is not
  positive. After any sequence of logging calls on the ring, the ring holds the entries
  of the calls that did not panic, the most recent ones only, in the order of the calls,
  as many as the capacity at most, and its capacity is unchanged.
\<close>

theorem ring_keeps_most_recent:
  fixes maxCap n :: int
  defines "cap \<equiv> (if n \<le> 0 then 100 else n)"
  shows "(cap \<le> maxCap \<longrightarrow>
            (\<exists>r :: ('v, 'f) RecentLogs. NewRecentLogs maxCap n = Inr r \<and>
               entries r = [] \<and> maxEntries r = cap \<and>
               (\<forall>cs. entries (callLogs cs r) =
                        lastN (nat cap) (map entryOf (filter accepted cs)) \<and>
                      int (length (entries (callLogs cs r))) \<le> cap \<and>
                      maxEntries (callLogs cs r) = cap))) \<and>
         (maxCap < cap \<longrightarrow>
            (NewRecentLogs maxCap n :: panic + ('v, 'f) RecentLogs) = Inl PanicMakeSliceCap)"
proof -
  let ?r = "\<lparr>entries = [], maxEntries = cap, triggerFunc = None\<rparr> :: ('v, 'f) RecentLogs"
  have m: "0 < maxEntries ?r" by (simp add: cap_def)
  have e: "entries ?r = lastN (nat (maxEntries ?r)) []" by (simp add: lastN_def)
  have run: "callLogs cs ?r =
      ?r\<lparr>entries := lastN (nat (maxEntries ?r)) ([] @ map entryOf (filter accepted cs))\<rparr>" for cs
    by (rule callLogs_ring [OF m e])
  have len: "length (lastN (nat cap) (map entryOf (filter accepted cs))) \<le> nat cap"
    for cs :: "'v logCall list"
    by (rule length_lastN)
  have pos: "0 < cap" by (simp add: cap_def)
  have all: "entries (callLogs cs ?r) = lastN (nat cap) (map entryOf (filter accepted cs)) \<and>
             int (length (entries (callLogs cs ?r))) \<le> cap \<and>
             maxEntries (callLogs cs ?r) = cap" for cs
    using run [of cs] len [of cs] pos by simp
  have ok: "cap \<le> maxCap \<Longrightarrow> (NewRecentLogs maxCap n :: panic + ('v, 'f) RecentLogs) = Inr ?r"
    by (simp add: NewRecentLogs_def cap_def Let_def)
  have bad: "maxCap < cap \<Longrightarrow>
      (NewRecentLogs maxCap n :: panic + ('v, 'f) RecentLogs) = Inl PanicMakeSliceCap"
    by (simp add: NewRecentLogs_def cap_def Let_def)
  have r0: "entries ?r = []" "maxEntries ?r = cap" by simp_all
  show ?thesis
  proof (intro conjI impI)
    assume c: "cap \<le> maxCap"
    show "\<exists>r :: ('v, 'f) RecentLogs. NewRecentLogs maxCap n = Inr r \<and>
               entries r = [] \<and> maxEntries r = cap \<and>
               (\<forall>cs. entries (callLogs cs r) =
                        lastN (nat cap) (map entryOf (filter accepted cs)) \<and>
                      int (length (entries (callLogs cs r))) \<le> cap \<and>
                      maxEntries (callLogs cs r) = cap)"
      by (rule exI [of _ ?r], intro conjI, rule ok [OF c], rule r0, rule r0)
         (rule allI, rule all)
  next
    assume "maxCap < cap"
    then show "(NewRecentLogs maxCap n :: panic + ('v, 'f) RecentLogs) = Inl PanicMakeSliceCap"
      by (rule bad)
  qed
qed

text \<open>
  On a platform that allocates up to \<open>2^42\<close> entries: a ring asked for with capacity 0 has
  capacity 100; a ring of capacity 2 that has seen three accepted calls, and one that
  panicked, holds the last two accepted ones.
\<close>

theorem ring_keeps_most_recent_witness:
  "(if (0::int) \<le> 0 then 100 else 0) \<le> exampleMaxCap \<and>
   (if (2::int) \<le> 0 then 100 else 2) \<le> exampleMaxCap \<and>
   (\<exists>r :: (string, unit) RecentLogs. NewRecentLogs exampleMaxCap 0 = Inr r \<and> maxEntries r = 100) \<and>
   (\<exists>r :: (string, unit) RecentLogs. NewRecentLogs exampleMaxCap 2 = Inr r \<and>
      map Message (entries (callLogs threeCalls r)) = [''second'', ''third''])"
proof -
  have c0: "(if (0::int) \<le> 0 then 100 else 0) \<le> exampleMaxCap"
    and c2: "(if (2::int) \<le> 0 then 100 else 2) \<le> exampleMaxCap"
    by (simp_all add: exampleMaxCap_def)
  from ring_keeps_most_recent [where n = 0 and maxCap = exampleMaxCap] c0
  have a: "\<exists>r :: (string, unit) RecentLogs. NewRecentLogs exampleMaxCap 0 = Inr r \<and> maxEntries r = 100"
    by auto
  from ring_keeps_most_recent [where n = 2 and maxCap = exampleMaxCap] c2
  obtain r :: "(string, unit) RecentLogs" where
    r: "NewRecentLogs exampleMaxCap 2 = Inr r"
    and e: "entries (callLogs threeCalls r) = lastN (nat 2) (map entryOf (filter accepted threeCalls))"
    by auto
  have "map Message (lastN (nat 2) (map entryOf (filter accepted threeCalls))) = [''second'', ''third'']"
    by (simp add: threeCalls_def accepted_def len_context_def entryOf_def lastN_def)
  with e have "map Message (entries (callLogs threeCalls r)) = [''second'', ''third'']" by simp
  with r have b: "\<exists>r :: (string, unit) RecentLogs. NewRecentLogs exampleMaxCap 2 = Inr r \<and>
      map Message (entries (callLogs threeCalls r)) = [''second'', ''third'']"
    by (intro exI [of _ r] conjI)
  from c0 c2 a b show ?thesis by (intro conjI)
qed

section \<open>The registry: properties\<close>

lemma wfRegistry_New: "New own = Inr r \<Longrightarrow> wfRegistry r"
  by (auto simp: New_def wfRegistry_def split: if_splits)

lemma RegisterForEntity_wf:
  "wfRegistry r \<Longrightarrow> wfRegistry (snd (RegisterForEntity e c p iv r))"
  by (auto simp: RegisterForEntity_def wfRegistry_def Let_def split: option.splits)

lemma wf_cache_self:
  "wfRegistry r \<Longrightarrow> configs r e = Some m \<Longrightarrow>
   r\<lparr>configs := (configs r)(e \<mapsto> m),
      cache := (cache r)(e \<mapsto> case cache r e of None \<Rightarrow> Map.empty | Some x \<Rightarrow> x)\<rparr> = r"
proof -
  assume wf: "wfRegistry r" and c: "configs r e = Some m"
  from wf c obtain k where k: "cache r e = Some k" by (auto simp: wfRegistry_def)
  have "(configs r)(e \<mapsto> m) = configs r" using c by (simp add: fun_upd_idem)
  moreover have "(cache r)(e \<mapsto> k) = cache r" using k by (simp add: fun_upd_idem)
  ultimately show ?thesis using k by simp
qed

lemma RegisterForEntity_duplicate:
  assumes "wfRegistry r" "e \<noteq> []" "c \<noteq> []" "lookup2 (configs r) e c \<noteq> None"
  shows "RegisterForEntity e c (Some p) iv r = (Some (ErrAlreadyRegistered c e), r)"
proof -
  from assms(4) obtain m where m: "configs r e = Some m" and mc: "m c \<noteq> None"
    by (auto simp: lookup2_def split: option.splits)
  show ?thesis
    using assms(2,3) m mc wf_cache_self [OF assms(1) m]
    by (simp add: RegisterForEntity_def Let_def)
qed

lemma RegisterForEntity_fresh:
  assumes "e \<noteq> []" "c \<noteq> []" "lookup2 (configs r) e c = None"
  shows "fst (RegisterForEntity e c (Some p) iv r) = None \<and>
         lookup2 (configs (snd (RegisterForEntity e c (Some p) iv r))) e c =
           Some \<lparr>provider = p, updateInterval = (case iv of [] \<Rightarrow> None | i # _ \<Rightarrow> Some i)\<rparr>"
  using assms
  by (auto simp: RegisterForEntity_def Let_def lookup2_def split: option.splits)


lemma RegisterForEntity_eq:
  assumes "wfRegistry r"
  shows "RegisterForEntity e c p iv r =
     (if e = [] then (Some ErrEntityIDRequired, r)
      else if c = [] then (Some ErrComponentIDRequired, r)
      else case p of
        None \<Rightarrow> (Some ErrProviderRequired, r)
      | Some q \<Rightarrow>
          if lookup2 (configs r) e c \<noteq> None then (Some (ErrAlreadyRegistered c e), r)
          else (None, withConfig e c \<lparr>provider = q, updateInterval = intervalOf iv\<rparr> r))"
proof (cases "e = [] \<or> c = [] \<or> p = None")
  case True
  then show ?thesis by (auto simp: RegisterForEntity_def)
next
  case False
  then obtain q where q: "p = Some q" and e: "e \<noteq> []" and c: "c \<noteq> []" by auto
  show ?thesis
  proof (cases "lookup2 (configs r) e c = None")
    case True
    then show ?thesis using q e c
      by (auto simp: RegisterForEntity_def Let_def lookup2_def withConfig_def intervalOf_def
               split: option.splits)
  next
    case False
    with RegisterForEntity_duplicate [OF assms e c, of q iv] q e c show ?thesis by simp
  qed
qed

lemma lookup2_withConfig_other:
  "(e1, c1) \<noteq> (e2, c2) \<Longrightarrow>
   lookup2 (configs (withConfig e2 c2 cfg r)) e1 c1 = lookup2 (configs r) e1 c1"
  by (auto simp: withConfig_def lookup2_def split: option.splits)

lemma lookup2_withConfig_same:
  "lookup2 (configs (withConfig e c cfg r)) e c = Some cfg"
  by (simp add: withConfig_def lookup2_def)

lemma wfRegistry_withConfig: "wfRegistry r \<Longrightarrow> wfRegistry (withConfig e c cfg r)"
  by (auto simp: withConfig_def wfRegistry_def)

lemma withConfig_commute:
  assumes "(e1, c1) \<noteq> (e2, c2)"
  shows "withConfig e1 c1 x (withConfig e2 c2 y r) = withConfig e2 c2 y (withConfig e1 c1 x r)"
proof (cases "e1 = e2")
  case True
  with assms have "c1 \<noteq> c2" by simp
  with True show ?thesis
    by (simp add: withConfig_def fun_upd_twist split: option.splits)
next
  case False
  then show ?thesis
    by (simp add: withConfig_def fun_upd_twist split: option.splits)
qed


text \<open>
  C6. On a registry as the operations make it (every entity with configs has its cache
  map): \<open>RegisterForEntity\<close> fails with the entity-id, component-id or provider error on
  an empty entity id, an empty component id or a nil provider, and with the
  already-registered error when the pair is registered; in each of these cases the
  registry is returned as it was. Otherwise it succeeds and the pair is registered.
  The outcome of a registration is the same whether another pair was registered before
  it or not, and two registrations of different pairs give the same registry in either
  order.
\<close>

theorem RegisterForEntity_failures:
  assumes "wfRegistry r"
  shows
    "(e = [] \<longrightarrow> RegisterForEntity e c p iv r = (Some ErrEntityIDRequired, r)) \<and>
     (e \<noteq> [] \<and> c = [] \<longrightarrow> RegisterForEntity e c p iv r = (Some ErrComponentIDRequired, r)) \<and>
     (e \<noteq> [] \<and> c \<noteq> [] \<and> p = None \<longrightarrow>
        RegisterForEntity e c p iv r = (Some ErrProviderRequired, r)) \<and>
     (e \<noteq> [] \<and> c \<noteq> [] \<and> p \<noteq> None \<and> lookup2 (configs r) e c \<noteq> None \<longrightarrow>
        RegisterForEntity e c p iv r = (Some (ErrAlreadyRegistered c e), r)) \<and>
     (e \<noteq> [] \<and> c \<noteq> [] \<and> p \<noteq> None \<and> lookup2 (configs r) e c = None \<longrightarrow>
        fst (RegisterForEntity e c p iv r) = None \<and>
        lookup2 (configs (snd (RegisterForEntity e c p iv r))) e c \<noteq> None) \<and>
     ((e, c) \<noteq> (e', c') \<longrightarrow>
        fst (RegisterForEntity e c p iv (snd (RegisterForEntity e' c' p' iv' r)))
          = fst (RegisterForEntity e c p iv r) \<and>
        snd (RegisterForEntity e c p iv (snd (RegisterForEntity e' c' p' iv' r)))
          = snd (RegisterForEntity e' c' p' iv' (snd (RegisterForEntity e c p iv r)))) \<and>
     Register c p iv r = RegisterForEntity (ownEntityID r) c p iv r"
proof -
  note eq = RegisterForEntity_eq [OF assms]
  have own: "Register c p iv r = RegisterForEntity (ownEntityID r) c p iv r"
    by (simp add: Register_def)
  have fails: "(e = [] \<longrightarrow> RegisterForEntity e c p iv r = (Some ErrEntityIDRequired, r)) \<and>
     (e \<noteq> [] \<and> c = [] \<longrightarrow> RegisterForEntity e c p iv r = (Some ErrComponentIDRequired, r)) \<and>
     (e \<noteq> [] \<and> c \<noteq> [] \<and> p = None \<longrightarrow>
        RegisterForEntity e c p iv r = (Some ErrProviderRequired, r)) \<and>
     (e \<noteq> [] \<and> c \<noteq> [] \<and> p \<noteq> None \<and> lookup2 (configs r) e c \<noteq> None \<longrightarrow>
        RegisterForEntity e c p iv r = (Some (ErrAlreadyRegistered c e), r))"
    by (auto simp: eq)
  have succeeds: "e \<noteq> [] \<and> c \<noteq> [] \<and> p \<noteq> None \<and> lookup2 (configs r) e c = None \<longrightarrow>
        fst (RegisterForEntity e c p iv r) = None \<and>
        lookup2 (configs (snd (RegisterForEntity e c p iv r))) e c \<noteq> None"
    by (auto simp: eq lookup2_withConfig_same)
  have order: "fst (RegisterForEntity e c p iv (snd (RegisterForEntity e' c' p' iv' r)))
          = fst (RegisterForEntity e c p iv r) \<and>
        snd (RegisterForEntity e c p iv (snd (RegisterForEntity e' c' p' iv' r)))
          = snd (RegisterForEntity e' c' p' iv' (snd (RegisterForEntity e c p iv r)))"
    if ne: "(e, c) \<noteq> (e', c')"
  proof -
    let ?r1 = "snd (RegisterForEntity e c p iv r)"
    let ?r2 = "snd (RegisterForEntity e' c' p' iv' r)"
    have wf1: "wfRegistry ?r1" and wf2: "wfRegistry ?r2"
      using assms by (rule RegisterForEntity_wf)+
    have l1: "lookup2 (configs ?r2) e c = lookup2 (configs r) e c"
      using ne by (auto simp: RegisterForEntity_eq [OF assms] lookup2_withConfig_other
                        split: option.splits)
    have ne': "(e', c') \<noteq> (e, c)" using ne by auto
    have l2: "lookup2 (configs ?r1) e' c' = lookup2 (configs r) e' c'"
      using ne' by (auto simp: RegisterForEntity_eq [OF assms] lookup2_withConfig_other
                         split: option.splits)
    have a: "fst (RegisterForEntity e c p iv ?r2) = fst (RegisterForEntity e c p iv r)"
      by (simp add: RegisterForEntity_eq [OF wf2] RegisterForEntity_eq [OF assms, of e c p iv] l1
               split: option.splits)
    have b: "snd (RegisterForEntity e c p iv ?r2) = snd (RegisterForEntity e' c' p' iv' ?r1)"
      unfolding RegisterForEntity_eq [OF wf2, of e c p iv]
                RegisterForEntity_eq [OF wf1, of e' c' p' iv'] l1 l2
      using withConfig_commute [OF ne]
      by (auto simp: RegisterForEntity_eq [OF assms] split: option.splits)
    from a b show ?thesis by simp
  qed
  from fails succeeds order own show ?thesis by blast
qed

lemma wfRegistry_example: "wfRegistry exampleRegistry"
  by (simp add: wfRegistry_def exampleRegistry_def)

theorem RegisterForEntity_failures_witness:
  "wfRegistry exampleRegistry \<and>
   RegisterForEntity [] ''health'' (Some 7) [] exampleRegistry
     = (Some ErrEntityIDRequired, exampleRegistry) \<and>
   RegisterForEntity ''svc-staging'' ''health'' None [] exampleRegistry
     = (Some ErrProviderRequired, exampleRegistry) \<and>
   fst (RegisterForEntity ''svc-staging'' ''health'' (Some 7) [] exampleRegistry) = None \<and>
   (let r1 = snd (RegisterForEntity ''svc-staging'' ''health'' (Some 7) [] exampleRegistry)
    in RegisterForEntity ''svc-staging'' ''health'' (Some 8) [Fast] r1
         = (Some (ErrAlreadyRegistered ''health'' ''svc-staging''), r1))"
proof -
  let ?r1 = "snd (RegisterForEntity ''svc-staging'' ''health'' (Some 7) [] exampleRegistry)"
  have wf1: "wfRegistry ?r1" by (rule RegisterForEntity_wf [OF wfRegistry_example])
  have fresh: "lookup2 (configs exampleRegistry) ''svc-staging'' ''health'' = None"
    by (simp add: lookup2_def exampleRegistry_def)
  have t0: "RegisterForEntity [] ''health'' (Some 7) [] exampleRegistry
     = (Some ErrEntityIDRequired, exampleRegistry)"
    using RegisterForEntity_failures [OF wfRegistry_example, of "[]" "''health''" "Some 7" "[]"]
    by simp
  have t1: "RegisterForEntity ''svc-staging'' ''health'' None [] exampleRegistry
     = (Some ErrProviderRequired, exampleRegistry)"
    using RegisterForEntity_failures [OF wfRegistry_example, of "''svc-staging''" "''health''" None "[]"]
    by simp
  have t2: "fst (RegisterForEntity ''svc-staging'' ''health'' (Some 7) [] exampleRegistry) = None \<and>
            lookup2 (configs ?r1) ''svc-staging'' ''health'' \<noteq> None"
    using RegisterForEntity_failures [OF wfRegistry_example,
            of "''svc-staging''" "''health''" "Some 7" "[]"] fresh
    by simp
  have t3: "RegisterForEntity ''svc-staging'' ''health'' (Some 8) [Fast] ?r1
         = (Some (ErrAlreadyRegistered ''health'' ''svc-staging''), ?r1)"
    using RegisterForEntity_failures [OF wf1, of "''svc-staging''" "''health''" "Some 8" "[Fast]"] t2
    by simp
  from wfRegistry_example t0 t1 t2 t3 show ?thesis by (simp add: Let_def)
qed

lemma Collect_hit:
  assumes "lookup2 (configs r) e c = Some cfg"
      and "jsonMarshal E (invoke E (provider cfg)) = Some bytes"
      and "cache r e = Some ec" and "ec c = Some cached" and "lastRawJSON cached = bytes"
  shows "Collect_component E now e c r =
     Inr \<lparr>returned = Inr (lastComponent cached),
          registryAfter = r\<lparr>cache := (cache r)(e \<mapsto> ec(c \<mapsto> cached\<lparr>lastUpdate := now\<rparr>))\<rparr>,
          hashed = []\<rparr>"
  using assms by (simp add: Collect_component_def Let_def)

lemma Collect_miss:
  assumes "lookup2 (configs r) e c = Some cfg"
      and "jsonMarshal E (invoke E (provider cfg)) = Some bytes"
      and "cache r e = Some ec"
      and "\<forall>cached. ec c = Some cached \<longrightarrow> lastRawJSON cached \<noteq> bytes"
  shows "Collect_component E now e c r =
     Inr (recompute E now e c bytes
            (case ec c of None \<Rightarrow> zeroTime | Some old \<Rightarrow> lastSync old) r ec)"
  using assms by (auto simp: Collect_component_def Let_def split: option.splits)

lemma wf_cache_entity:
  "wfRegistry r \<Longrightarrow> lookup2 (configs r) e c = Some cfg \<Longrightarrow> \<exists>ec. cache r e = Some ec"
  by (auto simp: wfRegistry_def lookup2_def split: option.splits)

text \<open>
  C1. For a registered pair whose provider's value serialises to \<open>bytes\<close>, \<open>Collect\<close>
  returns; if the cache holds an entry with these bytes, it returns the cached component,
  hashes nothing, and the entry is the old one with \<open>lastUpdate\<close> set to now; otherwise
  it hashes the bytes once, returns a component with that checksum and the bytes as
  data, and the entry is the new one, with the \<open>lastSync\<close> of the old entry (the zero
  time when there was none). A further \<open>Collect\<close> in which the provider's value
  serialises to the same bytes returns the same component and hashes nothing.
\<close>

theorem Collect_caching_rule:
  fixes E :: "('p, 'd) env"
  assumes wf: "wfRegistry r"
      and reg: "lookup2 (configs r) e c = Some cfg"
      and enc: "jsonMarshal E (invoke E (provider cfg)) = Some bytes"
  shows "\<exists>res. Collect_component E now e c r = Inr res \<and>
     (\<forall>cached. lookup2 (cache r) e c = Some cached \<and> lastRawJSON cached = bytes \<longrightarrow>
        returned res = Inr (lastComponent cached) \<and> hashed res = [] \<and>
        lookup2 (cache (registryAfter res)) e c = Some (cached\<lparr>lastUpdate := now\<rparr>)) \<and>
     ((\<forall>cached. lookup2 (cache r) e c = Some cached \<longrightarrow> lastRawJSON cached \<noteq> bytes) \<longrightarrow>
        returned res = Inr \<lparr>ID = c, Type = c, Checksum = sha256hex E bytes,
                            Data = RawMessage bytes\<rparr> \<and>
        hashed res = [bytes] \<and>
        lookup2 (cache (registryAfter res)) e c =
          Some \<lparr>lastRawJSON = bytes, lastChecksum = sha256hex E bytes,
                lastComponent = \<lparr>ID = c, Type = c, Checksum = sha256hex E bytes,
                                  Data = RawMessage bytes\<rparr>,
                lastSync = (case lookup2 (cache r) e c of
                              None \<Rightarrow> zeroTime | Some old \<Rightarrow> lastSync old),
                lastUpdate = now\<rparr>) \<and>
     configs (registryAfter res) = configs r \<and>
     wfRegistry (registryAfter res) \<and>
     (\<forall>(E' :: ('p, 'd) env) now'. jsonMarshal E' (invoke E' (provider cfg)) = Some bytes \<longrightarrow>
        (\<exists>res'. Collect_component E' now' e c (registryAfter res) = Inr res' \<and>
                returned res' = returned res \<and> hashed res' = []))"
proof -
  from wf_cache_entity [OF wf reg] obtain ec where ec: "cache r e = Some ec" by blast
  have l: "lookup2 (cache r) e c = ec c" using ec by (simp add: lookup2_def)
  show ?thesis
  proof (cases "\<exists>cached. ec c = Some cached \<and> lastRawJSON cached = bytes")
    case True
    then obtain cached where c: "ec c = Some cached" and b: "lastRawJSON cached = bytes" by blast
    let ?r' = "r\<lparr>cache := (cache r)(e \<mapsto> ec(c \<mapsto> cached\<lparr>lastUpdate := now\<rparr>))\<rparr>"
    let ?res = "\<lparr>returned = Inr (lastComponent cached), registryAfter = ?r', hashed = []\<rparr>"
    have run: "Collect_component E now e c r = Inr ?res"
      by (rule Collect_hit [OF reg enc ec c b])
    have wf': "wfRegistry ?r'" using wf by (auto simp: wfRegistry_def)
    have reg': "lookup2 (configs ?r') e c = Some cfg" using reg by simp
    have again: "\<exists>res'. Collect_component E' now' e c ?r' = Inr res' \<and>
                returned res' = returned ?res \<and> hashed res' = []"
      if "jsonMarshal E' (invoke E' (provider cfg)) = Some bytes" for E' :: "('p, 'd) env" and now'
      using Collect_hit [OF reg' that, of "ec(c \<mapsto> cached\<lparr>lastUpdate := now\<rparr>)"
              "cached\<lparr>lastUpdate := now\<rparr>" now'] b
      by simp
    from run wf' again c b l show ?thesis by (simp add: lookup2_def)
  next
    case False
    then have no: "\<forall>cached. ec c = Some cached \<longrightarrow> lastRawJSON cached \<noteq> bytes" by blast
    let ?kept = "case ec c of None \<Rightarrow> zeroTime | Some old \<Rightarrow> lastSync old"
    let ?co = "\<lparr>ID = c, Type = c, Checksum = sha256hex E bytes, Data = RawMessage bytes\<rparr>"
    let ?entry = "\<lparr>lastRawJSON = bytes, lastChecksum = sha256hex E bytes, lastComponent = ?co,
                   lastSync = ?kept, lastUpdate = now\<rparr>"
    let ?r' = "r\<lparr>cache := (cache r)(e \<mapsto> ec(c \<mapsto> ?entry))\<rparr>"
    let ?res = "\<lparr>returned = Inr ?co, registryAfter = ?r', hashed = [bytes]\<rparr>"
    have run: "Collect_component E now e c r = Inr ?res"
      using Collect_miss [OF reg enc ec no, of now] by (simp add: recompute_def Let_def)
    have wf': "wfRegistry ?r'" using wf by (auto simp: wfRegistry_def)
    have reg': "lookup2 (configs ?r') e c = Some cfg" using reg by simp
    have again: "\<exists>res'. Collect_component E' now' e c ?r' = Inr res' \<and>
                returned res' = returned ?res \<and> hashed res' = []"
      if "jsonMarshal E' (invoke E' (provider cfg)) = Some bytes" for E' :: "('p, 'd) env" and now'
      using Collect_hit [OF reg' that, of "ec(c \<mapsto> ?entry)" ?entry now']
      by simp
    from run wf' again no l show ?thesis by (auto simp: lookup2_def)
  qed
qed


lemma digitsOf_42: "digitsOf 42 = ''42''"
  by code_simp

theorem Collect_caching_rule_witness:
  "(let r1 = snd (RegisterForEntity ''svc-staging'' ''health'' (Some 42) [] exampleRegistry)
    in wfRegistry r1 \<and>
       lookup2 (configs r1) ''svc-staging'' ''health''
         = Some \<lparr>provider = 42, updateInterval = None\<rparr> \<and>
       jsonMarshal exampleEnv (invoke exampleEnv 42) = Some ''42'' \<and>
       (\<exists>res. Collect_component exampleEnv exampleTime ''svc-staging'' ''health'' r1 = Inr res \<and>
          returned res = Inr \<lparr>ID = ''health'', Type = ''health'', Checksum = ''24'',
                              Data = RawMessage ''42''\<rparr> \<and>
          hashed res = [''42''] \<and>
          (\<exists>res'. Collect_component exampleEnv exampleTime ''svc-staging'' ''health''
                     (registryAfter res) = Inr res' \<and>
                  returned res' = returned res \<and> hashed res' = [])))"
proof -
  let ?r1 = "snd (RegisterForEntity ''svc-staging'' ''health'' (Some 42) [] exampleRegistry)"
  let ?cfg = "\<lparr>provider = 42 :: nat, updateInterval = None\<rparr>"
  have wf1: "wfRegistry ?r1" by (rule RegisterForEntity_wf [OF wfRegistry_example])
  have fresh: "lookup2 (configs exampleRegistry) ''svc-staging'' ''health'' = None"
    by (simp add: lookup2_def exampleRegistry_def)
  have r1: "?r1 = withConfig ''svc-staging'' ''health'' ?cfg exampleRegistry"
    by (simp add: RegisterForEntity_eq [OF wfRegistry_example] fresh intervalOf_def)
  have reg: "lookup2 (configs ?r1) ''svc-staging'' ''health'' = Some ?cfg"
    by (simp add: r1 lookup2_withConfig_same)
  have enc: "jsonMarshal exampleEnv (invoke exampleEnv (provider ?cfg)) = Some ''42''"
    by (simp add: exampleEnv_def digitsOf_42)
  have none: "lookup2 (cache ?r1) ''svc-staging'' ''health'' = None"
    unfolding r1 by (simp add: withConfig_def lookup2_def exampleRegistry_def)
  have sha: "sha256hex exampleEnv ''42'' = ''24''" by (simp add: exampleEnv_def)
  from Collect_caching_rule [OF wf1 reg enc, of exampleTime]
  obtain res where
    run: "Collect_component exampleEnv exampleTime ''svc-staging'' ''health'' ?r1 = Inr res"
    and miss: "(\<forall>cached. lookup2 (cache ?r1) ''svc-staging'' ''health'' = Some cached \<longrightarrow>
                 lastRawJSON cached \<noteq> ''42'') \<longrightarrow>
        returned res = Inr \<lparr>ID = ''health'', Type = ''health'',
                            Checksum = sha256hex exampleEnv ''42'', Data = RawMessage ''42''\<rparr> \<and>
        hashed res = [''42'']"
    and again: "\<forall>(E' :: (nat, nat) env) now'.
        jsonMarshal E' (invoke E' (provider ?cfg)) = Some ''42'' \<longrightarrow>
        (\<exists>res'. Collect_component E' now' ''svc-staging'' ''health'' (registryAfter res) = Inr res' \<and>
                returned res' = returned res \<and> hashed res' = [])"
    by blast
  from miss none sha have first:
    "returned res = Inr \<lparr>ID = ''health'', Type = ''health'', Checksum = ''24'',
                         Data = RawMessage ''42''\<rparr> \<and> hashed res = [''42'']"
    by simp
  from again enc have second:
    "\<exists>res'. Collect_component exampleEnv exampleTime ''svc-staging'' ''health''
               (registryAfter res) = Inr res' \<and>
            returned res' = returned res \<and> hashed res' = []"
    by blast
  from run first second have both:
    "\<exists>res. Collect_component exampleEnv exampleTime ''svc-staging'' ''health'' ?r1 = Inr res \<and>
          returned res = Inr \<lparr>ID = ''health'', Type = ''health'', Checksum = ''24'',
                              Data = RawMessage ''42''\<rparr> \<and>
          hashed res = [''42''] \<and>
          (\<exists>res'. Collect_component exampleEnv exampleTime ''svc-staging'' ''health''
                     (registryAfter res) = Inr res' \<and>
                  returned res' = returned res \<and> hashed res' = [])"
    by blast
  from enc have enc': "jsonMarshal exampleEnv (invoke exampleEnv 42) = Some ''42''" by simp
  from wf1 reg enc' both show ?thesis unfolding Let_def by blast
qed

section \<open>The transport: properties\<close>

lemma map_of_pki:
  "map_of pkiFiles ''/etc/pki/ca-chain.cert.pem'' = Some ''CHAIN''"
  "map_of pkiFiles ''/etc/pki/ca.cert.pem'' = Some ''CA''"
  "map_of pkiFiles ''/etc/pki/svc.cert.pem'' = Some ''CERT''"
  "map_of pkiFiles ''/etc/pki/svc.key.pem'' = Some ''KEY''"
  "map_of pkiFiles ''/certs/ca-chain.cert.pem'' = None"
  by (simp_all add: pkiFiles_def)

lemma map_of_certs:
  "map_of certsFiles ''/etc/pki/ca.cert.pem'' = Some ''CA''"
  "map_of certsFiles ''/etc/pki/svc.cert.pem'' = Some ''CERT''"
  "map_of certsFiles ''/etc/pki/svc.key.pem'' = Some ''KEY''"
  "map_of certsFiles ''/certs/ca-chain.cert.pem'' = Some ''CERTS-CHAIN''"
  by (simp_all add: certsFiles_def map_of_pki)

lemma BuildHTTP2Client_returns:
  assumes "certPath \<noteq> []" "keyPath \<noteq> []" "caPath \<noteq> []"
      and "loadX509KeyPair fs certPath keyPath = Some k"
      and "readFile fs (if statOK fs ''/certs/ca-chain.cert.pem''
                 then ''/certs/ca-chain.cert.pem'' else caPath) = Some b"
      and "appendCertsFromPEM fs b = Some pool"
  shows "BuildHTTP2Client fs certPath keyPath caPath =
        Inr \<lparr>Certificates = [k], RootCAs = pool,
             MinVersion = VersionTLS13, MaxVersion = VersionTLS13\<rparr>"
  using assms
  by (cases "statOK fs ''/certs/ca-chain.cert.pem''") (simp_all add: BuildHTTP2Client_def Let_def)

lemma BuildHTTP2Client_returned:
  assumes "BuildHTTP2Client fs certPath keyPath caPath = Inr client"
  shows "\<exists>b. readFile fs (if statOK fs ''/certs/ca-chain.cert.pem''
                         then ''/certs/ca-chain.cert.pem'' else caPath) = Some b \<and>
           appendCertsFromPEM fs b = Some (RootCAs client)"
proof -
  from assms obtain k where "loadX509KeyPair fs certPath keyPath = Some k"
    by (auto simp: BuildHTTP2Client_def Let_def split: if_splits option.splits)
  with assms show ?thesis
    by (auto simp: BuildHTTP2Client_def Let_def split: if_splits option.splits)
qed


text \<open>
  C8, as stated, fails: with the certificate directory \<open>/etc/pki\<close> holding a file
  \<open>ca-chain.cert.pem\<close> and no file \<open>/certs/ca-chain.cert.pem\<close>, the transport built for
  the configuration trusts the file at the configured CA path, not the chain file of the
  certificate directory.
\<close>

theorem CA_not_from_certDir_counterexample:
  "statOK (fsOf pkiFiles) (CertDir exampleConfig @ ''/ca-chain.cert.pem'') \<and>
   readFile (fsOf pkiFiles) (CertDir exampleConfig @ ''/ca-chain.cert.pem'') = Some ''CHAIN'' \<and>
   appendCertsFromPEM (fsOf pkiFiles) ''CHAIN'' = Some ''CHAIN'' \<and>
   transportOf (fsOf pkiFiles) exampleConfig =
     Inr \<lparr>Certificates = [''CERTKEY''], RootCAs = ''CA'',
          MinVersion = VersionTLS13, MaxVersion = VersionTLS13\<rparr> \<and>
   ''CA'' \<noteq> ''CHAIN''"
proof -
  have a: "statOK (fsOf pkiFiles) (CertDir exampleConfig @ ''/ca-chain.cert.pem'')"
    by (simp add: fsOf_def exampleConfig_def map_of_pki)
  have b: "readFile (fsOf pkiFiles) (CertDir exampleConfig @ ''/ca-chain.cert.pem'') = Some ''CHAIN''"
    by (simp add: fsOf_def exampleConfig_def map_of_pki)
  have c: "appendCertsFromPEM (fsOf pkiFiles) ''CHAIN'' = Some ''CHAIN''"
    by (simp add: fsOf_def)
  have d: "transportOf (fsOf pkiFiles) exampleConfig =
     Inr \<lparr>Certificates = [''CERTKEY''], RootCAs = ''CA'',
          MinVersion = VersionTLS13, MaxVersion = VersionTLS13\<rparr>"
    by (simp add: transportOf_def BuildHTTP2Client_def fsOf_def exampleConfig_def map_of_pki)
  from a b c d show ?thesis by simp
qed

text \<open>
  C8, amended. \<open>BuildHTTP2Client\<close> takes the CA trust store from the fixed path
  \<open>/certs/ca-chain.cert.pem\<close> when \<open>os.Stat\<close> succeeds on it, and otherwise from the
  configured CA path: whenever it returns a client, the client's root pool is the one
  parsed from that file, and it does return one when the key pair loads and that file
  reads and parses. The configured certificate directory plays no part in the transport.
\<close>

theorem BuildHTTP2Client_trust_store:
  "(BuildHTTP2Client fs certPath keyPath caPath = Inr client \<longrightarrow>
      (\<exists>b. readFile fs (if statOK fs ''/certs/ca-chain.cert.pem''
                         then ''/certs/ca-chain.cert.pem'' else caPath) = Some b \<and>
           appendCertsFromPEM fs b = Some (RootCAs client))) \<and>
   (certPath \<noteq> [] \<and> keyPath \<noteq> [] \<and> caPath \<noteq> [] \<and>
    loadX509KeyPair fs certPath keyPath = Some k \<and>
    readFile fs (if statOK fs ''/certs/ca-chain.cert.pem''
                 then ''/certs/ca-chain.cert.pem'' else caPath) = Some b' \<and>
    appendCertsFromPEM fs b' = Some pool \<longrightarrow>
      BuildHTTP2Client fs certPath keyPath caPath =
        Inr \<lparr>Certificates = [k], RootCAs = pool,
             MinVersion = VersionTLS13, MaxVersion = VersionTLS13\<rparr>) \<and>
   transportOf fs (cfg\<lparr>CertDir := d\<rparr>) = transportOf fs cfg"
proof -
  have 3: "transportOf fs (cfg\<lparr>CertDir := d\<rparr>) = transportOf fs cfg"
    by (simp add: transportOf_def)
  from BuildHTTP2Client_returned [of fs certPath keyPath caPath client]
       BuildHTTP2Client_returns [of certPath keyPath caPath fs k b' pool] 3
  show ?thesis by blast
qed


theorem BuildHTTP2Client_trust_store_witness:
  "statOK (fsOf certsFiles) ''/certs/ca-chain.cert.pem'' \<and>
   transportOf (fsOf certsFiles) exampleConfig =
     Inr \<lparr>Certificates = [''CERTKEY''], RootCAs = ''CERTS-CHAIN'',
          MinVersion = VersionTLS13, MaxVersion = VersionTLS13\<rparr> \<and>
   \<not> statOK (fsOf pkiFiles) ''/certs/ca-chain.cert.pem'' \<and>
   transportOf (fsOf pkiFiles) exampleConfig =
     Inr \<lparr>Certificates = [''CERTKEY''], RootCAs = ''CA'',
          MinVersion = VersionTLS13, MaxVersion = VersionTLS13\<rparr>"
proof -
  let ?cert = "''/etc/pki/svc.cert.pem''" and ?key = "''/etc/pki/svc.key.pem''"
  let ?ca = "''/etc/pki/ca.cert.pem''"
  let ?c1 = "\<lparr>Certificates = [''CERTKEY''], RootCAs = ''CERTS-CHAIN'',
          MinVersion = VersionTLS13, MaxVersion = VersionTLS13\<rparr>"
  let ?c2 = "\<lparr>Certificates = [''CERTKEY''], RootCAs = ''CA'',
          MinVersion = VersionTLS13, MaxVersion = VersionTLS13\<rparr>"
  have s1: "statOK (fsOf certsFiles) ''/certs/ca-chain.cert.pem''"
    by (simp add: fsOf_def map_of_certs)
  have s2: "\<not> statOK (fsOf pkiFiles) ''/certs/ca-chain.cert.pem''"
    by (simp add: fsOf_def map_of_pki)
  have k1: "loadX509KeyPair (fsOf certsFiles) ?cert ?key = Some ''CERTKEY''"
    by (simp add: fsOf_def map_of_certs)
  have k2: "loadX509KeyPair (fsOf pkiFiles) ?cert ?key = Some ''CERTKEY''"
    by (simp add: fsOf_def map_of_pki)
  have r1: "readFile (fsOf certsFiles)
              (if statOK (fsOf certsFiles) ''/certs/ca-chain.cert.pem''
               then ''/certs/ca-chain.cert.pem'' else ?ca) = Some ''CERTS-CHAIN''"
    by (simp add: fsOf_def map_of_certs)
  have r2: "readFile (fsOf pkiFiles)
              (if statOK (fsOf pkiFiles) ''/certs/ca-chain.cert.pem''
               then ''/certs/ca-chain.cert.pem'' else ?ca) = Some ''CA''"
    by (simp add: fsOf_def map_of_pki)
  have p1: "appendCertsFromPEM (fsOf certsFiles) ''CERTS-CHAIN'' = Some ''CERTS-CHAIN''"
    by (simp add: fsOf_def)
  have p2: "appendCertsFromPEM (fsOf pkiFiles) ''CA'' = Some ''CA''"
    by (simp add: fsOf_def)
  have ne: "?cert \<noteq> [] \<and> ?key \<noteq> [] \<and> ?ca \<noteq> []" by simp
  have a: "BuildHTTP2Client (fsOf certsFiles) ?cert ?key ?ca = Inr ?c1"
    using BuildHTTP2Client_trust_store [of "fsOf certsFiles" ?cert ?key ?ca ?c1 "''CERTKEY''"
            "''CERTS-CHAIN''" "''CERTS-CHAIN''"] ne k1 r1 p1
    by blast
  have b: "BuildHTTP2Client (fsOf pkiFiles) ?cert ?key ?ca = Inr ?c2"
    using BuildHTTP2Client_trust_store [of "fsOf pkiFiles" ?cert ?key ?ca ?c2 "''CERTKEY''"
            "''CA''" "''CA''"] ne k2 r2 p2
    by blast
  from s1 s2 a b show ?thesis by (simp add: transportOf_def exampleConfig_def)
qed

section \<open>The sync attempt and the backoff: properties\<close>

lemma len_context_Cons: "len_context (Some (kv # kvs)) \<noteq> 0"
  by (auto simp: len_context_def)

lemma Log_ok:
  assumes "0 < maxEntries l" "len_context ctx \<noteq> 0"
  shows "\<exists>l'. Log now lv m ctx l = Inr l' \<and> maxEntries l' = maxEntries l \<and>
              triggerFunc l' = triggerFunc l"
  using Log_nonempty [OF assms(2,1)] by simp

lemma engineUntouched_refl: "engineUntouched c c"
  by (simp add: engineUntouched_def)

lemma engineUntouched_trans:
  "engineUntouched a b \<Longrightarrow> engineUntouched b c \<Longrightarrow> engineUntouched a c"
  by (simp add: engineUntouched_def)

lemma logsWarn_ok:
  assumes "wfClient c" "len_context ctx \<noteq> 0"
  shows "\<exists>c'. logsWarn now m ctx c = Inr c' \<and> wfClient c' \<and> engineUntouched c c' \<and>
              posts c' = posts c \<and> registry c' = registry c"
proof -
  from assms(1) have "0 < maxEntries (logs c)" by (simp add: wfClient_def)
  from Log_ok [OF this assms(2)] obtain l' where
    l: "Log now LevelWarn m ctx (logs c) = Inr l'" and mx: "maxEntries l' = maxEntries (logs c)"
    by blast
  then show ?thesis using assms(1)
    by (cases "triggerFunc l'")
       (simp_all add: logsWarn_def Warn_def wfClient_def engineUntouched_def launchIt_def)
qed

lemma logsErrorNoTrigger_ok:
  assumes "wfClient c" "len_context ctx \<noteq> 0"
  shows "\<exists>c'. logsErrorNoTrigger now m ctx c = Inr c' \<and> wfClient c' \<and> engineUntouched c c' \<and>
              posts c' = posts c \<and> registry c' = registry c \<and> launched c' = launched c"
proof -
  from assms(1) have "0 < maxEntries (logs c)" by (simp add: wfClient_def)
  from Log_ok [OF this assms(2)] obtain l' where
    l: "Log now LevelError m ctx (logs c) = Inr l'" and mx: "maxEntries l' = maxEntries (logs c)"
    by blast
  then show ?thesis using assms(1)
    by (simp add: logsErrorNoTrigger_def ErrorNoTrigger_def wfClient_def engineUntouched_def)
qed

lemma Collect_ok:
  assumes "wfRegistry r"
  shows "\<exists>res. Collect_component E now e c r = Inr res \<and> wfRegistry (registryAfter res)"
proof (cases "lookup2 (configs r) e c")
  case None
  then show ?thesis using assms by (simp add: Collect_component_def)
next
  case (Some cfg)
  with assms obtain ec where ec: "cache r e = Some ec"
    by (auto simp: wfRegistry_def lookup2_def split: option.splits)
  have wf': "wfRegistry (r\<lparr>cache := (cache r)(e \<mapsto> m)\<rparr>)" for m
    using assms by (auto simp: wfRegistry_def)
  show ?thesis using Some ec assms wf'
    by (auto simp: Collect_component_def Let_def recompute_def split: option.splits)
qed

lemma collect_step:
  assumes "wfClient c"
  shows "\<exists>res. Collect_component E now e cid (registry c) = Inr res \<and>
               wfClient (c\<lparr>registry := registryAfter res\<rparr>) \<and>
               engineUntouched c (c\<lparr>registry := registryAfter res\<rparr>)"
  using Collect_ok [of "registry c" E now e cid] assms
  by (auto simp: wfClient_def engineUntouched_def)

lemma collectChecksums_ok:
  "wfClient c \<Longrightarrow>
   \<exists>c' sums'. collectChecksums E now e cids c sums = Inr (c', sums') \<and> wfClient c' \<and>
              engineUntouched c c' \<and> posts c' = posts c"
proof (induction cids arbitrary: c sums)
  case Nil
  then show ?case by (simp add: engineUntouched_refl)
next
  case (Cons cid cids)
  from collect_step [OF Cons.prems, of E now e cid] obtain res where
    run: "Collect_component E now e cid (registry c) = Inr res"
    and wf1: "wfClient (c\<lparr>registry := registryAfter res\<rparr>)"
    and un1: "engineUntouched c (c\<lparr>registry := registryAfter res\<rparr>)" by blast
  let ?c1 = "c\<lparr>registry := registryAfter res\<rparr>"
  show ?case
  proof (cases "returned res")
    case (Inl err)
    let ?ctx = "Some [(''entity_id'', LString e), (''component_id'', LString cid),
                      (''error'', LError err)]"
    from logsWarn_ok [OF wf1 len_context_Cons,
           of now "''Failed to collect component for update check''"]
    obtain c2 where w: "logsWarn now ''Failed to collect component for update check'' ?ctx ?c1 = Inr c2"
      and wf2: "wfClient c2" and un2: "engineUntouched ?c1 c2" and p2: "posts c2 = posts ?c1"
      by blast
    from Cons.IH [OF wf2, of sums] obtain c' sums' where
      r: "collectChecksums E now e cids c2 sums = Inr (c', sums')" and wf': "wfClient c'"
      and un': "engineUntouched c2 c'" and p': "posts c' = posts c2" by blast
    from run Inl w r have "collectChecksums E now e (cid # cids) c sums = Inr (c', sums')"
      by (simp add: Let_def)
    moreover have "engineUntouched c c'"
      using un1 un2 un' by (blast intro: engineUntouched_trans)
    moreover have "posts c' = posts c" using p' p2 by simp
    ultimately show ?thesis using wf' by blast
  next
    case (Inr co)
    from Cons.IH [OF wf1, of "sums(cid \<mapsto> Checksum co)"] obtain c' sums' where
      r: "collectChecksums E now e cids ?c1 (sums(cid \<mapsto> Checksum co)) = Inr (c', sums')"
      and wf': "wfClient c'" and un': "engineUntouched ?c1 c'" and p': "posts c' = posts ?c1"
      by blast
    from run Inr r have "collectChecksums E now e (cid # cids) c sums = Inr (c', sums')"
      by (simp add: Let_def)
    moreover have "engineUntouched c c'"
      using un1 un' by (blast intro: engineUntouched_trans)
    moreover have "posts c' = posts c" using p' by simp
    ultimately show ?thesis using wf' by blast
  qed
qed

lemma collectAllChecksums_ok:
  "wfClient c \<Longrightarrow>
   \<exists>c' sums'. collectAllChecksums E now ks c sums = Inr (c', sums') \<and> wfClient c' \<and>
              engineUntouched c c' \<and> posts c' = posts c"
proof (induction ks arbitrary: c sums)
  case Nil
  then show ?case by (simp add: engineUntouched_refl)
next
  case (Cons k ks)
  obtain e cids where k: "k = (e, cids)" by (cases k)
  from collectChecksums_ok [OF Cons.prems, of E now e cids Map.empty] obtain c1 s1 where
    a: "collectChecksums E now e cids c Map.empty = Inr (c1, s1)" and wf1: "wfClient c1"
    and un1: "engineUntouched c c1" and p1: "posts c1 = posts c" by blast
  from Cons.IH [OF wf1, of "sums(e \<mapsto> s1)"] obtain c' sums' where
    r: "collectAllChecksums E now ks c1 (sums(e \<mapsto> s1)) = Inr (c', sums')" and wf': "wfClient c'"
    and un': "engineUntouched c1 c'" and p': "posts c' = posts c1" by blast
  from a r k have "collectAllChecksums E now (k # ks) c sums = Inr (c', sums')" by simp
  moreover have "engineUntouched c c'" using un1 un' by (blast intro: engineUntouched_trans)
  moreover have "posts c' = posts c" using p' p1 by simp
  ultimately show ?case using wf' by blast
qed

lemma gatherComponents_ok:
  "wfClient c \<Longrightarrow>
   \<exists>c' t'. gatherComponents E now hb e cids c toSend = Inr (c', t') \<and> wfClient c' \<and>
           engineUntouched c c' \<and> posts c' = posts c"
proof (induction cids arbitrary: c toSend)
  case Nil
  then show ?case by (simp add: engineUntouched_refl)
next
  case (Cons cid cids)
  let ?app = "\<lambda>co. toSend(e \<mapsto> (case toSend e of None \<Rightarrow> [] | Some cs \<Rightarrow> cs) @ [co])"
  show ?case
  proof (cases "cid = ''heartbeat'' \<and> e = entityID c")
    case True
    from Cons.IH [OF Cons.prems, of "?app hb"] obtain c' t' where
      r: "gatherComponents E now hb e cids c (?app hb) = Inr (c', t')" and wf': "wfClient c'"
      and un': "engineUntouched c c'" and p': "posts c' = posts c" by blast
    from True r have "gatherComponents E now hb e (cid # cids) c toSend = Inr (c', t')"
      by (simp add: Let_def)
    then show ?thesis using wf' un' p' by blast
  next
    case False
    from collect_step [OF Cons.prems, of E now e cid] obtain res where
      run: "Collect_component E now e cid (registry c) = Inr res"
      and wf1: "wfClient (c\<lparr>registry := registryAfter res\<rparr>)"
      and un1: "engineUntouched c (c\<lparr>registry := registryAfter res\<rparr>)" by blast
    let ?c1 = "c\<lparr>registry := registryAfter res\<rparr>"
    show ?thesis
    proof (cases "returned res")
      case (Inl err)
      let ?ctx = "Some [(''entity_id'', LString e), (''component_id'', LString cid),
                        (''error'', LError err)]"
      from logsWarn_ok [OF wf1 len_context_Cons, of now "''Failed to collect component for sync''"]
      obtain c2 where w: "logsWarn now ''Failed to collect component for sync'' ?ctx ?c1 = Inr c2"
        and wf2: "wfClient c2" and un2: "engineUntouched ?c1 c2" and p2: "posts c2 = posts ?c1"
        by blast
      from Cons.IH [OF wf2, of toSend] obtain c' t' where
        r: "gatherComponents E now hb e cids c2 toSend = Inr (c', t')" and wf': "wfClient c'"
        and un': "engineUntouched c2 c'" and p': "posts c' = posts c2" by blast
      from False run Inl w r have "gatherComponents E now hb e (cid # cids) c toSend = Inr (c', t')"
        by (auto simp: Let_def)
      moreover have "engineUntouched c c'"
        using un1 un2 un' by (blast intro: engineUntouched_trans)
      moreover have "posts c' = posts c" using p' p2 by simp
      ultimately show ?thesis using wf' by blast
    next
      case (Inr co)
      from Cons.IH [OF wf1, of "?app co"] obtain c' t' where
        r: "gatherComponents E now hb e cids ?c1 (?app co) = Inr (c', t')"
        and wf': "wfClient c'" and un': "engineUntouched ?c1 c'" and p': "posts c' = posts ?c1"
        by blast
      from False run Inr r have "gatherComponents E now hb e (cid # cids) c toSend = Inr (c', t')"
        by (auto simp: Let_def)
      moreover have "engineUntouched c c'"
        using un1 un' by (blast intro: engineUntouched_trans)
      moreover have "posts c' = posts c" using p' by simp
      ultimately show ?thesis using wf' by blast
    qed
  qed
qed

lemma gatherAllComponents_ok:
  "wfClient c \<Longrightarrow>
   \<exists>c' t'. gatherAllComponents E now hb ks c toSend = Inr (c', t') \<and> wfClient c' \<and>
           engineUntouched c c' \<and> posts c' = posts c"
proof (induction ks arbitrary: c toSend)
  case Nil
  then show ?case by (simp add: engineUntouched_refl)
next
  case (Cons k ks)
  obtain e cids where k: "k = (e, cids)" by (cases k)
  from gatherComponents_ok [OF Cons.prems, of E now hb e cids toSend] obtain c1 t1 where
    a: "gatherComponents E now hb e cids c toSend = Inr (c1, t1)" and wf1: "wfClient c1"
    and un1: "engineUntouched c c1" and p1: "posts c1 = posts c" by blast
  from Cons.IH [OF wf1, of t1] obtain c' t' where
    r: "gatherAllComponents E now hb ks c1 t1 = Inr (c', t')" and wf': "wfClient c'"
    and un': "engineUntouched c1 c'" and p': "posts c' = posts c1" by blast
  from a r k have "gatherAllComponents E now hb (k # ks) c toSend = Inr (c', t')" by simp
  moreover have "engineUntouched c c'" using un1 un' by (blast intro: engineUntouched_trans)
  moreover have "posts c' = posts c" using p' p1 by simp
  ultimately show ?case using wf' by blast
qed

lemma failure_logged:
  assumes "wfClient c" "len_context ctx \<noteq> 0"
  shows "\<exists>c3. logsErrorNoTrigger now m ctx
                (c\<lparr>posts := ps, connectivity := t\<rparr>) = Inr c3 \<and>
              wfClient c3 \<and> engineUntouched c c3 \<and> posts c3 = ps"
proof -
  let ?c2 = "c\<lparr>posts := ps, connectivity := t\<rparr>"
  have wf2: "wfClient ?c2" using assms(1) by (simp add: wfClient_def)
  have un2: "engineUntouched c ?c2" by (simp add: engineUntouched_def)
  from logsErrorNoTrigger_ok [OF wf2 assms(2), of now m] obtain c3 where
    "logsErrorNoTrigger now m ctx ?c2 = Inr c3" "wfClient c3" "engineUntouched ?c2 c3"
    "posts c3 = posts ?c2" by blast
  with un2 show ?thesis by (auto intro: engineUntouched_trans)
qed

lemma sendChecksums_ok:
  assumes wf: "wfClient c"
  shows "\<exists>res c'. sendChecksums W now payload c = Inr (res, c') \<and> wfClient c' \<and>
           engineUntouched c c' \<and>
           (case marshalChecksums W payload of
              None \<Rightarrow> posts c' = posts c \<and> res = Inl ErrMarshal
            | Some body \<Rightarrow>
                posts c' = posts c @
                  [\<lparr>postURL = IntrospectionURL (config c) @ ''/sync/checksums'', postBody = body\<rparr>] \<and>
                (\<forall>needed. res = Inr needed \<longleftrightarrow>
                   (\<exists>rb. fst (httpPost W (IntrospectionURL (config c) @ ''/sync/checksums'') body)
                           = Response StatusOK rb \<and>
                         decodeNeeded W rb = Some needed)))"
proof (cases "marshalChecksums W payload")
  case None
  then show ?thesis using wf by (simp add: sendChecksums_def engineUntouched_refl)
next
  case (Some body)
  let ?url = "IntrospectionURL (config c) @ ''/sync/checksums''"
  let ?ps = "posts c @ [\<lparr>postURL = ?url, postBody = body\<rparr>]"
  obtain resp latency where hp: "httpPost W ?url body = (resp, latency)"
    by (cases "httpPost W ?url body")
  show ?thesis
  proof (cases resp)
    case (TransportError e)
    let ?t = "TrackFailure now ''introspection'' (IntrospectionURL (config c)) latency e
                (connectivity c)"
    from failure_logged [where ps = ?ps and t = ?t and now = now and m = "''Introspection sync failed''", OF wf len_context_Cons]
    obtain c3 where
      l: "logsErrorNoTrigger now ''Introspection sync failed''
            (Some [(''phase'', LString ''checksums''), (''error'', LString e),
                   (''latency_ms'', LInt (latency div 1000000))])
            (c\<lparr>posts := ?ps, connectivity := ?t\<rparr>) = Inr c3"
      and wf3: "wfClient c3" and un3: "engineUntouched c c3" and p3: "posts c3 = ?ps"
      by blast
    have "sendChecksums W now payload c = Inr (Inl (ErrHTTPRequest e), c3)"
      using Some hp TransportError l by (simp add: sendChecksums_def Let_def)
    then show ?thesis using Some hp TransportError wf3 un3 p3 by simp
  next
    case (Response status rb)
    show ?thesis
    proof (cases "status = StatusOK")
      case False
      let ?t = "TrackFailure now ''introspection'' (IntrospectionURL (config c)) latency
                  (''HTTP '' @ showInt status @ '': '' @ rb) (connectivity c)"
      from failure_logged [where ps = ?ps and t = ?t and now = now and m = "''Introspection sync failed''", OF wf len_context_Cons]
      obtain c3 where
        l: "logsErrorNoTrigger now ''Introspection sync failed''
              (Some [(''phase'', LString ''checksums''), (''status'', LInt status),
                     (''error'', LString rb), (''latency_ms'', LInt (latency div 1000000))])
              (c\<lparr>posts := ?ps, connectivity := ?t\<rparr>) = Inr c3"
        and wf3: "wfClient c3" and un3: "engineUntouched c c3" and p3: "posts c3 = ?ps"
        by blast
      have "sendChecksums W now payload c = Inr (Inl (ErrHTTPStatus status rb), c3)"
        using Some hp Response False l by (simp add: sendChecksums_def Let_def)
      then show ?thesis using Some hp Response False wf3 un3 p3 by simp
    next
      case True
      let ?t = "TrackSuccess now ''introspection'' (IntrospectionURL (config c)) latency
                  (connectivity c)"
      show ?thesis
      proof (cases "decodeNeeded W rb")
        case None
        from failure_logged [where ps = ?ps and t = ?t and now = now and m = "''Failed to decode introspection response''", OF wf len_context_Cons]
        obtain c3 where
          l: "logsErrorNoTrigger now ''Failed to decode introspection response''
                (Some [(''phase'', LString ''checksums''), (''error'', LError ErrDecode),
                       (''latency_ms'', LInt (latency div 1000000))])
                (c\<lparr>posts := ?ps, connectivity := ?t\<rparr>) = Inr c3"
          and wf3: "wfClient c3" and un3: "engineUntouched c c3" and p3: "posts c3 = ?ps"
          by blast
        have "sendChecksums W now payload c = Inr (Inl ErrDecode, c3)"
          using Some hp Response True None l by (simp add: sendChecksums_def Let_def)
        then show ?thesis using Some hp Response True None wf3 un3 p3 by simp
      next
        case (Some needed)
        let ?c' = "c\<lparr>posts := ?ps, connectivity := ?t\<rparr>"
        have "sendChecksums W now payload c = Inr (Inr needed, ?c')"
          using \<open>marshalChecksums W payload = Some body\<close> hp Response True Some
          by (simp add: sendChecksums_def Let_def)
        moreover have "wfClient ?c'" using wf by (simp add: wfClient_def)
        moreover have "engineUntouched c ?c'" by (simp add: engineUntouched_def)
        ultimately show ?thesis
          using \<open>marshalChecksums W payload = Some body\<close> hp Response True Some by auto
      qed
    qed
  qed
qed

lemma sendComponents_ok:
  assumes wf: "wfClient c"
  shows "\<exists>res c'. sendComponents W now comps c = Inr (res, c') \<and> wfClient c' \<and>
           engineUntouched c c' \<and>
           (case marshalComponents W (ServiceName (config c), Server (config c), comps) of
              None \<Rightarrow> posts c' = posts c
            | Some body \<Rightarrow>
                posts c' = posts c @
                  [\<lparr>postURL = IntrospectionURL (config c) @ ''/sync/components'', postBody = body\<rparr>])"
proof (cases "marshalComponents W (ServiceName (config c), Server (config c), comps)")
  case None
  then show ?thesis using wf by (simp add: sendComponents_def engineUntouched_refl)
next
  case (Some body)
  let ?url = "IntrospectionURL (config c) @ ''/sync/components''"
  let ?ps = "posts c @ [\<lparr>postURL = ?url, postBody = body\<rparr>]"
  obtain resp latency where hp: "httpPost W ?url body = (resp, latency)"
    by (cases "httpPost W ?url body")
  show ?thesis
  proof (cases resp)
    case (TransportError e)
    let ?t = "TrackFailure now ''introspection'' (IntrospectionURL (config c)) latency e
                (connectivity c)"
    from failure_logged [where ps = ?ps and t = ?t and now = now and m = "''Introspection sync failed''", OF wf len_context_Cons]
    obtain c3 where
      l: "logsErrorNoTrigger now ''Introspection sync failed''
            (Some [(''phase'', LString ''components''), (''error'', LString e),
                   (''latency_ms'', LInt (latency div 1000000))])
            (c\<lparr>posts := ?ps, connectivity := ?t\<rparr>) = Inr c3"
      and wf3: "wfClient c3" and un3: "engineUntouched c c3" and p3: "posts c3 = ?ps"
      by blast
    have "sendComponents W now comps c = Inr (Some (ErrHTTPRequest e), c3)"
      using Some hp TransportError l by (simp add: sendComponents_def Let_def)
    then show ?thesis using Some wf3 un3 p3 by simp
  next
    case (Response status rb)
    show ?thesis
    proof (cases "status = StatusOK")
      case False
      let ?t = "TrackFailure now ''introspection'' (IntrospectionURL (config c)) latency
                  (''HTTP '' @ showInt status @ '': '' @ rb) (connectivity c)"
      from failure_logged [where ps = ?ps and t = ?t and now = now and m = "''Introspection sync failed''", OF wf len_context_Cons]
      obtain c3 where
        l: "logsErrorNoTrigger now ''Introspection sync failed''
              (Some [(''phase'', LString ''components''), (''status'', LInt status),
                     (''error'', LString rb), (''latency_ms'', LInt (latency div 1000000))])
              (c\<lparr>posts := ?ps, connectivity := ?t\<rparr>) = Inr c3"
        and wf3: "wfClient c3" and un3: "engineUntouched c c3" and p3: "posts c3 = ?ps"
        by blast
      have "sendComponents W now comps c = Inr (Some (ErrHTTPStatus status rb), c3)"
        using Some hp Response False l by (simp add: sendComponents_def Let_def)
      then show ?thesis using Some wf3 un3 p3 by simp
    next
      case True
      let ?c' = "c\<lparr>posts := ?ps, connectivity := TrackSuccess now ''introspection''
                   (IntrospectionURL (config c)) latency (connectivity c)\<rparr>"
      have "sendComponents W now comps c = Inr (None, ?c')"
        using Some hp Response True by (simp add: sendComponents_def Let_def)
      moreover have "wfClient ?c'" using wf by (simp add: wfClient_def)
      moreover have "engineUntouched c ?c'" by (simp add: engineUntouched_def)
      ultimately show ?thesis using Some by simp
    qed
  qed
qed

lemma performThreePhaseSync_unfold:
  assumes "collectAllChecksums E t ks c Map.empty = Inr (c1, sums)"
  defines "hb \<equiv> NewComponent E ''heartbeat''
                   (StringMap [(''heartbeat'', Format plusZeroLayout (UTC t)),
                               (''idle_since'', Format plusZeroLayout (idleSince c1))])"
  defines "payload \<equiv> (ServiceName (config c1), Server (config c1),
                       sums(entityID c1 \<mapsto>
                         (case sums (entityID c1) of None \<Rightarrow> Map.empty | Some m \<Rightarrow> m)
                           (''heartbeat'' \<mapsto> Checksum hb)))"
  shows "performThreePhaseSync E W t ks c =
     (case sendChecksums W t payload c1 of
        Inl p \<Rightarrow> Inl p
      | Inr (Inl err, c2) \<Rightarrow> Inr (Some (ErrChecksumPhase err), c2)
      | Inr (Inr neededComponents, c2) \<Rightarrow>
          if length neededComponents > 0
          then
            (case gatherAllComponents E t hb neededComponents c2 Map.empty of
               Inl p \<Rightarrow> Inl p
             | Inr (c3, componentsToSend) \<Rightarrow>
                 (case sendComponents W t componentsToSend c3 of
                    Inl p \<Rightarrow> Inl p
                  | Inr (Some err, c4) \<Rightarrow> Inr (Some (ErrDataPhase err), c4)
                  | Inr (None, c4) \<Rightarrow> Inr (None, c4)))
          else Inr (None, c2))"
  unfolding hb_def payload_def performThreePhaseSync_def Let_def assms(1) by simp

text \<open>
  C7. A sync attempt on a well-formed client returns, and it has issued one POST or two:
  first a POST to \<open>/sync/checksums\<close>, whose body is the encoding of the checksum payload
  of the service, and then, if and only if that POST was answered with status 200 and a
  body that decodes to a \<open>needed\<close> map that is not empty, a POST to \<open>/sync/components\<close>.
  Nothing else is posted. (\<open>json.Marshal\<close> of the two payloads is taken not to fail: they
  hold strings, maps of strings, and components whose data are encoded JSON or a map of
  strings.)
\<close>

theorem checksums_before_components:
  assumes wf: "wfClient c"
      and enc1: "\<forall>p. marshalChecksums W p \<noteq> None"
      and enc2: "\<forall>p. marshalComponents W p \<noteq> None"
  shows "\<exists>res c' body rest. performThreePhaseSync E W t ks c = Inr (res, c') \<and>
     posts c' = posts c @
       \<lparr>postURL = IntrospectionURL (config c) @ ''/sync/checksums'', postBody = body\<rparr> # rest \<and>
     (\<exists>sums. marshalChecksums W (ServiceName (config c), Server (config c), sums) = Some body) \<and>
     (map postURL rest = [] \<or>
      map postURL rest = [IntrospectionURL (config c) @ ''/sync/components'']) \<and>
     (map postURL rest = [IntrospectionURL (config c) @ ''/sync/components''] \<longleftrightarrow>
        (\<exists>rb needed.
           fst (httpPost W (IntrospectionURL (config c) @ ''/sync/checksums'') body)
             = Response StatusOK rb \<and>
           decodeNeeded W rb = Some needed \<and> length needed > 0))"
proof -
  let ?u1 = "IntrospectionURL (config c) @ ''/sync/checksums''"
  let ?u2 = "IntrospectionURL (config c) @ ''/sync/components''"
  let ?P = "\<lambda>res c' body rest. performThreePhaseSync E W t ks c = Inr (res, c') \<and>
     posts c' = posts c @ \<lparr>postURL = ?u1, postBody = body\<rparr> # rest \<and>
     (\<exists>sums. marshalChecksums W (ServiceName (config c), Server (config c), sums) = Some body) \<and>
     (map postURL rest = [] \<or> map postURL rest = [?u2]) \<and>
     (map postURL rest = [?u2] \<longleftrightarrow>
        (\<exists>rb needed.
           fst (httpPost W ?u1 body) = Response StatusOK rb \<and>
           decodeNeeded W rb = Some needed \<and> length needed > 0))"
  from collectAllChecksums_ok [OF wf, of E t ks Map.empty] obtain c1 sums where
    a: "collectAllChecksums E t ks c Map.empty = Inr (c1, sums)" and wf1: "wfClient c1"
    and un1: "engineUntouched c c1" and p1: "posts c1 = posts c" by blast
  have cfg1: "config c1 = config c" using un1 by (simp add: engineUntouched_def)
  define hb where "hb = NewComponent E ''heartbeat''
                   (StringMap [(''heartbeat'', Format plusZeroLayout (UTC t)),
                               (''idle_since'', Format plusZeroLayout (idleSince c1))])"
  define sums' where "sums' = sums(entityID c1 \<mapsto>
                         (case sums (entityID c1) of None \<Rightarrow> Map.empty | Some m \<Rightarrow> m)
                           (''heartbeat'' \<mapsto> Checksum hb))"
  define payload where "payload = (ServiceName (config c1), Server (config c1), sums')"
  note unf = performThreePhaseSync_unfold [OF a, of W, folded hb_def, folded sums'_def,
                                           folded payload_def]
  from enc1 obtain body where mb: "marshalChecksums W payload = Some body"
    by (metis option.exhaust)
  then have enc: "\<exists>sums. marshalChecksums W (ServiceName (config c), Server (config c), sums)
                    = Some body"
    unfolding payload_def cfg1 by blast
  from sendChecksums_ok [OF wf1, of W t payload] mb obtain r2 c2 where
    s: "sendChecksums W t payload c1 = Inr (r2, c2)" and wf2: "wfClient c2"
    and un2: "engineUntouched c1 c2"
    and p2': "posts c2 = posts c1 @ [\<lparr>postURL = ?u1, postBody = body\<rparr>]"
    and iff: "\<And>needed. r2 = Inr needed \<longleftrightarrow>
                 (\<exists>rb. fst (httpPost W ?u1 body) = Response StatusOK rb \<and>
                       decodeNeeded W rb = Some needed)"
    unfolding cfg1 by auto
  have cfg2: "config c2 = config c" using un2 cfg1 by (simp add: engineUntouched_def)
  let ?p1 = "\<lparr>postURL = ?u1, postBody = body\<rparr>"
  from p2' p1 have p2: "posts c2 = posts c @ [?p1]" by simp
  show ?thesis
  proof (cases r2)
    case (Inl err)
    with s unf have run: "performThreePhaseSync E W t ks c = Inr (Some (ErrChecksumPhase err), c2)"
      by simp
    have no: "\<not> (\<exists>rb needed. fst (httpPost W ?u1 body) = Response StatusOK rb \<and>
               decodeNeeded W rb = Some needed \<and> length needed > 0)"
      using iff Inl by auto
    have P2: "?P (Some (ErrChecksumPhase err)) c2 body []" using run p2 no enc by simp
    show ?thesis by (intro exI) (rule P2)
  next
    case (Inr needed)
    show ?thesis
    proof (cases "length needed > 0")
      case False
      with s unf Inr have run: "performThreePhaseSync E W t ks c = Inr (None, c2)" by simp
      have no: "\<not> (\<exists>rb needed. fst (httpPost W ?u1 body) = Response StatusOK rb \<and>
               decodeNeeded W rb = Some needed \<and> length needed > 0)"
        using iff Inr False by auto
      have P3: "?P None c2 body []" using run p2 no enc by simp
      show ?thesis by (intro exI) (rule P3)
    next
      case True
      from gatherAllComponents_ok [OF wf2, of E t hb needed Map.empty] obtain c3 toSend where
        g: "gatherAllComponents E t hb needed c2 Map.empty = Inr (c3, toSend)"
        and wf3: "wfClient c3" and un3: "engineUntouched c2 c3" and p3: "posts c3 = posts c2"
        by blast
      have cfg3: "config c3 = config c" using un3 cfg2 by (simp add: engineUntouched_def)
      from enc2 obtain body2 where
        m2: "marshalComponents W (ServiceName (config c3), Server (config c3), toSend) = Some body2"
        by (metis option.exhaust)
      from sendComponents_ok [OF wf3, of W t toSend] m2 obtain r4 c4 where
        sc: "sendComponents W t toSend c3 = Inr (r4, c4)"
        and p4: "posts c4 = posts c3 @ [\<lparr>postURL = ?u2, postBody = body2\<rparr>]"
        unfolding cfg3 by auto
      let ?p2 = "\<lparr>postURL = ?u2, postBody = body2\<rparr>"
      have run: "\<exists>res. performThreePhaseSync E W t ks c = Inr (res, c4)"
        using s unf Inr True g sc by (cases r4) simp_all
      from iff [of needed] Inr obtain rb where
        "fst (httpPost W ?u1 body) = Response StatusOK rb" "decodeNeeded W rb = Some needed"
        by blast
      with True have yes: "\<exists>rb needed. fst (httpPost W ?u1 body) = Response StatusOK rb \<and>
               decodeNeeded W rb = Some needed \<and> length needed > 0"
        by blast
      have posts4: "posts c4 = posts c @ ?p1 # [?p2]" using p4 p3 p2 by simp
      from run obtain res where r: "performThreePhaseSync E W t ks c = Inr (res, c4)" by blast
      have P4: "?P res c4 body [?p2]" using r posts4 yes enc by simp
      show ?thesis by (intro exI) (rule P4)
    qed
  qed
qed

lemma performThreePhaseSync_ok:
  assumes wf: "wfClient c"
  shows "\<exists>res c'. performThreePhaseSync E W t ks c = Inr (res, c') \<and> wfClient c' \<and>
                  engineUntouched c c'"
proof -
  from collectAllChecksums_ok [OF wf, of E t ks Map.empty] obtain c1 sums where
    a: "collectAllChecksums E t ks c Map.empty = Inr (c1, sums)" and wf1: "wfClient c1"
    and un1: "engineUntouched c c1" by blast
  note unf = performThreePhaseSync_unfold [OF a, of W]
  let ?hb = "NewComponent E ''heartbeat''
               (StringMap [(''heartbeat'', Format plusZeroLayout (UTC t)),
                           (''idle_since'', Format plusZeroLayout (idleSince c1))])"
  let ?payload = "(ServiceName (config c1), Server (config c1),
                   sums(entityID c1 \<mapsto>
                     (case sums (entityID c1) of None \<Rightarrow> Map.empty | Some m \<Rightarrow> m)
                       (''heartbeat'' \<mapsto> Checksum ?hb)))"
  from sendChecksums_ok [OF wf1, of W t ?payload] obtain r2 c2 where
    s: "sendChecksums W t ?payload c1 = Inr (r2, c2)" and wf2: "wfClient c2"
    and un2: "engineUntouched c1 c2" by blast
  have un02: "engineUntouched c c2" using un1 un2 by (rule engineUntouched_trans)
  show ?thesis
  proof (cases r2)
    case (Inl err)
    with s unf have "performThreePhaseSync E W t ks c = Inr (Some (ErrChecksumPhase err), c2)"
      by simp
    with wf2 un02 show ?thesis by blast
  next
    case (Inr needed)
    show ?thesis
    proof (cases "length needed > 0")
      case False
      with s unf Inr have "performThreePhaseSync E W t ks c = Inr (None, c2)" by simp
      with wf2 un02 show ?thesis by blast
    next
      case True
      from gatherAllComponents_ok [OF wf2, of E t ?hb needed Map.empty] obtain c3 toSend where
        g: "gatherAllComponents E t ?hb needed c2 Map.empty = Inr (c3, toSend)"
        and wf3: "wfClient c3" and un3: "engineUntouched c2 c3" by blast
      from sendComponents_ok [OF wf3, of W t toSend] obtain r4 c4 where
        sc: "sendComponents W t toSend c3 = Inr (r4, c4)" and wf4: "wfClient c4"
        and un4: "engineUntouched c3 c4" by blast
      have "\<exists>res. performThreePhaseSync E W t ks c = Inr (res, c4)"
        using s unf Inr True g sc by (cases r4) simp_all
      moreover have "engineUntouched c c4"
        using un02 un3 un4 by (blast intro: engineUntouched_trans)
      ultimately show ?thesis using wf4 by blast
    qed
  qed
qed

lemma specBackoff_values:
  "specBackoff 1 = 1 * Second" "specBackoff 2 = 2 * Second" "specBackoff 3 = 3 * Second"
  "specBackoff 4 = 5 * Second" "specBackoff 5 = 11 * Second" "specBackoff 6 = 23 * Second"
  "specBackoff 7 = 47 * Second" "specBackoff 8 = 59 * Second"
  by (simp_all add: specBackoff_def specSequence_def)

lemma getBackoffDuration_spec:
  assumes "backoffIndex c = int i"
  shows "getBackoffDuration c = Inr (specBackoff (Suc i))"
proof (cases "i < 8")
  case False
  then show ?thesis using assms
    by (simp add: getBackoffDuration_def backoffPrimes_def specBackoff_def specSequence_def
                  HeartbeatIntervalSec_def)
next
  case True
  then have "i = 0 \<or> i = 1 \<or> i = 2 \<or> i = 3 \<or> i = 4 \<or> i = 5 \<or> i = 6 \<or> i = 7" by arith
  then show ?thesis using assms
    by (elim disjE)
       (simp_all add: getBackoffDuration_def backoffPrimes_def specBackoff_def specSequence_def
                      HeartbeatIntervalSec_def)
qed

lemma sendComponents_accepted:
  assumes "marshalComponents W (ServiceName (config c), Server (config c), comps) = Some body"
      and "fst (httpPost W (IntrospectionURL (config c) @ ''/sync/components'') body)
             = Response StatusOK rb"
  shows "\<exists>c'. sendComponents W now comps c = Inr (None, c')"
proof -
  obtain resp latency where
    hp: "httpPost W (IntrospectionURL (config c) @ ''/sync/components'') body = (resp, latency)"
    by (cases "httpPost W (IntrospectionURL (config c) @ ''/sync/components'') body")
  with assms(2) have "resp = Response StatusOK rb" by simp
  with assms(1) hp show ?thesis by (simp add: sendComponents_def Let_def)
qed

text \<open>A registrar that never answers a checksum POST with 200 and a decodable body makes
  every attempt fail.\<close>

lemma refused_attempt_fails:
  assumes "\<forall>url body rb. fst (httpPost (attemptWire a) url body) = Response StatusOK rb
             \<longrightarrow> decodeNeeded (attemptWire a) rb = None"
  shows "attemptFails a"
  unfolding attemptFails_def
proof (intro allI impI)
  fix c :: "'a Client"
  assume wf: "wfClient c"
  let ?E = "attemptEnv a" and ?W = "attemptWire a" and ?t = "attemptTime a"
  let ?ks = "attemptRegistered a"
  from collectAllChecksums_ok [OF wf, of ?E ?t ?ks Map.empty] obtain c1 sums where
    a: "collectAllChecksums ?E ?t ?ks c Map.empty = Inr (c1, sums)" and wf1: "wfClient c1"
    by blast
  note unf = performThreePhaseSync_unfold [OF a, of ?W]
  let ?hb = "NewComponent ?E ''heartbeat''
               (StringMap [(''heartbeat'', Format plusZeroLayout (UTC ?t)),
                           (''idle_since'', Format plusZeroLayout (idleSince c1))])"
  let ?payload = "(ServiceName (config c1), Server (config c1),
                   sums(entityID c1 \<mapsto>
                     (case sums (entityID c1) of None \<Rightarrow> Map.empty | Some m \<Rightarrow> m)
                       (''heartbeat'' \<mapsto> Checksum ?hb)))"
  from sendChecksums_ok [OF wf1, of ?W ?t ?payload] obtain r2 c2 where
    s: "sendChecksums ?W ?t ?payload c1 = Inr (r2, c2)"
    and k: "(case marshalChecksums ?W ?payload of
              None \<Rightarrow> posts c2 = posts c1 \<and> r2 = Inl ErrMarshal
            | Some body \<Rightarrow>
                posts c2 = posts c1 @
                  [\<lparr>postURL = IntrospectionURL (config c1) @ ''/sync/checksums'', postBody = body\<rparr>] \<and>
                (\<forall>needed. r2 = Inr needed \<longleftrightarrow>
                   (\<exists>rb. fst (httpPost ?W (IntrospectionURL (config c1) @ ''/sync/checksums'') body)
                           = Response StatusOK rb \<and>
                         decodeNeeded ?W rb = Some needed)))"
    by blast
  have "\<exists>err. r2 = Inl err"
  proof (cases r2)
    case (Inl err)
    then show ?thesis by blast
  next
    case (Inr needed)
    show ?thesis
    proof (cases "marshalChecksums ?W ?payload")
      case None
      with k Inr show ?thesis by simp
    next
      case (Some body)
      with k Inr obtain rb where
        "fst (httpPost ?W (IntrospectionURL (config c1) @ ''/sync/checksums'') body)
           = Response StatusOK rb" "decodeNeeded ?W rb = Some needed" by auto
      with assms show ?thesis by fastforce
    qed
  qed
  then obtain err where "r2 = Inl err" by blast
  with s unf have "performThreePhaseSync ?E ?W ?t ?ks c = Inr (Some (ErrChecksumPhase err), c2)"
    by simp
  then show "\<exists>err c1. performThreePhaseSync ?E ?W ?t ?ks c = Inr (Some err, c1)" by blast
qed

text \<open>A registrar that answers every POST with 200 and a decodable body, the payloads
  being encodable, makes every attempt succeed.\<close>

lemma accepted_attempt_succeeds:
  assumes enc1: "\<forall>p. marshalChecksums (attemptWire a) p \<noteq> None"
      and enc2: "\<forall>p. marshalComponents (attemptWire a) p \<noteq> None"
      and ok: "\<forall>url body. \<exists>rb needed. fst (httpPost (attemptWire a) url body) = Response StatusOK rb
                 \<and> decodeNeeded (attemptWire a) rb = Some needed"
  shows "attemptSucceeds a"
  unfolding attemptSucceeds_def
proof (intro allI impI)
  fix c :: "'a Client"
  assume wf: "wfClient c"
  let ?E = "attemptEnv a" and ?W = "attemptWire a" and ?t = "attemptTime a"
  let ?ks = "attemptRegistered a"
  from collectAllChecksums_ok [OF wf, of ?E ?t ?ks Map.empty] obtain c1 sums where
    a: "collectAllChecksums ?E ?t ?ks c Map.empty = Inr (c1, sums)" and wf1: "wfClient c1"
    by blast
  note unf = performThreePhaseSync_unfold [OF a, of ?W]
  let ?hb = "NewComponent ?E ''heartbeat''
               (StringMap [(''heartbeat'', Format plusZeroLayout (UTC ?t)),
                           (''idle_since'', Format plusZeroLayout (idleSince c1))])"
  let ?payload = "(ServiceName (config c1), Server (config c1),
                   sums(entityID c1 \<mapsto>
                     (case sums (entityID c1) of None \<Rightarrow> Map.empty | Some m \<Rightarrow> m)
                       (''heartbeat'' \<mapsto> Checksum ?hb)))"
  from enc1 obtain body where mb: "marshalChecksums ?W ?payload = Some body"
    by (metis option.exhaust)
  from ok obtain rb needed where
    r: "fst (httpPost ?W (IntrospectionURL (config c1) @ ''/sync/checksums'') body)
          = Response StatusOK rb" and d: "decodeNeeded ?W rb = Some needed" by blast
  from sendChecksums_ok [OF wf1, of ?W ?t ?payload] mb obtain r2 c2 where
    s: "sendChecksums ?W ?t ?payload c1 = Inr (r2, c2)" and wf2: "wfClient c2"
    and iff: "\<And>needed. r2 = Inr needed \<longleftrightarrow>
                 (\<exists>rb. fst (httpPost ?W (IntrospectionURL (config c1) @ ''/sync/checksums'') body)
                         = Response StatusOK rb \<and>
                       decodeNeeded ?W rb = Some needed)"
    by auto
  from iff [of needed] r d have r2: "r2 = Inr needed" by blast
  show "\<exists>c1. performThreePhaseSync ?E ?W ?t ?ks c = Inr (None, c1)"
  proof (cases "length needed > 0")
    case False
    with s unf r2 have "performThreePhaseSync ?E ?W ?t ?ks c = Inr (None, c2)" by simp
    then show ?thesis by blast
  next
    case True
    from gatherAllComponents_ok [OF wf2, of ?E ?t ?hb needed Map.empty] obtain c3 toSend where
      g: "gatherAllComponents ?E ?t ?hb needed c2 Map.empty = Inr (c3, toSend)" by blast
    from enc2 obtain body2 where
      m2: "marshalComponents ?W (ServiceName (config c3), Server (config c3), toSend) = Some body2"
      by (metis option.exhaust)
    from ok obtain rb2 where
      "fst (httpPost ?W (IntrospectionURL (config c3) @ ''/sync/components'') body2)
         = Response StatusOK rb2" by blast
    from sendComponents_accepted [OF m2 this, of ?t] obtain c4 where
      sc: "sendComponents ?W ?t toSend c3 = Inr (None, c4)" by blast
    have "performThreePhaseSync ?E ?W ?t ?ks c = Inr (None, c4)"
      using s unf r2 True g sc by simp
    then show ?thesis by blast
  qed
qed

lemma wrapInt_unchanged: "- (2 ^ 63) \<le> x \<Longrightarrow> x < 2 ^ 63 \<Longrightarrow> wrapInt x = x"
  by (simp add: wrapInt_def)

lemma executeSync_success:
  assumes "performThreePhaseSync (attemptEnv a) (attemptWire a) (attemptTime a)
             (attemptRegistered a) c = Inr (None, c1)"
  shows "executeSync src (a # rest) c = Inr (True, c1\<lparr>backoffIndex := 0\<rparr>)"
  using assms by simp

lemma executeSync_failure:
  assumes wf: "wfClient c" and idx: "backoffIndex c = int i" and bound: "int i + 1 < 2 ^ 63"
      and p: "performThreePhaseSync (attemptEnv a) (attemptWire a) (attemptTime a)
                (attemptRegistered a) c = Inr (Some err, c1)"
  shows "\<exists>c2. wfClient c2 \<and> slept c2 = slept c @ [specBackoff (Suc i)] \<and>
              backoffIndex c2 = int (Suc i) \<and> idleSince c2 = idleSince c \<and>
              (\<forall>rest. executeSync src (a # rest) c = executeSync src rest c2)"
proof -
  from performThreePhaseSync_ok [OF wf,
         of "attemptEnv a" "attemptWire a" "attemptTime a" "attemptRegistered a"] p
  have wf1: "wfClient c1" and un1: "engineUntouched c c1" by auto
  from un1 have i1: "backoffIndex c1 = int i" and s1: "slept c1 = slept c"
    and id1: "idleSince c1 = idleSince c"
    using idx by (simp_all add: engineUntouched_def)
  let ?d = "specBackoff (Suc i)"
  have w: "wrapInt (int i + 1) = int i + 1"
    using bound by (intro wrapInt_unchanged) simp_all
  let ?c2 = "c1\<lparr>backoffIndex := wrapInt (backoffIndex c1 + 1)\<rparr>"
  have d: "getBackoffDuration c1 = Inr ?d" by (rule getBackoffDuration_spec [OF i1])
  have wf2: "wfClient ?c2" using wf1 by (simp add: wfClient_def)
  from logsErrorNoTrigger_ok [OF wf2 len_context_Cons,
         of "attemptTime a" "''Sync failed, retrying with backoff''"]
  obtain c3 where
    l: "logsErrorNoTrigger (attemptTime a) ''Sync failed, retrying with backoff''
          (Some [(''source'', LString src), (''error'', LError err),
                 (''backoff_sec'', LDuration ?d), (''retry_in'', LDuration ?d)]) ?c2 = Inr c3"
    and wf3: "wfClient c3" and un3: "engineUntouched ?c2 c3" by blast
  let ?c4 = "c3\<lparr>slept := slept c3 @ [?d]\<rparr>"
  have wf4: "wfClient ?c4" using wf3 by (simp add: wfClient_def)
  have i4: "backoffIndex ?c4 = int (Suc i)" using un3 i1 w by (simp add: engineUntouched_def)
  have s4: "slept ?c4 = slept c @ [?d]" using un3 s1 by (simp add: engineUntouched_def)
  have id4: "idleSince ?c4 = idleSince c" using un3 id1 by (simp add: engineUntouched_def)
  have run: "executeSync src (a # rest) c = executeSync src rest ?c4" for rest
    using p d l by (simp add: Let_def)
  from wf4 s4 i4 id4 run show ?thesis
    by (intro exI [of _ ?c4] conjI allI)
qed

lemma executeSync_failing:
  "wfClient c \<Longrightarrow> backoffIndex c = int i \<Longrightarrow> int i + int (length failing) < 2 ^ 63 \<Longrightarrow>
   \<forall>a \<in> set failing. attemptFails a \<Longrightarrow>
   \<exists>c'. wfClient c' \<and> idleSince c' = idleSince c \<and>
     slept c' = slept c @ map (\<lambda>k. specBackoff (i + Suc k)) [0..<length failing] \<and>
     backoffIndex c' = int (i + length failing) \<and>
     (\<forall>rest. executeSync src (failing @ rest) c = executeSync src rest c')"
proof (induction failing arbitrary: c i)
  case Nil
  then show ?case by (intro exI [of _ c]) simp
next
  case (Cons a failing)
  from Cons.prems(4) have "attemptFails a" by simp
  with Cons.prems(1) obtain err c1 where
    p: "performThreePhaseSync (attemptEnv a) (attemptWire a) (attemptTime a)
          (attemptRegistered a) c = Inr (Some err, c1)"
    unfolding attemptFails_def by blast
  have b1: "int i + 1 < 2 ^ 63" using Cons.prems(3) by simp
  from executeSync_failure [OF Cons.prems(1,2) b1 p, of src] obtain c2 where
    wf2: "wfClient c2" and s2: "slept c2 = slept c @ [specBackoff (Suc i)]"
    and i2: "backoffIndex c2 = int (Suc i)" and id2: "idleSince c2 = idleSince c"
    and run2: "\<And>rest. executeSync src (a # rest) c = executeSync src rest c2" by blast
  have b2: "int (Suc i) + int (length failing) < 2 ^ 63" using Cons.prems(3) by simp
  have f2: "\<forall>a \<in> set failing. attemptFails a" using Cons.prems(4) by simp
  from Cons.IH [OF wf2 i2 b2 f2] obtain c' where
    wf': "wfClient c'" and id': "idleSince c' = idleSince c2"
    and sl: "slept c' = slept c2 @ map (\<lambda>k. specBackoff (Suc i + Suc k)) [0..<length failing]"
    and ix: "backoffIndex c' = int (Suc i + length failing)"
    and run': "\<And>rest. executeSync src (failing @ rest) c2 = executeSync src rest c'" by blast
  have "map (\<lambda>k. specBackoff (i + Suc k)) [0..<Suc (length failing)]
          = specBackoff (Suc i) # map (\<lambda>k. specBackoff (Suc i + Suc k)) [0..<length failing]"
    by (simp add: map_upt_Suc del: upt_Suc)
  then have sl': "slept c' = slept c @ map (\<lambda>k. specBackoff (i + Suc k)) [0..<length (a # failing)]"
    using sl s2 by simp
  have ix': "backoffIndex c' = int (i + length (a # failing))" using ix by simp
  have id'': "idleSince c' = idleSince c" using id' id2 by simp
  have run: "executeSync src ((a # failing) @ rest) c = executeSync src rest c'" for rest
    using run2 [of "failing @ rest"] run' [of rest] by simp
  from wf' id'' sl' ix' run show ?case
    by (intro exI [of _ c'] conjI allI)
qed

text \<open>
  C3. Take a well-formed client whose backoff index is \<open>i\<close> (the number of failures since
  the last success; zero after a success and at the start), and attempts \<open>failing\<close> that
  fail one after the other, \<open>i\<close> plus their number being within the range of the index.
  Then \<open>executeSync\<close> does not panic; it makes every one of these attempts and sleeps
  after each: the sleep after the \<open>k\<close>-th failure is the value \<open>i + k\<close> of the spec's
  sequence (with \<open>i = 0\<close>, the \<open>k\<close>-th sleep is \<open>specBackoff k\<close>), and the index is then
  \<open>i + k\<close>. When the next attempt succeeds, \<open>executeSync\<close> returns with the index reset to
  zero, having slept no more. Step by step, in whatever state the attempt is made: a
  successful attempt makes \<open>executeSync\<close> return with the index zero, and a failed one is
  followed by the sleep \<open>specBackoff (i + 1)\<close>, the index \<open>i + 1\<close> and the next attempt.
\<close>

theorem backoff_durations:
  fixes c :: "'q Client" and failing :: "('q provider, 'd) attempt list"
  assumes wf: "wfClient c" and idx: "backoffIndex c = int i"
      and bound: "int i + int (length failing) < 2 ^ 63"
      and fails: "list_all attemptFails failing"
  shows "(\<exists>c'. executeSync src failing c = Inr (False, c') \<and>
            slept c' = slept c @ map (\<lambda>k. specBackoff (i + k)) [1..<Suc (length failing)] \<and>
            backoffIndex c' = int (i + length failing) \<and>
            (\<forall>ok rest. attemptSucceeds ok \<longrightarrow>
               (\<exists>c''. executeSync src (failing @ ok # rest) c = Inr (True, c'') \<and>
                      slept c'' = slept c' \<and> backoffIndex c'' = 0))) \<and>
         (\<forall>(a :: ('q provider, 'd) attempt) rest c1.
            performThreePhaseSync (attemptEnv a) (attemptWire a) (attemptTime a)
              (attemptRegistered a) c = Inr (None, c1) \<longrightarrow>
            executeSync src (a # rest) c = Inr (True, c1\<lparr>backoffIndex := 0\<rparr>)) \<and>
         (\<forall>(a :: ('q provider, 'd) attempt) err c1.
            performThreePhaseSync (attemptEnv a) (attemptWire a) (attemptTime a)
              (attemptRegistered a) c = Inr (Some err, c1) \<and> int i + 1 < 2 ^ 63 \<longrightarrow>
            (\<exists>c2. slept c2 = slept c @ [specBackoff (i + 1)] \<and> backoffIndex c2 = int (i + 1) \<and>
                  (\<forall>rest. executeSync src (a # rest) c = executeSync src rest c2)))"
proof (intro conjI)
  from fails have fails': "\<forall>a \<in> set failing. attemptFails a" by (simp add: list_all_iff)
  from executeSync_failing [OF wf idx bound fails', of src] obtain c' where
    wf': "wfClient c'"
    and sl: "slept c' = slept c @ map (\<lambda>k. specBackoff (i + Suc k)) [0..<length failing]"
    and ix: "backoffIndex c' = int (i + length failing)"
    and run: "\<And>rest. executeSync src (failing @ rest) c = executeSync src rest c'" by blast
  have "map (\<lambda>k. specBackoff (i + Suc k)) [0..<length failing]
          = map (\<lambda>k. specBackoff (i + k)) [1..<Suc (length failing)]"
    by (simp add: map_Suc_upt [symmetric] del: upt_Suc)
  with sl have sl': "slept c' = slept c @ map (\<lambda>k. specBackoff (i + k)) [1..<Suc (length failing)]"
    by simp
  from run [of "[]"] have r0: "executeSync src failing c = Inr (False, c')" by simp
  have fin: "\<exists>c''. executeSync src (failing @ ok # rest) c = Inr (True, c'') \<and>
                 slept c'' = slept c' \<and> backoffIndex c'' = 0"
    if "attemptSucceeds ok" for ok rest
  proof -
    from that wf' obtain c1 where
      p: "performThreePhaseSync (attemptEnv ok) (attemptWire ok) (attemptTime ok)
            (attemptRegistered ok) c' = Inr (None, c1)"
      unfolding attemptSucceeds_def by blast
    from performThreePhaseSync_ok [OF wf',
           of "attemptEnv ok" "attemptWire ok" "attemptTime ok" "attemptRegistered ok"] p
    have "engineUntouched c' c1" by auto
    then have s1: "slept c1 = slept c'" by (simp add: engineUntouched_def)
    have "executeSync src (failing @ ok # rest) c = Inr (True, c1\<lparr>backoffIndex := 0\<rparr>)"
      using run [of "ok # rest"] executeSync_success [OF p, of src rest] by simp
    with s1 show ?thesis by simp
  qed
  have fin': "\<forall>ok rest. attemptSucceeds ok \<longrightarrow>
               (\<exists>c''. executeSync src (failing @ ok # rest) c = Inr (True, c'') \<and>
                      slept c'' = slept c' \<and> backoffIndex c'' = 0)"
    by (intro allI impI) (rule fin)
  show "\<exists>c'. executeSync src failing c = Inr (False, c') \<and>
            slept c' = slept c @ map (\<lambda>k. specBackoff (i + k)) [1..<Suc (length failing)] \<and>
            backoffIndex c' = int (i + length failing) \<and>
            (\<forall>ok rest. attemptSucceeds ok \<longrightarrow>
               (\<exists>c''. executeSync src (failing @ ok # rest) c = Inr (True, c'') \<and>
                      slept c'' = slept c' \<and> backoffIndex c'' = 0))"
    by (rule exI [of _ c'], intro conjI r0 sl' ix fin')
next
  show "\<forall>(a :: ('q provider, 'd) attempt) rest c1.
          performThreePhaseSync (attemptEnv a) (attemptWire a) (attemptTime a)
            (attemptRegistered a) c = Inr (None, c1) \<longrightarrow>
          executeSync src (a # rest) c = Inr (True, c1\<lparr>backoffIndex := 0\<rparr>)"
    by (intro allI impI) (rule executeSync_success)
next
  show "\<forall>(a :: ('q provider, 'd) attempt) err c1.
          performThreePhaseSync (attemptEnv a) (attemptWire a) (attemptTime a)
            (attemptRegistered a) c = Inr (Some err, c1) \<and> int i + 1 < 2 ^ 63 \<longrightarrow>
          (\<exists>c2. slept c2 = slept c @ [specBackoff (i + 1)] \<and> backoffIndex c2 = int (i + 1) \<and>
                (\<forall>rest. executeSync src (a # rest) c = executeSync src rest c2))"
  proof (intro allI impI, elim conjE)
    fix a :: "('q provider, 'd) attempt" and err c1
    assume p: "performThreePhaseSync (attemptEnv a) (attemptWire a) (attemptTime a)
                 (attemptRegistered a) c = Inr (Some err, c1)"
       and b: "int i + 1 < 2 ^ 63"
    from executeSync_failure [OF wf idx b p, of src]
    show "\<exists>c2. slept c2 = slept c @ [specBackoff (i + 1)] \<and> backoffIndex c2 = int (i + 1) \<and>
                (\<forall>rest. executeSync src (a # rest) c = executeSync src rest c2)"
      by auto
  qed
qed

lemma wfClient_example: "wfClient exampleClient"
  by (simp add: wfClient_def exampleClient_def wfRegistry_def defaultRing_def SetTriggerFunc_def)

lemma wfClient_registered: "wfClient registeredClient"
  by (simp add: wfClient_def registeredClient_def exampleClient_def wfRegistry_def
        RegisterForEntity_def Let_def defaultRing_def SetTriggerFunc_def)

lemma registrarDown_fails: "attemptFails (attemptWith registrarDown)"
  by (rule refused_attempt_fails) (simp add: attemptWith_def registrarDown_def StatusOK_def)

lemma registrarUp_succeeds: "attemptSucceeds (attemptWith registrarUp)"
  by (rule accepted_attempt_succeeds)
     (simp_all add: attemptWith_def registrarUp_def StatusOK_def)

text \<open>
  Beyond the range of the index: at \<open>2^63 - 1\<close> a failed attempt is followed by a sleep of
  59 seconds and the index wraps; the next failed attempt panics.
\<close>

lemma executeSync_index_wraps:
  "executeSync ''heartbeat-timer'' [attemptWith registrarDown, attemptWith registrarDown]
     (exampleClient\<lparr>backoffIndex := 2 ^ 63 - 1\<rparr>) = Inl PanicIndexOutOfRange"
  by (simp add: attemptWith_def exampleClient_def performThreePhaseSync_def
        sendChecksums_def registrarDown_def Let_def wrapInt_def
        logsErrorNoTrigger_def ErrorNoTrigger_def Log_def len_context_def defaultRing_def
        SetTriggerFunc_def getBackoffDuration_def backoffPrimes_def HeartbeatIntervalSec_def
        exampleConfig_def StatusOK_def NewConnectivityTracker_def)

lemma sync_wants_run:
  "\<exists>c'. performThreePhaseSync exampleProviders registrarWants exampleTime healthRegistered
           registeredClient = Inr (None, c') \<and>
        posts c' =
          [\<lparr>postURL = ''https://introspection:9080/sync/checksums'',
            postBody = ''svc@staging health=24 heartbeat=}{''\<rparr>,
           \<lparr>postURL = ''https://introspection:9080/sync/components'',
            postBody = ''heartbeat=}{;health=24;''\<rparr>]"
  by (simp add: registeredClient_def exampleClient_def healthRegistered_def
        RegisterForEntity_def performThreePhaseSync_def Collect_component_def lookup2_def
        recompute_def exampleProviders_def digitsOf_42 NewComponent_def
        sendChecksums_def sendComponents_def registrarWants_def checksumOf_def Let_def
        exampleConfig_def StatusOK_def)

theorem checksums_before_components_witness:
  "wfClient registeredClient \<and> (\<forall>p. marshalChecksums registrarWants p \<noteq> None) \<and>
   (\<forall>p. marshalComponents registrarWants p \<noteq> None) \<and>
   (\<exists>res c' body rest.
      performThreePhaseSync exampleProviders registrarWants exampleTime healthRegistered
        registeredClient = Inr (res, c') \<and>
      posts c' = posts registeredClient @
        \<lparr>postURL = ''https://introspection:9080/sync/checksums'', postBody = body\<rparr> # rest \<and>
      body = ''svc@staging health=24 heartbeat=}{'' \<and>
      map postURL rest = [''https://introspection:9080/sync/components''] \<and>
      map postBody rest = [''heartbeat=}{;health=24;''] \<and>
      (\<exists>rb needed.
           fst (httpPost registrarWants ''https://introspection:9080/sync/checksums'' body)
             = Response StatusOK rb \<and>
           decodeNeeded registrarWants rb = Some needed \<and> length needed > 0))"
proof -
  have enc1: "\<forall>p. marshalChecksums registrarWants p \<noteq> None"
    by (simp add: registrarWants_def split: prod.splits)
  have enc2: "\<forall>p. marshalComponents registrarWants p \<noteq> None"
    by (simp add: registrarWants_def split: prod.splits)
  have url: "IntrospectionURL (config registeredClient) = ''https://introspection:9080''"
    by (simp add: registeredClient_def exampleClient_def exampleConfig_def)
  have p0: "posts registeredClient = []" by (simp add: registeredClient_def exampleClient_def)
  from checksums_before_components [OF wfClient_registered enc1 enc2,
         of exampleProviders exampleTime healthRegistered]
  obtain res c' body rest where
    run: "performThreePhaseSync exampleProviders registrarWants exampleTime healthRegistered
            registeredClient = Inr (res, c')"
    and ps: "posts c' = posts registeredClient @
        \<lparr>postURL = ''https://introspection:9080/sync/checksums'', postBody = body\<rparr> # rest"
    and iff: "(map postURL rest = [''https://introspection:9080/sync/components'']) \<longleftrightarrow>
        (\<exists>rb needed.
           fst (httpPost registrarWants ''https://introspection:9080/sync/checksums'' body)
             = Response StatusOK rb \<and>
           decodeNeeded registrarWants rb = Some needed \<and> length needed > 0)"
    unfolding url by auto
  from sync_wants_run run have full: "posts c' =
          [\<lparr>postURL = ''https://introspection:9080/sync/checksums'',
            postBody = ''svc@staging health=24 heartbeat=}{''\<rparr>,
           \<lparr>postURL = ''https://introspection:9080/sync/components'',
            postBody = ''heartbeat=}{;health=24;''\<rparr>]"
    by auto
  with ps p0 have body: "body = ''svc@staging health=24 heartbeat=}{''"
    and rest: "rest = [\<lparr>postURL = ''https://introspection:9080/sync/components'',
                        postBody = ''heartbeat=}{;health=24;''\<rparr>]"
    by simp_all
  from rest have urls: "map postURL rest = [''https://introspection:9080/sync/components'']"
    and bodies: "map postBody rest = [''heartbeat=}{;health=24;'']" by simp_all
  from iff urls have ex: "\<exists>rb needed.
           fst (httpPost registrarWants ''https://introspection:9080/sync/checksums'' body)
             = Response StatusOK rb \<and>
           decodeNeeded registrarWants rb = Some needed \<and> length needed > 0" by blast
  have "\<exists>res c' body rest.
      performThreePhaseSync exampleProviders registrarWants exampleTime healthRegistered
        registeredClient = Inr (res, c') \<and>
      posts c' = posts registeredClient @
        \<lparr>postURL = ''https://introspection:9080/sync/checksums'', postBody = body\<rparr> # rest \<and>
      body = ''svc@staging health=24 heartbeat=}{'' \<and>
      map postURL rest = [''https://introspection:9080/sync/components''] \<and>
      map postBody rest = [''heartbeat=}{;health=24;''] \<and>
      (\<exists>rb needed.
           fst (httpPost registrarWants ''https://introspection:9080/sync/checksums'' body)
             = Response StatusOK rb \<and>
           decodeNeeded registrarWants rb = Some needed \<and> length needed > 0)"
    by (intro exI [of _ res] exI [of _ c'] exI [of _ body] exI [of _ rest] conjI
          run ps body urls bodies ex)
  with wfClient_registered enc1 enc2 show ?thesis by (intro conjI)
qed

theorem backoff_durations_witness:
  "wfClient exampleClient \<and> backoffIndex exampleClient = int 0 \<and>
   int 0 + int (length fourFailures) < 2 ^ 63 \<and>
   list_all attemptFails fourFailures \<and> attemptSucceeds (attemptWith registrarUp) \<and>
   (\<exists>c'. executeSync ''heartbeat-timer'' fourFailures exampleClient = Inr (False, c') \<and>
         slept c' = [1 * Second, 2 * Second, 3 * Second, 5 * Second] \<and> backoffIndex c' = 4) \<and>
   (\<exists>c'. executeSync ''heartbeat-timer'' outage exampleClient = Inr (True, c') \<and>
         slept c' = [1 * Second, 2 * Second, 3 * Second, 5 * Second] \<and> backoffIndex c' = 0) \<and>
   (\<exists>err c1 c2.
      performThreePhaseSync exampleProviders registrarDown exampleTime [] exampleClient
        = Inr (Some err, c1) \<and>
      executeSync ''heartbeat-timer'' [attemptWith registrarDown] exampleClient = Inr (False, c2) \<and>
      slept c2 = [1 * Second] \<and> backoffIndex c2 = 1) \<and>
   (\<exists>c1.
      performThreePhaseSync exampleProviders registrarUp exampleTime [] exampleClient
        = Inr (None, c1) \<and>
      executeSync ''heartbeat-timer'' [attemptWith registrarUp] exampleClient
        = Inr (True, c1\<lparr>backoffIndex := 0\<rparr>))"
proof -
  have b0: "backoffIndex exampleClient = int 0" and s0: "slept exampleClient = []"
    by (simp_all add: exampleClient_def)
  have bound: "int 0 + int (length fourFailures) < 2 ^ 63" by (simp add: fourFailures_def)
  have fails: "list_all attemptFails fourFailures"
    by (simp add: fourFailures_def registrarDown_fails)
  have len: "length fourFailures = 4" by (simp add: fourFailures_def)
  have u: "[1..<Suc 4] = [1, 2, 3, 4]" by (simp add: upt_rec)
  have sb1: "specBackoff (Suc 0) = 1 * Second" by (simp add: specBackoff_def specSequence_def)
  note T = backoff_durations [OF wfClient_example b0 bound fails, of "''heartbeat-timer''"]
  from T [THEN conjunct1] obtain c' where
    r: "executeSync ''heartbeat-timer'' fourFailures exampleClient = Inr (False, c')"
    and sl: "slept c' = slept exampleClient @
               map (\<lambda>k. specBackoff (0 + k)) [1..<Suc (length fourFailures)]"
    and ix: "backoffIndex c' = int (0 + length fourFailures)"
    and fin: "\<And>ok rest. attemptSucceeds ok \<Longrightarrow>
               (\<exists>c''. executeSync ''heartbeat-timer'' (fourFailures @ ok # rest) exampleClient
                        = Inr (True, c'') \<and>
                      slept c'' = slept c' \<and> backoffIndex c'' = 0)"
    by blast
  from sl s0 have sl': "slept c' = [1 * Second, 2 * Second, 3 * Second, 5 * Second]"
    unfolding len u by (simp add: specBackoff_values sb1)
  from ix len have ix': "backoffIndex c' = 4" by simp
  have A: "\<exists>c'. executeSync ''heartbeat-timer'' fourFailures exampleClient = Inr (False, c') \<and>
         slept c' = [1 * Second, 2 * Second, 3 * Second, 5 * Second] \<and> backoffIndex c' = 4"
    by (intro exI [of _ c'] conjI r sl' ix')
  from fin [OF registrarUp_succeeds, of "[]"] obtain c'' where
    r2: "executeSync ''heartbeat-timer'' (fourFailures @ [attemptWith registrarUp]) exampleClient
           = Inr (True, c'')"
    and sl2: "slept c'' = slept c'" and ix2: "backoffIndex c'' = 0" by blast
  from r2 have r2': "executeSync ''heartbeat-timer'' outage exampleClient = Inr (True, c'')"
    by (simp add: outage_def)
  from sl2 sl' have sl2': "slept c'' = [1 * Second, 2 * Second, 3 * Second, 5 * Second]" by simp
  have B: "\<exists>c'. executeSync ''heartbeat-timer'' outage exampleClient = Inr (True, c') \<and>
         slept c' = [1 * Second, 2 * Second, 3 * Second, 5 * Second] \<and> backoffIndex c' = 0"
    by (intro exI [of _ c''] conjI r2' sl2' ix2)
  from registrarDown_fails wfClient_example obtain err c1 where
    p: "performThreePhaseSync exampleProviders registrarDown exampleTime [] exampleClient
          = Inr (Some err, c1)"
    unfolding attemptFails_def by (auto simp: attemptWith_def)
  have p': "performThreePhaseSync (attemptEnv (attemptWith registrarDown))
              (attemptWire (attemptWith registrarDown)) (attemptTime (attemptWith registrarDown))
              (attemptRegistered (attemptWith registrarDown)) exampleClient = Inr (Some err, c1)"
    using p by (simp add: attemptWith_def)
  have b1: "int 0 + 1 < (2::int) ^ 63" by simp
  from T [THEN conjunct2, THEN conjunct2, rule_format, OF conjI, OF p' b1] obtain c2 where
    s2: "slept c2 = slept exampleClient @ [specBackoff (0 + 1)]"
    and i2: "backoffIndex c2 = int (0 + 1)"
    and run2: "\<And>rest. executeSync ''heartbeat-timer'' (attemptWith registrarDown # rest) exampleClient
                 = executeSync ''heartbeat-timer'' rest c2" by blast
  from run2 [of "[]"] have e2: "executeSync ''heartbeat-timer'' [attemptWith registrarDown]
                                 exampleClient = Inr (False, c2)" by simp
  from s2 s0 have s2': "slept c2 = [1 * Second]" by (simp add: sb1)
  from i2 have i2': "backoffIndex c2 = 1" by simp
  have C: "\<exists>err c1 c2.
      performThreePhaseSync exampleProviders registrarDown exampleTime [] exampleClient
        = Inr (Some err, c1) \<and>
      executeSync ''heartbeat-timer'' [attemptWith registrarDown] exampleClient = Inr (False, c2) \<and>
      slept c2 = [1 * Second] \<and> backoffIndex c2 = 1"
    by (intro exI [of _ err] exI [of _ c1] exI [of _ c2] conjI p e2 s2' i2')
  from registrarUp_succeeds wfClient_example obtain d1 where
    q: "performThreePhaseSync exampleProviders registrarUp exampleTime [] exampleClient
          = Inr (None, d1)"
    unfolding attemptSucceeds_def by (auto simp: attemptWith_def)
  have q': "performThreePhaseSync (attemptEnv (attemptWith registrarUp))
              (attemptWire (attemptWith registrarUp)) (attemptTime (attemptWith registrarUp))
              (attemptRegistered (attemptWith registrarUp)) exampleClient = Inr (None, d1)"
    using q by (simp add: attemptWith_def)
  from T [THEN conjunct2, THEN conjunct1, rule_format, OF q', of "[]"]
  have e3: "executeSync ''heartbeat-timer'' [attemptWith registrarUp] exampleClient
              = Inr (True, d1\<lparr>backoffIndex := 0\<rparr>)" .
  have D: "\<exists>c1.
      performThreePhaseSync exampleProviders registrarUp exampleTime [] exampleClient
        = Inr (None, c1) \<and>
      executeSync ''heartbeat-timer'' [attemptWith registrarUp] exampleClient
        = Inr (True, c1\<lparr>backoffIndex := 0\<rparr>)"
    by (intro exI [of _ d1] conjI q e3)
  from wfClient_example b0 bound fails registrarUp_succeeds A B C D show ?thesis
    by (intro conjI)
qed


section \<open>The idle time: properties\<close>

lemma digitsOf_0: "digitsOf 0 = ''0''"
  by code_simp

text \<open>
  With providers whose output is encodable, the heartbeat timer and the sync it starts
  leave \<open>idleSince\<close> as it was.
\<close>

lemma heartbeat_sync_keeps_idleSince:
  "\<exists>c0 c1 c'.
     NewClient exampleMaxCap (fsOf pkiFiles) exampleTime exampleConfig = Inr (Inr c0) \<and>
     runClient startup c0 = Inr c1 \<and> idleSince c1 = exampleTime \<and>
     runClient (heartbeatRunWith exampleProviders) c1 = Inr c' \<and>
     idleSince c' = exampleTime \<and>
     launched c' = [TriggerSync ''heartbeat-timer''] \<and>
     map postURL (posts c') = [''https://introspection:9080/sync/checksums'']"
  by (simp add: NewClient_def Validate_def exampleConfig_def New_def BuildHTTP2Client_def
        fsOf_def map_of_pki NewRecentLogs_def exampleMaxCap_def registerStandardComponents_def
        Register_def RegisterForEntity_def SetTriggerFunc_def Slow_def Fast_def
        startup_def clientStep_def Start_def scheduleNextUpdate_def GetNextUpdateTime_def
        standardKeys_def lookup2_def Seconds_def Medium_def IsZero_def Before_def zeroTime_def
        Add_def Sub_def Second_def Info_def Log_def len_context_def UTC_def
        heartbeatRunWith_def startedRegistered_def
        onHeartbeatFire_def launchIt_def HeartbeatIntervalSec_def
        performThreePhaseSync_def Collect_component_def
        recompute_def exampleProviders_def digitsOf_42 digitsOf_0 NewComponent_def
        sendChecksums_def registrarIdle_def Let_def exampleTime_def atSecond_def
        StatusOK_def)

text \<open>
  C4. The claim fails on the code. The comment in \<open>onHeartbeatFire\<close> says that the heartbeat
  does not reset \<open>idle_since\<close>, and the comments of \<open>WarnNoTrigger\<close> and \<open>ErrorNoTrigger\<close> say
  that the library's own logs must not trigger. But \<open>performThreePhaseSync\<close> logs a failed
  collect with \<open>c.logs.Warn\<close>, whose callback starts \<open>triggerSyncFromLogs\<close>, and that sets
  \<open>idleSince\<close> to the clock reading. So: a service makes its client, starts it and
  registers a component whose provider returns a value that \<open>json.Marshal\<close> rejects;
  \<open>idleSince\<close> is then the time of the start. 59 seconds later the heartbeat timer fires
  and the sync it starts runs. No trigger is called and the service logs nothing. After
  the run \<open>idleSince\<close> is the time of the heartbeat sync, and a further sync
  (\<open>logs:error-or-warn\<close>) has been started.
\<close>

theorem heartbeat_sync_advances_idleSince:
  "\<exists>c0 c1 c'.
     NewClient exampleMaxCap (fsOf pkiFiles) exampleTime exampleConfig = Inr (Inr c0) \<and>
     runClient startup c0 = Inr c1 \<and> idleSince c1 = exampleTime \<and>
     runClient (heartbeatRunWith unencodable) c1 = Inr c' \<and>
     idleSince c' = atSecond 59 \<and> idleSince c' \<noteq> idleSince c1 \<and>
     launched c' = [TriggerSync ''heartbeat-timer'', TriggerSyncFromLogs,
                    TriggerSync ''logs:error-or-warn''] \<and>
     map Message (entries (logs c')) =
       [''Introspection client started'', ''Failed to collect component for update check''] \<and>
     map postURL (posts c') = [''https://introspection:9080/sync/checksums'']"
  by (simp add: NewClient_def Validate_def exampleConfig_def New_def BuildHTTP2Client_def
        fsOf_def map_of_pki NewRecentLogs_def exampleMaxCap_def registerStandardComponents_def
        Register_def RegisterForEntity_def SetTriggerFunc_def Slow_def Fast_def
        startup_def clientStep_def Start_def scheduleNextUpdate_def GetNextUpdateTime_def
        standardKeys_def lookup2_def Seconds_def Medium_def IsZero_def Before_def zeroTime_def
        Add_def Sub_def Second_def Info_def Log_def len_context_def UTC_def
        heartbeatRunWith_def startedRegistered_def
        onHeartbeatFire_def launchIt_def HeartbeatIntervalSec_def
        performThreePhaseSync_def Collect_component_def
        recompute_def unencodable_def exampleProviders_def digitsOf_0 NewComponent_def
        logsWarn_def Warn_def triggerSyncFromLogs_def resetHeartbeatTimer_def
        sendChecksums_def registrarIdle_def Let_def exampleTime_def atSecond_def
        StatusOK_def)

section \<open>The goroutines of the sync system: an overlap\<close>

lemma two_triggers:
  "schedule [0, 0, 0, 0, 0, 0, 0, 0, 1, 1, 1, 1, 1, 1, 1, 1] (triggered 2)
     = Some \<lparr>syncMu = None, pending = False, goroutines = [InExecuteSync, InExecuteSync]\<rparr>"
  by (simp add: triggered_def stepGoroutine_def setPc_def numeral_2_eq_2)

lemma four_triggers:
  "schedule (replicate 8 0 @ replicate 8 1 @ replicate 8 2 @ replicate 8 3) (triggered 4)
     = Some \<lparr>syncMu = None, pending = False,
             goroutines = [InExecuteSync, InExecuteSync, InExecuteSync, InExecuteSync]\<rparr>"
  by code_simp

lemma blocked_while_locked: "schedule [0, 0, 0, 1] (triggered 2) = None"
  by code_simp

text \<open>
  C2. The spec says that at most one sync executes at any instant and that the triggers
  arriving during a sync coalesce into one follow-up sync. In the code the goroutine
  that runs a sync clears \<open>syncPending\<close> and unlocks \<open>syncMu\<close> before it calls
  \<open>executeSync\<close>, so a trigger that arrives during the sync finds the flag false and
  the mutex free, and runs a sync of its own: after two triggers, two goroutines are
  inside \<open>executeSync\<close> at once, and after four triggers, four.
\<close>

theorem syncs_overlap:
  "map_option executing
     (schedule [0, 0, 0, 0, 0, 0, 0, 0, 1, 1, 1, 1, 1, 1, 1, 1] (triggered 2)) = Some 2 \<and>
   map_option executing
     (schedule (replicate 8 0 @ replicate 8 1 @ replicate 8 2 @ replicate 8 3) (triggered 4))
     = Some 4"
  unfolding two_triggers four_triggers by (simp add: executing_def)

section \<open>Timestamps on the wire\<close>

lemma last_call_Z:
  "lastCallReported
     (TrackSuccess exampleTime ''introspection'' ''https://introspection:9080'' 1000000
        NewConnectivityTracker) ''introspection'' = Some ''2024-01-01T00:00:00Z''"
  by code_simp

lemma valid_from_Z: "valid_from (certificateGetData exampleCertificate) = ''2024-01-01T00:00:00Z''"
  by code_simp

lemma valid_until_Z: "valid_until (certificateGetData exampleCertificate) = ''2024-12-31T23:59:59Z''"
  by code_simp

lemma log_timestamp_Z:
  "map logEntryTimestampJSON (entries exampleLogged) = [''2024-01-01T00:00:00.12345Z'']"
  by code_simp

lemma heartbeat_plus_zero:
  "Format plusZeroLayout (UTC exampleTime) = ''2024-01-01T00:00:00+00:00''"
  by code_simp

text \<open>
  C5. The spec says that every timestamp on the wire ends in \<open>+00:00\<close> and has second
  resolution. The heartbeat is formatted so, but in the code the connectivity
  component's \<open>last_call\<close> and the certificate component's \<open>valid_from\<close> and
  \<open>valid_until\<close> are formatted with \<open>time.RFC3339\<close>, which prints \<open>Z\<close> for UTC, and a log
  entry's timestamp is encoded by \<open>Time.MarshalJSON\<close>, which prints fractional seconds
  and \<open>Z\<close>.
\<close>

theorem timestamps_with_Z:
  "lastCallReported
     (TrackSuccess exampleTime ''introspection'' ''https://introspection:9080'' 1000000
        NewConnectivityTracker) ''introspection'' = Some ''2024-01-01T00:00:00Z'' \<and>
   valid_from (certificateGetData exampleCertificate) = ''2024-01-01T00:00:00Z'' \<and>
   valid_until (certificateGetData exampleCertificate) = ''2024-12-31T23:59:59Z'' \<and>
   map logEntryTimestampJSON (entries exampleLogged) = [''2024-01-01T00:00:00.12345Z''] \<and>
   Format plusZeroLayout (UTC exampleTime) = ''2024-01-01T00:00:00+00:00''"
  by (intro conjI last_call_Z valid_from_Z valid_until_Z log_timestamp_Z heartbeat_plus_zero)

end
